theory Spec2Isabelle
  imports Main "HOL-Library.Word"
begin

unbundle bit_operations_syntax

section \<open>Cryptoki types and constants\<close>

text \<open>
  The embedding follows \<^verbatim>\<open>keychain_pkcs11.c\<close>.  \<^verbatim>\<open>CK_ULONG\<close> values that are only
  compared (attribute types, object classes, mechanism numbers, lengths) are natural
  numbers below \<open>2 ^ 64\<close>; flag words are \<open>64 word\<close>; the \<^verbatim>\<open>unsigned int\<close> identity index of
  \<^verbatim>\<open>get_index_bytes\<close> and the token reference count are \<open>32 word\<close>.  The numeric values
  of the \<^verbatim>\<open>CKA_\<close>, \<^verbatim>\<open>CKO_\<close>, \<^verbatim>\<open>CKF_\<close> and \<^verbatim>\<open>CKZ_\<close> names are those of the PKCS #11 v2.40
  header \<^verbatim>\<open>pkcs11t.h\<close>, which the source includes through \<^verbatim>\<open>mypkcs11.h\<close>.
\<close>

type_synonym byte = "8 word"
type_synonym bytes = "byte list"

datatype CK_RV =
    CKR_OK
  | CKR_ARGUMENTS_BAD
  | CKR_ATTRIBUTE_TYPE_INVALID
  | CKR_BUFFER_TOO_SMALL
  | CKR_CRYPTOKI_ALREADY_INITIALIZED
  | CKR_CRYPTOKI_NOT_INITIALIZED
  | CKR_DATA_LEN_RANGE
  | CKR_FUNCTION_FAILED
  | CKR_GENERAL_ERROR
  | CKR_KEY_FUNCTION_NOT_PERMITTED
  | CKR_KEY_HANDLE_INVALID
  | CKR_KEY_TYPE_INCONSISTENT
  | CKR_MECHANISM_INVALID
  | CKR_MECHANISM_PARAM_INVALID
  | CKR_OBJECT_HANDLE_INVALID
  | CKR_OPERATION_ACTIVE
  | CKR_OPERATION_NOT_INITIALIZED
  | CKR_SESSION_HANDLE_INVALID
  | CKR_SESSION_PARALLEL_NOT_SUPPORTED
  | CKR_SIGNATURE_INVALID
  | CKR_SLOT_ID_INVALID
  | CKR_TOKEN_NOT_PRESENT
  | CKR_LA_FAILURE nat

text \<open>
  \<open>CKR_LA_FAILURE\<close> stands for whatever non-OK code \<^verbatim>\<open>lacontext_auth\<close> (in
  \<^verbatim>\<open>localauth.m\<close>) hands back; \<^verbatim>\<open>C_Login\<close> propagates it unchanged.
\<close>

definition CK_UNAVAILABLE_INFORMATION :: nat where
  "CK_UNAVAILABLE_INFORMATION = 2 ^ 64 - 1"

definition CKO_CERTIFICATE :: nat where "CKO_CERTIFICATE = 1"
definition CKO_PUBLIC_KEY :: nat where "CKO_PUBLIC_KEY = 2"
definition CKO_PRIVATE_KEY :: nat where "CKO_PRIVATE_KEY = 3"

definition CKC_X_509 :: nat where "CKC_X_509 = 0"

definition CKA_CLASS :: nat where "CKA_CLASS = 0x0"
definition CKA_TOKEN :: nat where "CKA_TOKEN = 0x1"
definition CKA_PRIVATE :: nat where "CKA_PRIVATE = 0x2"
definition CKA_LABEL :: nat where "CKA_LABEL = 0x3"
definition CKA_VALUE :: nat where "CKA_VALUE = 0x11"
definition CKA_CERTIFICATE_TYPE :: nat where "CKA_CERTIFICATE_TYPE = 0x80"
definition CKA_ISSUER :: nat where "CKA_ISSUER = 0x81"
definition CKA_SERIAL_NUMBER :: nat where "CKA_SERIAL_NUMBER = 0x82"
definition CKA_KEY_TYPE :: nat where "CKA_KEY_TYPE = 0x100"
definition CKA_SUBJECT :: nat where "CKA_SUBJECT = 0x101"
definition CKA_ID :: nat where "CKA_ID = 0x102"
definition CKA_SENSITIVE :: nat where "CKA_SENSITIVE = 0x103"
definition CKA_ENCRYPT :: nat where "CKA_ENCRYPT = 0x104"
definition CKA_DECRYPT :: nat where "CKA_DECRYPT = 0x105"
definition CKA_WRAP :: nat where "CKA_WRAP = 0x106"
definition CKA_UNWRAP :: nat where "CKA_UNWRAP = 0x107"
definition CKA_SIGN :: nat where "CKA_SIGN = 0x108"
definition CKA_VERIFY :: nat where "CKA_VERIFY = 0x10A"
definition CKA_DERIVE :: nat where "CKA_DERIVE = 0x10C"
definition CKA_MODULUS :: nat where "CKA_MODULUS = 0x120"
definition CKA_MODULUS_BITS :: nat where "CKA_MODULUS_BITS = 0x121"
definition CKA_PUBLIC_EXPONENT :: nat where "CKA_PUBLIC_EXPONENT = 0x122"
definition CKA_EXTRACTABLE :: nat where "CKA_EXTRACTABLE = 0x162"
definition CKA_LOCAL :: nat where "CKA_LOCAL = 0x163"
definition CKA_NEVER_EXTRACTABLE :: nat where "CKA_NEVER_EXTRACTABLE = 0x164"
definition CKA_ALWAYS_SENSITIVE :: nat where "CKA_ALWAYS_SENSITIVE = 0x165"
definition CKA_ALWAYS_AUTHENTICATE :: nat where "CKA_ALWAYS_AUTHENTICATE = 0x202"

definition CKF_SERIAL_SESSION :: "64 word" where "CKF_SERIAL_SESSION = 0x4"
definition CKF_ENCRYPT :: "64 word" where "CKF_ENCRYPT = 0x100"
definition CKF_DECRYPT :: "64 word" where "CKF_DECRYPT = 0x200"
definition CKF_SIGN :: "64 word" where "CKF_SIGN = 0x800"
definition CKF_VERIFY :: "64 word" where "CKF_VERIFY = 0x2000"

definition CKZ_DATA_SPECIFIED :: nat where "CKZ_DATA_SPECIFIED = 1"

definition CERTIFICATE_SLOT :: nat where "CERTIFICATE_SLOT = 254"

datatype session_state_info = CKS_RO_PUBLIC_SESSION | CKS_RO_USER_FUNCTIONS

section \<open>Attributes and objects\<close>

text \<open>
  A \<^verbatim>\<open>CK_ATTRIBUTE\<close> is \<^verbatim>\<open>(type, pValue, ulValueLen)\<close>.  The pointer \<^verbatim>\<open>pValue\<close> is \<open>None\<close> when
  it is \<^verbatim>\<open>NULL\<close> and otherwise carries the bytes of the buffer it points to.
\<close>

record CK_ATTRIBUTE =
  type :: nat
  pValue :: "bytes option"
  ulValueLen :: nat

text \<open>
  Handles of the host's Security framework (\<^verbatim>\<open>SecKeyRef\<close>, \<^verbatim>\<open>SecCertificateRef\<close>, ...) are
  opaque numbers.  A \<^verbatim>\<open>SecKeyAlgorithm\<close> is a constant string reference that may be \<^verbatim>\<open>NULL\<close>.
\<close>

type_synonym SecKeyRef = nat
type_synonym SecCertificateRef = nat
type_synonym SecKeyAlgorithm = "string option"

record id_info =
  ident :: nat
  cert :: SecCertificateRef
  privkey :: SecKeyRef
  pubkey :: SecKeyRef
  pkeyhash :: bytes
  keytype :: nat
  secaccess :: nat
  label :: bytes
  privcansign :: bool
  privcandecrypt :: bool
  pubcanverify :: bool
  pubcanencrypt :: bool
  pubcanwrap :: bool

text \<open>
  \<^verbatim>\<open>struct obj_info\<close>.  The field \<^verbatim>\<open>id\<close> points into the token's identity list, which is
  never changed after the token is built, so the model keeps the identity by value
  (\<open>None\<close> for \<^verbatim>\<open>NULL\<close>).  The attribute array grows by \<^verbatim>\<open>realloc\<close> and is only ever
  written at index \<^verbatim>\<open>attr_count\<close>, so it is the list of its first \<^verbatim>\<open>attr_count\<close> cells.
\<close>

record obj_info =
  obj_id :: "id_info option"
  obj_class :: nat
  attrs :: "CK_ATTRIBUTE list"

subsection \<open>\<^verbatim>\<open>find_attribute\<close>\<close>

fun find_attribute_loop :: "CK_ATTRIBUTE list \<Rightarrow> nat \<Rightarrow> CK_ATTRIBUTE option" where
  "find_attribute_loop [] t = None"
| "find_attribute_loop (a # as) t = (if type a = t then Some a else find_attribute_loop as t)"

definition find_attribute :: "obj_info \<Rightarrow> nat \<Rightarrow> CK_ATTRIBUTE option" where
  "find_attribute obj t = find_attribute_loop (attrs obj) t"

subsection \<open>\<^verbatim>\<open>get_index_bytes\<close>\<close>

text \<open>
  The first loop of \<^verbatim>\<open>get_index_bytes\<close> counts \<^verbatim>\<open>i\<close> down from \<^verbatim>\<open>sizeof(index)\<close> and stops
  at the first \<^verbatim>\<open>i\<close> whose shifted index is non-zero, or at 1.
\<close>

fun index_length :: "nat \<Rightarrow> 32 word \<Rightarrow> nat" where
  "index_length 0 index = 0"
| "index_length (Suc 0) index = Suc 0"
| "index_length (Suc (Suc n)) index =
     (if drop_bit (Suc n * 8) index \<noteq> 0 then Suc (Suc n) else index_length (Suc n) index)"

definition get_index_bytes :: "32 word \<Rightarrow> bytes" where
  "get_index_bytes index =
     (let len = index_length 4 index
      in map (\<lambda>i. ucast (drop_bit ((len - i - 1) * 8) index AND 0xff)) [0..<len])"



section \<open>The host and the token\<close>

text \<open>
  Everything the source obtains from the Security framework, CommonCrypto, LocalAuthentication
  and the helpers in \<^verbatim>\<open>certutil.h\<close> and \<^verbatim>\<open>ccglue.h\<close> is a function of the environment.
  \<^verbatim>\<open>get_pubkey_info\<close> reports success together with the modulus and exponent it extracted.
  \<^verbatim>\<open>os_log_debug_enabled\<close> says whether debug messages are logged, and \<^verbatim>\<open>get_common_name\<close>
  takes the pointer and the length it is called with and gives the name it returns, or
  \<open>None\<close> when it does not return.
\<close>

datatype la_keyusage = USAGE_SIGN | USAGE_DECRYPT

record md_context =
  md_alg :: nat
  md_data :: bytes

record host_env =
  SecCertificateCopyData :: "SecCertificateRef \<Rightarrow> bytes"
  get_certificate_info :: "bytes \<Rightarrow> bytes option \<times> bytes option \<times> bytes option"
  SecKeyGetBlockSize :: "SecKeyRef \<Rightarrow> nat"
  SecKeyCopyExternalRepresentation :: "SecKeyRef \<Rightarrow> bytes option"
  get_pubkey_info :: "bytes \<Rightarrow> bool \<times> bytes option \<times> bytes option"
  getkeylabel :: "SecKeyRef \<Rightarrow> bytes"
  SecKeyCreateEncryptedData :: "SecKeyRef option \<Rightarrow> SecKeyAlgorithm \<Rightarrow> bytes \<Rightarrow> bytes option"
  SecKeyCreateDecryptedData :: "SecKeyRef option \<Rightarrow> SecKeyAlgorithm \<Rightarrow> bytes \<Rightarrow> bytes option"
  SecKeyCreateSignature :: "SecKeyRef option \<Rightarrow> SecKeyAlgorithm \<Rightarrow> bytes \<Rightarrow> bytes option"
  SecKeyVerifySignature ::
    "SecKeyRef option \<Rightarrow> SecKeyAlgorithm \<Rightarrow> bytes \<Rightarrow> bytes \<Rightarrow> bool"
  CFDataCreateWithBytesNoCopy :: "bytes \<Rightarrow> bool"
  cc_md_init :: "nat \<Rightarrow> bool"
  cc_md_final :: "md_context option \<Rightarrow> bytes"
  lacontext_auth :: "nat \<Rightarrow> bytes \<Rightarrow> nat \<Rightarrow> la_keyusage \<Rightarrow> CK_RV"
  os_log_debug_enabled :: bool
  get_common_name :: "bytes option \<Rightarrow> nat \<Rightarrow> string option"

text \<open>
  \<^verbatim>\<open>struct slot_entry\<close>.  \<^verbatim>\<open>id_count\<close> is the length of \<^verbatim>\<open>id_list\<close>.  The object array is
  kept with its capacity: \<^verbatim>\<open>obj_list\<close> has \<^verbatim>\<open>obj_size\<close> cells, of which the first
  \<^verbatim>\<open>obj_count\<close> are finished objects.  \<^verbatim>\<open>obj_count\<close> and \<^verbatim>\<open>obj_size\<close> are \<^verbatim>\<open>unsigned int\<close>:
  every value assigned to them is taken modulo \<open>2 ^ 32\<close>.
\<close>

record slot_entry =
  tokenid :: string
  id_list :: "id_info list"
  obj_list :: "obj_info list"
  obj_count :: nat
  obj_size :: nat
  logged_in :: bool
  token_label :: "bytes option"
  lacontext :: "nat option"
  refcount :: "32 word"

subsection \<open>The object builder\<close>

text \<open>
  \<^verbatim>\<open>realloc\<close> keeps the old cells and adds cells whose content is not initialised; \<open>uninit i\<close>
  is whatever cell \<open>i\<close> holds then.
\<close>

definition realloc_cells :: "(nat \<Rightarrow> 'a) \<Rightarrow> 'a list \<Rightarrow> nat \<Rightarrow> 'a list" where
  "realloc_cells uninit xs n = take n xs @ map uninit [length xs..<n]"

definition NEW_OBJECT :: "(nat \<Rightarrow> obj_info) \<Rightarrow> slot_entry \<Rightarrow> slot_entry" where
  "NEW_OBJECT uninit e =
     (let e1 = e\<lparr>obj_count := (obj_count e + 1) mod 2 ^ 32\<rparr>
      in if obj_count e1 \<ge> obj_size e1
         then e1\<lparr>obj_size := (obj_size e1 + 5) mod 2 ^ 32,
                 obj_list := realloc_cells uninit (obj_list e1) ((obj_size e1 + 5) mod 2 ^ 32)\<rparr>
         else e1)"

definition OBJINIT :: "id_info option \<Rightarrow> slot_entry \<Rightarrow> slot_entry" where
  "OBJINIT idptr e =
     e\<lparr>obj_list := (obj_list e)[obj_count e :=
          (obj_list e ! obj_count e)\<lparr>obj_id := idptr, attrs := []\<rparr>]\<rparr>"

definition set_class :: "nat \<Rightarrow> slot_entry \<Rightarrow> slot_entry" where
  "set_class cl e =
     e\<lparr>obj_list := (obj_list e)[obj_count e := (obj_list e ! obj_count e)\<lparr>obj_class := cl\<rparr>]\<rparr>"

definition ADD_ATTR_SIZE :: "nat \<Rightarrow> bytes \<Rightarrow> nat \<Rightarrow> slot_entry \<Rightarrow> slot_entry" where
  "ADD_ATTR_SIZE attribute var sz e =
     e\<lparr>obj_list := (obj_list e)[obj_count e :=
          (obj_list e ! obj_count e)\<lparr>attrs := attrs (obj_list e ! obj_count e) @
             [\<lparr>type = attribute, pValue = Some (take sz var), ulValueLen = sz\<rparr>]\<rparr>]\<rparr>"

text \<open>
  \<^verbatim>\<open>ADD_ATTR\<close> copies \<^verbatim>\<open>sizeof(var)\<close> bytes of a variable: eight bytes, least significant
  first, for a \<^verbatim>\<open>CK_ULONG\<close>, and one byte for a \<^verbatim>\<open>CK_BBOOL\<close>.
\<close>

definition ulong_bytes :: "nat \<Rightarrow> bytes" where
  "ulong_bytes n = map (\<lambda>i. of_nat (n div 256 ^ i mod 256)) [0..<8]"

definition bbool_bytes :: "bool \<Rightarrow> bytes" where
  "bbool_bytes b = [if b then 1 else 0]"

definition ADD_ATTR_ULONG :: "nat \<Rightarrow> nat \<Rightarrow> slot_entry \<Rightarrow> slot_entry" where
  "ADD_ATTR_ULONG attribute var e = ADD_ATTR_SIZE attribute (ulong_bytes var) 8 e"

definition ADD_ATTR_BBOOL :: "nat \<Rightarrow> bool \<Rightarrow> slot_entry \<Rightarrow> slot_entry" where
  "ADD_ATTR_BBOOL attribute var e = ADD_ATTR_SIZE attribute (bbool_bytes var) 1 e"

definition ADD_ATTR_OPT :: "nat \<Rightarrow> bytes option \<Rightarrow> slot_entry \<Rightarrow> slot_entry" where
  "ADD_ATTR_OPT attribute d e =
     (case d of None \<Rightarrow> e | Some v \<Rightarrow> ADD_ATTR_SIZE attribute v (length v) e)"

text \<open>The certificate object of identity \<open>i\<close>.\<close>

definition build_cert_object ::
  "host_env \<Rightarrow> bytes \<Rightarrow> id_info \<Rightarrow> slot_entry \<Rightarrow> slot_entry" where
  "build_cert_object h objid idp e0 =
     (let d = SecCertificateCopyData h (cert idp);
          (serial, issuer, subject) = get_certificate_info h d;
          e = OBJINIT (Some idp) e0;
          e = set_class CKO_CERTIFICATE e;
          e = ADD_ATTR_ULONG CKA_CLASS CKO_CERTIFICATE e;
          e = ADD_ATTR_SIZE CKA_ID objid (length objid) e;
          e = ADD_ATTR_ULONG CKA_CERTIFICATE_TYPE CKC_X_509 e;
          e = ADD_ATTR_BBOOL CKA_TOKEN True e;
          e = ADD_ATTR_SIZE CKA_LABEL (label idp) (length (label idp)) e;
          e = ADD_ATTR_SIZE CKA_VALUE d (length d) e;
          e = ADD_ATTR_OPT CKA_SUBJECT subject e;
          e = ADD_ATTR_OPT CKA_ISSUER issuer e;
          e = ADD_ATTR_OPT CKA_SERIAL_NUMBER serial e
      in e)"

text \<open>
  The public key object.  When \<^verbatim>\<open>get_pubkey_info\<close> succeeds the source reads the modulus
  and the exponent it returned.
\<close>

definition cfdata :: "bytes option \<Rightarrow> bytes" where
  "cfdata d = (case d of None \<Rightarrow> [] | Some v \<Rightarrow> v)"

definition build_pubkey_object ::
  "host_env \<Rightarrow> bytes \<Rightarrow> id_info \<Rightarrow> slot_entry \<Rightarrow> slot_entry" where
  "build_pubkey_object h objid idp e0 =
     (let d = SecCertificateCopyData h (cert idp);
          (serial, issuer, subject) = get_certificate_info h d;
          keydata = SecKeyCopyExternalRepresentation h (pubkey idp);
          e = OBJINIT (Some idp) e0;
          e = set_class CKO_PUBLIC_KEY e;
          e = ADD_ATTR_ULONG CKA_CLASS CKO_PUBLIC_KEY e;
          e = ADD_ATTR_SIZE CKA_ID objid (length objid) e;
          e = ADD_ATTR_ULONG CKA_KEY_TYPE (keytype idp) e;
          e = ADD_ATTR_BBOOL CKA_TOKEN True e;
          e = ADD_ATTR_BBOOL CKA_LOCAL True e;
          e = ADD_ATTR_BBOOL CKA_ENCRYPT (pubcanencrypt idp) e;
          e = ADD_ATTR_BBOOL CKA_VERIFY (pubcanverify idp) e;
          e = ADD_ATTR_OPT CKA_SUBJECT subject e;
          e = ADD_ATTR_SIZE CKA_LABEL (label idp) (length (label idp)) e;
          e = ADD_ATTR_ULONG CKA_MODULUS_BITS
                ((SecKeyGetBlockSize h (pubkey idp) * 8) mod 2 ^ 64) e;
          e = (case keydata of
                 None \<Rightarrow> e
               | Some kd \<Rightarrow>
                   (case get_pubkey_info h kd of
                      (True, modulus, exponent) \<Rightarrow>
                        ADD_ATTR_SIZE CKA_PUBLIC_EXPONENT (cfdata exponent) (length (cfdata exponent))
                          (ADD_ATTR_SIZE CKA_MODULUS (cfdata modulus) (length (cfdata modulus)) e)
                    | (False, modulus, exponent) \<Rightarrow> e));
          e = ADD_ATTR_BBOOL CKA_WRAP False e;
          e = ADD_ATTR_BBOOL CKA_DERIVE False e
      in e)"

definition build_privkey_object ::
  "host_env \<Rightarrow> bytes \<Rightarrow> id_info \<Rightarrow> slot_entry \<Rightarrow> slot_entry" where
  "build_privkey_object h objid idp e0 =
     (let d = SecCertificateCopyData h (cert idp);
          (serial, issuer, subject) = get_certificate_info h d;
          keydata = SecKeyCopyExternalRepresentation h (pubkey idp);
          lbl = getkeylabel h (privkey idp);
          e = OBJINIT (Some idp) e0;
          e = set_class CKO_PRIVATE_KEY e;
          e = ADD_ATTR_ULONG CKA_CLASS CKO_PRIVATE_KEY e;
          e = ADD_ATTR_SIZE CKA_ID objid (length objid) e;
          e = ADD_ATTR_ULONG CKA_KEY_TYPE (keytype idp) e;
          e = ADD_ATTR_BBOOL CKA_TOKEN True e;
          e = ADD_ATTR_BBOOL CKA_PRIVATE True e;
          e = ADD_ATTR_BBOOL CKA_DECRYPT (privcandecrypt idp) e;
          e = ADD_ATTR_BBOOL CKA_SIGN (privcansign idp) e;
          e = ADD_ATTR_OPT CKA_SUBJECT subject e;
          e = ADD_ATTR_SIZE CKA_LABEL lbl (length lbl) e;
          e = (case keydata of
                 None \<Rightarrow> e
               | Some kd \<Rightarrow>
                   (case get_pubkey_info h kd of
                      (ok, modulus, exponent) \<Rightarrow>
                        ADD_ATTR_OPT CKA_PUBLIC_EXPONENT exponent
                          (ADD_ATTR_OPT CKA_MODULUS modulus e)));
          e = ADD_ATTR_BBOOL CKA_SENSITIVE True e;
          e = ADD_ATTR_BBOOL CKA_ALWAYS_SENSITIVE True e;
          e = ADD_ATTR_BBOOL CKA_NEVER_EXTRACTABLE True e;
          e = ADD_ATTR_BBOOL CKA_LOCAL True e;
          e = ADD_ATTR_BBOOL CKA_ALWAYS_AUTHENTICATE False e;
          e = ADD_ATTR_BBOOL CKA_UNWRAP False e;
          e = ADD_ATTR_BBOOL CKA_DERIVE False e;
          e = ADD_ATTR_BBOOL CKA_EXTRACTABLE False e
      in e)"

text \<open>
  One turn of the loop of \<^verbatim>\<open>build_id_objects\<close>, for the identity at index \<open>i\<close>: the loop
  variable is handed to \<^verbatim>\<open>get_index_bytes\<close> as an \<^verbatim>\<open>unsigned int\<close>.
\<close>

definition build_identity ::
  "host_env \<Rightarrow> (nat \<Rightarrow> obj_info) \<Rightarrow> slot_entry \<Rightarrow> nat \<Rightarrow> slot_entry" where
  "build_identity h uninit e i =
     (let idp = id_list e ! i;
          objid = get_index_bytes (of_nat i);
          e = build_cert_object h objid idp e;
          e = NEW_OBJECT uninit e;
          e = build_pubkey_object h objid idp e;
          e = NEW_OBJECT uninit e;
          e = build_privkey_object h objid idp e;
          e = NEW_OBJECT uninit e
      in e)"

definition build_id_objects ::
  "host_env \<Rightarrow> (nat \<Rightarrow> obj_info) \<Rightarrow> slot_entry \<Rightarrow> slot_entry" where
  "build_id_objects h uninit e =
     (let e1 = (if length (id_list e) > 0
                then (NEW_OBJECT uninit e)\<lparr>obj_count :=
                       (obj_count (NEW_OBJECT uninit e) + 2 ^ 32 - 1) mod 2 ^ 32\<rparr>
                else e)
      in foldl (build_identity h uninit) e1 [0..<length (id_list e)])"

text \<open>
  The token as \<^verbatim>\<open>add_token_id\<close> allocates it (\<^verbatim>\<open>memset\<close> to zero, then the fields it sets),
  before the identities are added.
\<close>

definition new_token :: "string \<Rightarrow> nat option \<Rightarrow> slot_entry" where
  "new_token tid la =
     \<lparr>tokenid = tid, id_list = [], obj_list = [], obj_count = 0, obj_size = 0,
      logged_in = False, token_label = None, lacontext = la, refcount = 1\<rparr>"


section \<open>Mechanisms and their parameters\<close>

text \<open>
  The tables \<^verbatim>\<open>keychain_mechmap\<close> and \<^verbatim>\<open>keychain_param_map\<close> are declared in \<^verbatim>\<open>tables.h\<close> and
  are parameters of the model.  A table cell that points to a \<^verbatim>\<open>SecKeyAlgorithm\<close> constant is
  \<open>None\<close> when the pointer is \<^verbatim>\<open>NULL\<close>.
\<close>

datatype param_type = NONE | OAEP | PSS

record mechanism_map =
  cki_mech :: nat
  usage_flags :: "64 word"
  parameters :: param_type
  sec_encmech :: "SecKeyAlgorithm option"
  sec_signmech :: "SecKeyAlgorithm option"
  sec_dsignmech :: "SecKeyAlgorithm option"
  sec_digest :: nat
  blocksize_out :: bool
  min_keylen :: nat
  max_keylen :: nat

record param_map =
  base_type :: nat
  hash_alg_pm :: nat
  mgf_pm :: nat
  slen :: nat
  encalg :: "SecKeyAlgorithm option"
  signalg :: "SecKeyAlgorithm option"
  dsignalg :: "SecKeyAlgorithm option"

record tables =
  keychain_mechmap :: "mechanism_map list"
  keychain_param_map :: "param_map list"

record CK_RSA_PKCS_OAEP_PARAMS =
  hashAlg :: nat
  mgf :: nat
  source :: nat
  pSourceData :: "bytes option"
  ulSourceDataLen :: nat

record CK_RSA_PKCS_PSS_PARAMS =
  hashAlg_pss :: nat
  mgf_pss :: nat
  sLen :: nat

text \<open>
  \<^verbatim>\<open>pParameter\<close> is an untyped pointer that \<^verbatim>\<open>mech_param_validate\<close> casts to the OAEP or the
  PSS structure; \<open>param_block\<close> is the memory it points to, given by what each cast reads
  there.  The structure sizes are those of an LP64 target (five, respectively three,
  eight-byte members).
\<close>

record param_block =
  as_oaep :: CK_RSA_PKCS_OAEP_PARAMS
  as_pss :: CK_RSA_PKCS_PSS_PARAMS

record CK_MECHANISM =
  mechanism :: nat
  pParameter :: "param_block option"
  ulParameterLen :: nat

definition sizeof_oaep :: nat where "sizeof_oaep = 40"
definition sizeof_pss :: nat where "sizeof_pss = 24"

fun get_mechmap_loop :: "mechanism_map list \<Rightarrow> nat \<Rightarrow> mechanism_map option" where
  "get_mechmap_loop [] mechtype = None"
| "get_mechmap_loop (m # ms) mechtype =
     (if mechtype = cki_mech m then Some m else get_mechmap_loop ms mechtype)"

definition get_mechmap :: "tables \<Rightarrow> nat \<Rightarrow> mechanism_map option" where
  "get_mechmap tb mechtype = get_mechmap_loop (keychain_mechmap tb) mechtype"

text \<open>
  The algorithms \<^verbatim>\<open>mech_param_validate\<close> resolves.  The source writes each through an output
  pointer when that pointer is not \<^verbatim>\<open>NULL\<close>; the model returns all four and each caller keeps
  the ones it passed a pointer for.  \<open>None\<close> is the result \<^verbatim>\<open>false\<close>, which leaves the outputs
  untouched.
\<close>

record resolved =
  r_encalg :: SecKeyAlgorithm
  r_signalg :: SecKeyAlgorithm
  r_dsignalg :: SecKeyAlgorithm
  r_digest :: nat

definition deref_alg :: "SecKeyAlgorithm option \<Rightarrow> SecKeyAlgorithm" where
  "deref_alg p = (case p of None \<Rightarrow> None | Some a \<Rightarrow> a)"

text \<open>The search loops over \<^verbatim>\<open>keychain_param_map\<close>, which leave at the first matching row.\<close>

fun param_map_search :: "(param_map \<Rightarrow> bool) \<Rightarrow> param_map list \<Rightarrow> param_map option" where
  "param_map_search matches [] = None"
| "param_map_search matches (r # rs) =
     (if matches r then Some r else param_map_search matches rs)"

definition oaep_row :: "CK_MECHANISM \<Rightarrow> CK_RSA_PKCS_OAEP_PARAMS \<Rightarrow> param_map \<Rightarrow> bool" where
  "oaep_row mptr oaep r =
     (mechanism mptr = base_type r \<and> hashAlg oaep = hash_alg_pm r \<and> mgf oaep = mgf_pm r)"

definition pss_row :: "CK_MECHANISM \<Rightarrow> CK_RSA_PKCS_PSS_PARAMS \<Rightarrow> param_map \<Rightarrow> bool" where
  "pss_row mptr pss r =
     (mechanism mptr = base_type r \<and> hashAlg_pss pss = hash_alg_pm r \<and>
      mgf_pss pss = mgf_pm r \<and> sLen pss = slen r)"

definition found :: "param_map \<Rightarrow> resolved" where
  "found r = \<lparr>r_encalg = deref_alg (encalg r), r_signalg = deref_alg (signalg r),
              r_dsignalg = deref_alg (dsignalg r), r_digest = hash_alg_pm r\<rparr>"

definition mech_param_validate ::
  "tables \<Rightarrow> CK_MECHANISM \<Rightarrow> mechanism_map \<Rightarrow> resolved option" where
  "mech_param_validate tb mptr mechmap =
     (case parameters mechmap of
        NONE \<Rightarrow>
          if pParameter mptr \<noteq> None \<or> ulParameterLen mptr \<noteq> 0 then None
          else Some \<lparr>r_encalg = deref_alg (sec_encmech mechmap),
                     r_signalg = deref_alg (sec_signmech mechmap),
                     r_dsignalg = deref_alg (sec_dsignmech mechmap),
                     r_digest = sec_digest mechmap\<rparr>
      | OAEP \<Rightarrow>
          (case pParameter mptr of
             None \<Rightarrow> None
           | Some blk \<Rightarrow>
               if ulParameterLen mptr \<noteq> sizeof_oaep then None
               else let oaep = as_oaep blk
                 in if source oaep \<noteq> 0 \<and> source oaep \<noteq> CKZ_DATA_SPECIFIED then None
                    else if source oaep = CKZ_DATA_SPECIFIED \<and>
                            (pSourceData oaep \<noteq> None \<or> ulSourceDataLen oaep \<noteq> 0) then None
                    else map_option found
                           (param_map_search (oaep_row mptr oaep) (keychain_param_map tb)))
      | PSS \<Rightarrow>
          (case pParameter mptr of
             None \<Rightarrow> None
           | Some blk \<Rightarrow>
               if ulParameterLen mptr \<noteq> sizeof_pss then None
               else map_option found
                      (param_map_search (pss_row mptr (as_pss blk)) (keychain_param_map tb))))"


section \<open>Sessions\<close>

datatype s_state =
  NO_PENDING | E_INIT | E_UPDATE | D_INIT | D_UPDATE | S_INIT | S_UPDATE | V_INIT | V_UPDATE

text \<open>
  \<^verbatim>\<open>struct session\<close>, without its mutex.  \<^verbatim>\<open>token\<close> is the address of the token in the heap
  of slot entries (\<open>None\<close> for \<^verbatim>\<open>NULL\<close>).  \<^verbatim>\<open>obj_list\<close> points to the token's object array,
  which is not changed once the token is published, so the session holds the array itself.
  \<^verbatim>\<open>search_attrs\<close> with \<^verbatim>\<open>search_attrs_count\<close> is the list of copied template attributes.
\<close>

record session =
  slot_id :: nat
  token :: "nat option"
  sess_obj_list :: "obj_info list"
  obj_list_count :: nat
  obj_search_index :: nat
  search_attrs :: "CK_ATTRIBUTE list"
  state :: s_state
  key :: "SecKeyRef option"
  outsize :: nat
  alg :: SecKeyAlgorithm
  dalg :: SecKeyAlgorithm
  hash_alg :: nat
  mdc :: "md_context option"

text \<open>
  An entry point whose result is \<open>None\<close> has read or written memory it may not touch (a
  \<^verbatim>\<open>NULL\<close> pointer, or more bytes than the buffer holds) and does not return.
\<close>

definition memcpy_read :: "bytes option \<Rightarrow> nat \<Rightarrow> bytes option" where
  "memcpy_read p n =
     (case p of
        None \<Rightarrow> if n = 0 then Some [] else None
      | Some b \<Rightarrow> if n \<le> length b then Some (take n b) else None)"

definition memcpy_write :: "bytes option \<Rightarrow> bytes \<Rightarrow> bytes option" where
  "memcpy_write p v =
     (case p of
        None \<Rightarrow> if v = [] then Some [] else None
      | Some b \<Rightarrow> if length v \<le> length b then Some (v @ drop (length v) b) else None)"

definition memcmp_eq :: "bytes option \<Rightarrow> bytes option \<Rightarrow> nat \<Rightarrow> bool option" where
  "memcmp_eq p q n =
     (if n = 0 then Some True
      else case (p, q) of
             (Some x, Some y) \<Rightarrow>
               if n \<le> length x \<and> n \<le> length y then Some (take n x = take n y) else None
           | _ \<Rightarrow> None)"

text \<open>Decrementing a \<^verbatim>\<open>CK_ULONG\<close> handle: 0 wraps to the largest value.\<close>

definition dec_ulong :: "nat \<Rightarrow> nat" where
  "dec_ulong h = (if h = 0 then 2 ^ 64 - 1 else h - 1)"

subsection \<open>\<^verbatim>\<open>search_object\<close>\<close>

text \<open>
  The inner loop of \<^verbatim>\<open>search_object\<close> for one template attribute \<open>t\<close>: it decides at the first
  object attribute of the same type and length.
\<close>

fun search_attr :: "CK_ATTRIBUTE list \<Rightarrow> CK_ATTRIBUTE \<Rightarrow> bool option" where
  "search_attr [] t = Some False"
| "search_attr (a # as) t =
     (if type a = type t \<and> ulValueLen a = ulValueLen t
      then (if (pValue a = None \<or> pValue t = None) \<and> (pValue a = None) \<noteq> (pValue t = None)
            then Some False
            else memcmp_eq (pValue a) (pValue t) (ulValueLen t))
      else search_attr as t)"

fun search_object_loop :: "CK_ATTRIBUTE list \<Rightarrow> CK_ATTRIBUTE list \<Rightarrow> bool option" where
  "search_object_loop oattrs [] = Some True"
| "search_object_loop oattrs (t # ts) =
     (case search_attr oattrs t of
        None \<Rightarrow> None
      | Some False \<Rightarrow> Some False
      | Some True \<Rightarrow> search_object_loop oattrs ts)"

definition search_object :: "obj_info \<Rightarrow> CK_ATTRIBUTE list \<Rightarrow> bool option" where
  "search_object obj tmpl = search_object_loop (attrs obj) tmpl"

subsection \<open>\<^verbatim>\<open>C_FindObjectsInit\<close>, \<^verbatim>\<open>C_FindObjects\<close>, \<^verbatim>\<open>C_FindObjectsFinal\<close>\<close>

definition copy_attribute :: "CK_ATTRIBUTE \<Rightarrow> CK_ATTRIBUTE option" where
  "copy_attribute t =
     (if ulValueLen t = CK_UNAVAILABLE_INFORMATION
      then Some \<lparr>type = type t, pValue = None, ulValueLen = ulValueLen t\<rparr>
      else case memcpy_read (pValue t) (ulValueLen t) of
             None \<Rightarrow> None
           | Some v \<Rightarrow> Some \<lparr>type = type t, pValue = Some v, ulValueLen = ulValueLen t\<rparr>)"

text \<open>
  \<^verbatim>\<open>dump_attribute\<close>, called on every copied entry.  When debug messages are logged it reads
  a \<^verbatim>\<open>CK_OBJECT_CLASS\<close> (eight bytes) through the value pointer of a \<^verbatim>\<open>CKA_CLASS\<close> entry, one
  byte through that of a \<^verbatim>\<open>CKA_TOKEN\<close> entry, and hands pointer and length of a
  \<^verbatim>\<open>CKA_SUBJECT\<close> or \<^verbatim>\<open>CKA_ISSUER\<close> entry to \<^verbatim>\<open>get_common_name\<close>; of any other entry it logs the
  pointer itself.
\<close>

definition dump_attribute :: "host_env \<Rightarrow> CK_ATTRIBUTE \<Rightarrow> unit option" where
  "dump_attribute h attr =
     (if \<not> os_log_debug_enabled h then Some ()
      else if type attr = CKA_CLASS
      then (case memcpy_read (pValue attr) 8 of None \<Rightarrow> None | Some v \<Rightarrow> Some ())
      else if type attr = CKA_SUBJECT \<or> type attr = CKA_ISSUER
      then (case get_common_name h (pValue attr) (ulValueLen attr) of
              None \<Rightarrow> None
            | Some cn \<Rightarrow> Some ())
      else if type attr = CKA_TOKEN
      then (case memcpy_read (pValue attr) 1 of None \<Rightarrow> None | Some v \<Rightarrow> Some ())
      else Some ())"

text \<open>The loop of \<^verbatim>\<open>C_FindObjectsInit\<close>: each entry is copied, then dumped.\<close>

fun copy_template :: "host_env \<Rightarrow> CK_ATTRIBUTE list \<Rightarrow> CK_ATTRIBUTE list option" where
  "copy_template h [] = Some []"
| "copy_template h (t # ts) =
     (case copy_attribute t of
        None \<Rightarrow> None
      | Some c \<Rightarrow>
          (case dump_attribute h c of
             None \<Rightarrow> None
           | Some u \<Rightarrow>
               (case copy_template h ts of None \<Rightarrow> None | Some cs \<Rightarrow> Some (c # cs))))"

definition C_FindObjectsInit_body ::
  "host_env \<Rightarrow> CK_ATTRIBUTE list \<Rightarrow> session \<Rightarrow> (CK_RV \<times> session) option" where
  "C_FindObjectsInit_body h template se =
     (case copy_template h template of
        None \<Rightarrow> None
      | Some cs \<Rightarrow> Some (CKR_OK, se\<lparr>obj_search_index := 0, search_attrs := cs\<rparr>))"

text \<open>
  The loop of \<^verbatim>\<open>C_FindObjects\<close>: \<open>acc\<close> holds the handles stored so far (\<^verbatim>\<open>rc\<close> is its
  length) and the result carries the cursor the session is left with.
\<close>

function find_loop ::
  "obj_info list \<Rightarrow> nat \<Rightarrow> CK_ATTRIBUTE list \<Rightarrow> nat \<Rightarrow> nat \<Rightarrow> nat list
     \<Rightarrow> (nat list \<times> nat) option" where
  "find_loop objs cnt tmpl maxcount idx acc =
     (if idx < cnt
      then (case search_object (objs ! idx) tmpl of
              None \<Rightarrow> None
            | Some True \<Rightarrow>
                if length (acc @ [idx + 1]) \<ge> maxcount
                then Some (acc @ [idx + 1], idx + 1)
                else find_loop objs cnt tmpl maxcount (idx + 1) (acc @ [idx + 1])
            | Some False \<Rightarrow> find_loop objs cnt tmpl maxcount (idx + 1) acc)
      else Some (acc, idx))"
  by pat_completeness auto
termination
  by (relation "measure (\<lambda>(objs, cnt, tmpl, maxcount, idx, acc). cnt - idx)") auto

definition C_FindObjects_body ::
  "bool \<Rightarrow> nat \<Rightarrow> session \<Rightarrow> (CK_RV \<times> nat list \<times> session) option" where
  "C_FindObjects_body object_nonnull maxcount se =
     (if \<not> object_nonnull \<or> maxcount = 0 then Some (CKR_ARGUMENTS_BAD, [], se)
      else case find_loop (sess_obj_list se) (obj_list_count se) (search_attrs se) maxcount
                  (obj_search_index se) [] of
             None \<Rightarrow> None
           | Some (handles, idx) \<Rightarrow> Some (CKR_OK, handles, se\<lparr>obj_search_index := idx\<rparr>))"

definition C_FindObjectsFinal_body :: "session \<Rightarrow> CK_RV \<times> session" where
  "C_FindObjectsFinal_body se = (CKR_OK, se\<lparr>search_attrs := []\<rparr>)"

subsection \<open>\<^verbatim>\<open>C_GetAttributeValue\<close>\<close>

text \<open>One turn of the loop over the caller's template: the new \<^verbatim>\<open>rv\<close> and the entry as left.\<close>

definition get_attribute_step ::
  "obj_info \<Rightarrow> CK_RV \<Rightarrow> CK_ATTRIBUTE \<Rightarrow> (CK_RV \<times> CK_ATTRIBUTE) option" where
  "get_attribute_step obj rv t =
     (case find_attribute obj (type t) of
        Some attr \<Rightarrow>
          if pValue t = None then Some (rv, t\<lparr>ulValueLen := ulValueLen attr\<rparr>)
          else if ulValueLen t < ulValueLen attr
          then Some (CKR_BUFFER_TOO_SMALL, t\<lparr>ulValueLen := ulValueLen attr\<rparr>)
          else (case memcpy_read (pValue attr) (ulValueLen attr) of
                  None \<Rightarrow> None
                | Some v \<Rightarrow>
                    (case memcpy_write (pValue t) v of
                       None \<Rightarrow> None
                     | Some b \<Rightarrow> Some (rv, t\<lparr>pValue := Some b, ulValueLen := ulValueLen attr\<rparr>)))
      | None \<Rightarrow>
          Some (CKR_ATTRIBUTE_TYPE_INVALID, t\<lparr>ulValueLen := CK_UNAVAILABLE_INFORMATION\<rparr>))"

fun get_attribute_loop ::
  "obj_info \<Rightarrow> CK_RV \<Rightarrow> CK_ATTRIBUTE list \<Rightarrow> (CK_RV \<times> CK_ATTRIBUTE list) option" where
  "get_attribute_loop obj rv [] = Some (rv, [])"
| "get_attribute_loop obj rv (t # ts) =
     (case get_attribute_step obj rv t of
        None \<Rightarrow> None
      | Some (rv1, t1) \<Rightarrow>
          (case get_attribute_loop obj rv1 ts of
             None \<Rightarrow> None
           | Some (rv2, ts1) \<Rightarrow> Some (rv2, t1 # ts1)))"

definition C_GetAttributeValue_body ::
  "nat \<Rightarrow> CK_ATTRIBUTE list \<Rightarrow> session \<Rightarrow> (CK_RV \<times> CK_ATTRIBUTE list) option" where
  "C_GetAttributeValue_body object template se =
     (if dec_ulong object \<ge> obj_list_count se then Some (CKR_OBJECT_HANDLE_INVALID, template)
      else get_attribute_loop (sess_obj_list se ! dec_ulong object) CKR_OK template)"


subsection \<open>Encryption and decryption\<close>

text \<open>
  The \<^verbatim>\<open>*Init\<close> entry points share their last steps once the key object and the mechanism
  are accepted.  \<^verbatim>\<open>C_EncryptInit\<close> and \<^verbatim>\<open>C_DecryptInit\<close> take a mechanism pointer that may be
  \<^verbatim>\<open>NULL\<close>; \<^verbatim>\<open>C_SignInit\<close> and \<^verbatim>\<open>C_VerifyInit\<close> read \<^verbatim>\<open>mech->mechanism\<close> in their first
  statement, so their mechanism is not optional.
\<close>

definition op_outsize :: "host_env \<Rightarrow> mechanism_map \<Rightarrow> SecKeyRef \<Rightarrow> nat" where
  "op_outsize h mm k = (if blocksize_out mm then SecKeyGetBlockSize h k else 0)"

definition C_EncryptInit_body ::
  "host_env \<Rightarrow> tables \<Rightarrow> CK_MECHANISM option \<Rightarrow> nat \<Rightarrow> session \<Rightarrow> CK_RV \<times> session" where
  "C_EncryptInit_body h tb mech object se =
     (case mech of
        None \<Rightarrow> (CKR_MECHANISM_INVALID, se)
      | Some m \<Rightarrow>
          let obj = dec_ulong object in
          if obj \<ge> obj_list_count se then (CKR_KEY_HANDLE_INVALID, se)
          else if state se \<noteq> NO_PENDING then (CKR_OPERATION_ACTIVE, se)
          else if obj_class (sess_obj_list se ! obj) \<noteq> CKO_PUBLIC_KEY
          then (CKR_KEY_TYPE_INCONSISTENT, se)
          else (case obj_id (sess_obj_list se ! obj) of
                  None \<Rightarrow> (CKR_ARGUMENTS_BAD, se)
                | Some idp \<Rightarrow>
                    (case get_mechmap tb (mechanism m) of
                       None \<Rightarrow> (CKR_MECHANISM_INVALID, se)
                     | Some mm \<Rightarrow>
                         if usage_flags mm AND CKF_ENCRYPT = 0 then (CKR_MECHANISM_INVALID, se)
                         else (case mech_param_validate tb m mm of
                                 None \<Rightarrow> (CKR_MECHANISM_PARAM_INVALID, se)
                               | Some r \<Rightarrow>
                                   (CKR_OK,
                                    se\<lparr>alg := r_encalg r, key := Some (pubkey idp),
                                       outsize := op_outsize h mm (pubkey idp),
                                       state := E_INIT\<rparr>)))))"

text \<open>
  The single-shot calls take the caller's output buffer as the flag \<open>outdata\<close> (the pointer is
  not \<^verbatim>\<open>NULL\<close>) and the capacity \<open>outdatalen\<close> it announces.  They give back the code, the
  bytes copied into the buffer if any, the length written back and the session.
\<close>

definition clear_op :: "session \<Rightarrow> session" where
  "clear_op se = se\<lparr>key := None, outsize := 0, state := NO_PENDING\<rparr>"

definition C_Encrypt_body ::
  "host_env \<Rightarrow> bytes \<Rightarrow> bool \<Rightarrow> nat \<Rightarrow> session \<Rightarrow> CK_RV \<times> bytes option \<times> nat \<times> session" where
  "C_Encrypt_body h indata outdata outdatalen se =
     (if state se \<noteq> E_INIT then (CKR_OPERATION_NOT_INITIALIZED, None, outdatalen, se)
      else if \<not> outdata
      then (if outsize se = 0 then (CKR_BUFFER_TOO_SMALL, None, outdatalen, se)
            else (CKR_OK, None, outsize se, se))
      else if outsize se \<noteq> 0 \<and> outsize se > outdatalen
      then (CKR_BUFFER_TOO_SMALL, None, outsize se, se)
      else (case SecKeyCreateEncryptedData h (key se) (alg se) indata of
              None \<Rightarrow> (CKR_GENERAL_ERROR, None, outdatalen, clear_op se)
            | Some outref \<Rightarrow>
                if outdatalen < length outref
                then (CKR_BUFFER_TOO_SMALL, None, length outref, se)
                else (CKR_OK, Some outref, length outref, clear_op se)))"

definition C_DecryptInit_body ::
  "host_env \<Rightarrow> tables \<Rightarrow> CK_MECHANISM option \<Rightarrow> nat \<Rightarrow> session \<Rightarrow> CK_RV \<times> session" where
  "C_DecryptInit_body h tb mech k se =
     (case mech of
        None \<Rightarrow> (CKR_MECHANISM_INVALID, se)
      | Some m \<Rightarrow>
          let obj = dec_ulong k in
          if obj \<ge> obj_list_count se then (CKR_KEY_HANDLE_INVALID, se)
          else if state se \<noteq> NO_PENDING then (CKR_OPERATION_ACTIVE, se)
          else if obj_class (sess_obj_list se ! obj) \<noteq> CKO_PRIVATE_KEY
          then (CKR_KEY_TYPE_INCONSISTENT, se)
          else (case obj_id (sess_obj_list se ! obj) of
                  None \<Rightarrow> (CKR_ARGUMENTS_BAD, se)
                | Some idp \<Rightarrow>
                    if \<not> privcandecrypt idp then (CKR_KEY_FUNCTION_NOT_PERMITTED, se)
                    else (case get_mechmap tb (mechanism m) of
                       None \<Rightarrow> (CKR_MECHANISM_INVALID, se)
                     | Some mm \<Rightarrow>
                         if usage_flags mm AND CKF_DECRYPT = 0 then (CKR_MECHANISM_INVALID, se)
                         else (case mech_param_validate tb m mm of
                                 None \<Rightarrow> (CKR_MECHANISM_PARAM_INVALID, se)
                               | Some r \<Rightarrow>
                                   (CKR_OK,
                                    se\<lparr>alg := r_encalg r, key := Some (privkey idp),
                                       outsize := op_outsize h mm (privkey idp),
                                       state := D_INIT\<rparr>)))))"

definition C_Decrypt_body ::
  "host_env \<Rightarrow> bytes \<Rightarrow> bool \<Rightarrow> nat \<Rightarrow> session \<Rightarrow> CK_RV \<times> bytes option \<times> nat \<times> session" where
  "C_Decrypt_body h indata outdata outdatalen se =
     (if state se \<noteq> D_INIT then (CKR_OPERATION_NOT_INITIALIZED, None, outdatalen, se)
      else if \<not> outdata
      then (if outsize se = 0 then (CKR_BUFFER_TOO_SMALL, None, outdatalen, se)
            else (CKR_OK, None, outsize se, se))
      else if outsize se \<noteq> 0 \<and> outsize se > outdatalen
      then (CKR_BUFFER_TOO_SMALL, None, outsize se, se)
      else (case SecKeyCreateDecryptedData h (key se) (alg se) indata of
              None \<Rightarrow> (CKR_GENERAL_ERROR, None, outdatalen, clear_op se)
            | Some outref \<Rightarrow>
                if outdatalen < length outref
                then (CKR_BUFFER_TOO_SMALL, None, length outref, se)
                else (CKR_OK, Some outref, length outref, clear_op se)))"

subsection \<open>Signing\<close>

definition C_SignInit_body ::
  "host_env \<Rightarrow> tables \<Rightarrow> CK_MECHANISM \<Rightarrow> nat \<Rightarrow> session \<Rightarrow> CK_RV \<times> session" where
  "C_SignInit_body h tb m object se =
     (if state se \<noteq> NO_PENDING then (CKR_OPERATION_ACTIVE, se)
      else let obj = dec_ulong object in
        if obj \<ge> obj_list_count se then (CKR_KEY_HANDLE_INVALID, se)
        else (case obj_id (sess_obj_list se ! obj) of
                None \<Rightarrow> (CKR_ARGUMENTS_BAD, se)
              | Some idp \<Rightarrow>
                  if \<not> privcansign idp then (CKR_KEY_FUNCTION_NOT_PERMITTED, se)
                  else if obj_class (sess_obj_list se ! obj) \<noteq> CKO_PRIVATE_KEY
                  then (CKR_KEY_TYPE_INCONSISTENT, se)
                  else (case get_mechmap tb (mechanism m) of
                          None \<Rightarrow> (CKR_MECHANISM_INVALID, se)
                        | Some mm \<Rightarrow>
                            if usage_flags mm AND CKF_SIGN = 0 then (CKR_MECHANISM_INVALID, se)
                            else (case mech_param_validate tb m mm of
                                    None \<Rightarrow> (CKR_MECHANISM_PARAM_INVALID, se)
                                  | Some r \<Rightarrow>
                                      (CKR_OK,
                                       se\<lparr>alg := r_signalg r, dalg := r_dsignalg r,
                                          hash_alg := r_digest r, key := Some (privkey idp),
                                          outsize := op_outsize h mm (privkey idp),
                                          state := S_INIT\<rparr>)))))"

definition C_Sign_body ::
  "host_env \<Rightarrow> bytes \<Rightarrow> bool \<Rightarrow> nat \<Rightarrow> session \<Rightarrow> CK_RV \<times> bytes option \<times> nat \<times> session" where
  "C_Sign_body h indata sig siglen se =
     (if state se \<noteq> S_INIT then (CKR_OPERATION_NOT_INITIALIZED, None, siglen, se)
      else if \<not> sig
      then (if outsize se = 0 then (CKR_BUFFER_TOO_SMALL, None, siglen, se)
            else (CKR_OK, None, outsize se, se))
      else if outsize se \<noteq> 0 \<and> outsize se > siglen
      then (CKR_BUFFER_TOO_SMALL, None, outsize se, se)
      else (case SecKeyCreateSignature h (key se) (alg se) indata of
              None \<Rightarrow> (CKR_GENERAL_ERROR, None, siglen, clear_op se)
            | Some outref \<Rightarrow>
                if siglen < length outref
                then (CKR_BUFFER_TOO_SMALL, None, length outref, se)
                else (CKR_OK, Some outref, length outref, clear_op se)))"

text \<open>
  The digest context: \<^verbatim>\<open>cc_md_init\<close> may fail; \<^verbatim>\<open>cc_md_update\<close> appends the data to what the
  context has been fed; \<^verbatim>\<open>cc_md_final\<close> is the host's digest of the context it is given.
\<close>

definition cc_md_update :: "md_context option \<Rightarrow> bytes \<Rightarrow> md_context option" where
  "cc_md_update c indata = map_option (\<lambda>m. m\<lparr>md_data := md_data m @ indata\<rparr>) c"

definition C_SignUpdate_body :: "host_env \<Rightarrow> bytes \<Rightarrow> session \<Rightarrow> CK_RV \<times> session" where
  "C_SignUpdate_body h indata se =
     (if state se \<noteq> S_INIT \<and> state se \<noteq> S_UPDATE then (CKR_OPERATION_NOT_INITIALIZED, se)
      else if dalg se = None then (CKR_DATA_LEN_RANGE, se)
      else if state se = S_INIT \<and> \<not> cc_md_init h (hash_alg se)
      then (CKR_GENERAL_ERROR, se\<lparr>state := NO_PENDING\<rparr>)
      else let se1 = (if state se = S_INIT
                      then se\<lparr>mdc := Some \<lparr>md_alg = hash_alg se, md_data = []\<rparr>,
                              state := S_UPDATE\<rparr>
                      else se)
           in (CKR_OK, se1\<lparr>mdc := cc_md_update (mdc se1) indata\<rparr>))"

definition sign_outfinish :: "session \<Rightarrow> session" where
  "sign_outfinish se = se\<lparr>key := None, dalg := None, alg := None, outsize := 0, state := NO_PENDING\<rparr>"

definition C_SignFinal_body ::
  "host_env \<Rightarrow> bool \<Rightarrow> nat \<Rightarrow> session \<Rightarrow> CK_RV \<times> bytes option \<times> nat \<times> session" where
  "C_SignFinal_body h sig siglen se =
     (if state se \<noteq> S_UPDATE then (CKR_OPERATION_NOT_INITIALIZED, None, siglen, se)
      else if \<not> sig
      then (if outsize se = 0 then (CKR_BUFFER_TOO_SMALL, None, siglen, se)
            else (CKR_OK, None, outsize se, se))
      else if outsize se \<noteq> 0 \<and> outsize se > siglen
      then (CKR_BUFFER_TOO_SMALL, None, outsize se, se)
      else let digest = cc_md_final h (mdc se); se1 = se\<lparr>mdc := None\<rparr>
        in if \<not> CFDataCreateWithBytesNoCopy h digest
           then (CKR_OK, None, siglen, sign_outfinish se1)
           else (case SecKeyCreateSignature h (key se1) (dalg se1) digest of
                   None \<Rightarrow> (CKR_FUNCTION_FAILED, None, siglen, sign_outfinish se1)
                 | Some sigout \<Rightarrow>
                     if siglen < length sigout then (CKR_FUNCTION_FAILED, None, siglen, se1)
                     else (CKR_OK, Some sigout, length sigout, sign_outfinish se1)))"


subsection \<open>Verification\<close>

definition C_VerifyInit_body ::
  "host_env \<Rightarrow> tables \<Rightarrow> CK_MECHANISM \<Rightarrow> nat \<Rightarrow> session \<Rightarrow> CK_RV \<times> session" where
  "C_VerifyInit_body h tb m k se =
     (if state se \<noteq> NO_PENDING then (CKR_OPERATION_ACTIVE, se)
      else let obj = dec_ulong k in
        if obj \<ge> obj_list_count se then (CKR_KEY_HANDLE_INVALID, se)
        else (case obj_id (sess_obj_list se ! obj) of
                None \<Rightarrow> (CKR_ARGUMENTS_BAD, se)
              | Some idp \<Rightarrow>
                  if \<not> pubcanverify idp then (CKR_KEY_FUNCTION_NOT_PERMITTED, se)
                  else if obj_class (sess_obj_list se ! obj) \<noteq> CKO_PUBLIC_KEY
                  then (CKR_KEY_TYPE_INCONSISTENT, se)
                  else (case get_mechmap tb (mechanism m) of
                          None \<Rightarrow> (CKR_MECHANISM_INVALID, se)
                        | Some mm \<Rightarrow>
                            if usage_flags mm AND CKF_VERIFY = 0 then (CKR_MECHANISM_INVALID, se)
                            else (case mech_param_validate tb m mm of
                                    None \<Rightarrow> (CKR_MECHANISM_PARAM_INVALID, se)
                                  | Some r \<Rightarrow>
                                      (CKR_OK,
                                       se\<lparr>alg := r_signalg r, dalg := r_dsignalg r,
                                          hash_alg := r_digest r, key := Some (pubkey idp),
                                          outsize := op_outsize h mm (pubkey idp),
                                          state := V_INIT\<rparr>)))))"

definition C_Verify_body :: "host_env \<Rightarrow> bytes \<Rightarrow> bytes \<Rightarrow> session \<Rightarrow> CK_RV \<times> session" where
  "C_Verify_body h indata sig se =
     (if state se \<noteq> V_INIT then (CKR_OPERATION_NOT_INITIALIZED, se)
      else ((if SecKeyVerifySignature h (key se) (alg se) indata sig
             then CKR_OK else CKR_SIGNATURE_INVALID),
            se\<lparr>key := None, state := NO_PENDING\<rparr>))"

definition C_VerifyUpdate_body :: "host_env \<Rightarrow> bytes \<Rightarrow> session \<Rightarrow> CK_RV \<times> session" where
  "C_VerifyUpdate_body h indata se =
     (if state se \<noteq> V_INIT \<and> state se \<noteq> V_UPDATE then (CKR_OPERATION_NOT_INITIALIZED, se)
      else if dalg se = None then (CKR_DATA_LEN_RANGE, se)
      else if state se = V_INIT \<and> \<not> cc_md_init h (hash_alg se)
      then (CKR_GENERAL_ERROR, se\<lparr>state := NO_PENDING\<rparr>)
      else let se1 = (if state se = V_INIT
                      then se\<lparr>mdc := Some \<lparr>md_alg = hash_alg se, md_data = []\<rparr>,
                              state := V_UPDATE\<rparr>
                      else se)
           in (CKR_OK, se1\<lparr>mdc := cc_md_update (mdc se1) indata\<rparr>))"

text \<open>
  \<^verbatim>\<open>C_VerifyFinal\<close> finalises the digest and verifies; the function has no assignment to
  \<^verbatim>\<open>se->state\<close> and none to \<^verbatim>\<open>se->key\<close>.
\<close>

definition C_VerifyFinal_body :: "host_env \<Rightarrow> bytes \<Rightarrow> session \<Rightarrow> CK_RV \<times> session" where
  "C_VerifyFinal_body h sig se =
     (if state se \<noteq> V_UPDATE then (CKR_OPERATION_NOT_INITIALIZED, se)
      else let digest = cc_md_final h (mdc se); se1 = se\<lparr>mdc := None\<rparr>
        in ((if SecKeyVerifySignature h (key se1) (dalg se1) digest sig
             then CKR_OK else CKR_SIGNATURE_INVALID),
            se1))"

subsection \<open>The calls on one session\<close>

text \<open>
  Every entry point above works on the session its handle names.  \<open>session_call\<close> lists them
  with their arguments, and \<open>session_exec\<close> gives the code and the session each leaves.
\<close>

datatype session_call =
    FindObjectsInit "CK_ATTRIBUTE list"
  | FindObjects bool nat
  | FindObjectsFinal
  | GetAttributeValue nat "CK_ATTRIBUTE list"
  | EncryptInit "CK_MECHANISM option" nat
  | Encrypt bytes bool nat
  | DecryptInit "CK_MECHANISM option" nat
  | Decrypt bytes bool nat
  | SignInit CK_MECHANISM nat
  | Sign bytes bool nat
  | SignUpdate bytes
  | SignFinal bool nat
  | VerifyInit CK_MECHANISM nat
  | Verify bytes bytes
  | VerifyUpdate bytes
  | VerifyFinal bytes

fun session_exec ::
  "host_env \<Rightarrow> tables \<Rightarrow> session_call \<Rightarrow> session \<Rightarrow> (CK_RV \<times> session) option" where
  "session_exec h tb (FindObjectsInit template) se = C_FindObjectsInit_body h template se"
| "session_exec h tb (FindObjects object maxcount) se =
     map_option (\<lambda>(rv, handles, se1). (rv, se1)) (C_FindObjects_body object maxcount se)"
| "session_exec h tb FindObjectsFinal se = Some (C_FindObjectsFinal_body se)"
| "session_exec h tb (GetAttributeValue object template) se =
     map_option (\<lambda>(rv, template1). (rv, se)) (C_GetAttributeValue_body object template se)"
| "session_exec h tb (EncryptInit mech object) se = Some (C_EncryptInit_body h tb mech object se)"
| "session_exec h tb (Encrypt indata outdata outdatalen) se =
     (case C_Encrypt_body h indata outdata outdatalen se of (rv, out, n, se1) \<Rightarrow> Some (rv, se1))"
| "session_exec h tb (DecryptInit mech k) se = Some (C_DecryptInit_body h tb mech k se)"
| "session_exec h tb (Decrypt indata outdata outdatalen) se =
     (case C_Decrypt_body h indata outdata outdatalen se of (rv, out, n, se1) \<Rightarrow> Some (rv, se1))"
| "session_exec h tb (SignInit mech object) se = Some (C_SignInit_body h tb mech object se)"
| "session_exec h tb (Sign indata sig siglen) se =
     (case C_Sign_body h indata sig siglen se of (rv, out, n, se1) \<Rightarrow> Some (rv, se1))"
| "session_exec h tb (SignUpdate indata) se = Some (C_SignUpdate_body h indata se)"
| "session_exec h tb (SignFinal sig siglen) se =
     (case C_SignFinal_body h sig siglen se of (rv, out, n, se1) \<Rightarrow> Some (rv, se1))"
| "session_exec h tb (VerifyInit mech k) se = Some (C_VerifyInit_body h tb mech k se)"
| "session_exec h tb (Verify indata sig) se = Some (C_Verify_body h indata sig se)"
| "session_exec h tb (VerifyUpdate indata) se = Some (C_VerifyUpdate_body h indata se)"
| "session_exec h tb (VerifyFinal sig) se = Some (C_VerifyFinal_body h sig se)"


section \<open>The library state\<close>

text \<open>
  The globals of the source.  Tokens live in a heap: \<open>heap\<close> gives the content of the
  \<^verbatim>\<open>struct slot_entry\<close> at an address and \<open>allocated\<close> is the set of addresses that
  \<^verbatim>\<open>malloc\<close> has handed out and \<^verbatim>\<open>free\<close> has not taken back.  Slots and sessions hold
  addresses.  \<^verbatim>\<open>slot_count\<close> and \<^verbatim>\<open>sess_list_size\<close> are the lengths of \<open>slot_list\<close> and
  \<open>sess_list\<close>.  The model runs one call at a time; the mutexes are left out.
\<close>

datatype certstate = uninitialized | initializing | initialized

record global =
  module_initialized :: bool
  slot_list :: "nat option list"
  heap :: "nat \<Rightarrow> slot_entry"
  allocated :: "nat set"
  sess_list :: "session option list"
  sess_list_count :: nat
  cert_list_status :: certstate
  cert_slot_enabled :: bool
  cert_obj_list :: "obj_info list"
  cert_obj_count :: nat

definition CHECKSLOT :: "nat \<Rightarrow> bool \<Rightarrow> global \<Rightarrow> CK_RV option" where
  "CHECKSLOT slot present g =
     (if slot \<noteq> CERTIFICATE_SLOT \<and> slot \<ge> length (slot_list g) then Some CKR_SLOT_ID_INVALID
      else if slot = CERTIFICATE_SLOT \<and> \<not> cert_slot_enabled g then Some CKR_SLOT_ID_INVALID
      else if present
      then (if slot = CERTIFICATE_SLOT
            then (if cert_list_status g \<noteq> initialized then Some CKR_TOKEN_NOT_PRESENT else None)
            else (if slot_list g ! slot = None then Some CKR_TOKEN_NOT_PRESENT else None))
      else None)"

definition CHECKSESSION :: "nat \<Rightarrow> global \<Rightarrow> (nat \<times> session) option" where
  "CHECKSESSION session g =
     (let i = dec_ulong session
      in if i \<ge> sess_list_count g then None
         else case sess_list g ! i of None \<Rightarrow> None | Some se \<Rightarrow> Some (i, se))"

subsection \<open>Reference counting\<close>

definition token_logout :: "slot_entry \<Rightarrow> slot_entry" where
  "token_logout t = t\<lparr>lacontext := None, logged_in := False\<rparr>"

text \<open>
  \<^verbatim>\<open>slot_entry_free\<close>: the count is decremented first; a result above zero keeps the entry
  (and logs out at exactly one), a result of zero frees it.  The source does not read its
  \<^verbatim>\<open>logout\<close> argument.
\<close>

definition slot_entry_free :: "nat \<Rightarrow> bool \<Rightarrow> global \<Rightarrow> global" where
  "slot_entry_free a logout g =
     (let t = (heap g a)\<lparr>refcount := refcount (heap g a) - 1\<rparr>
      in if refcount t > 0
         then g\<lparr>heap := (heap g)(a := (if refcount t = 1 then token_logout t else t))\<rparr>
         else g\<lparr>heap := (heap g)(a := t), allocated := allocated g - {a}\<rparr>)"

definition sess_free :: "session \<Rightarrow> global \<Rightarrow> global" where
  "sess_free se g = (case token se of None \<Rightarrow> g | Some a \<Rightarrow> slot_entry_free a True g)"

subsection \<open>Opening and closing sessions\<close>

fun first_free :: "'a option list \<Rightarrow> nat \<Rightarrow> nat option" where
  "first_free [] i = None"
| "first_free (x # xs) i = (if x = None then Some i else first_free xs (Suc i))"

text \<open>
  The session \<^verbatim>\<open>C_OpenSession\<close> stores: \<open>fresh\<close> is the content of the block \<^verbatim>\<open>malloc\<close>
  returned, of which the function assigns the fields below and no others.
\<close>

definition open_fields :: "session \<Rightarrow> nat \<Rightarrow> nat option \<Rightarrow> obj_info list \<Rightarrow> nat \<Rightarrow> session" where
  "open_fields fresh slot tok objs cnt =
     fresh\<lparr>sess_obj_list := objs, obj_list_count := cnt, token := tok, slot_id := slot,
           search_attrs := [], state := NO_PENDING, key := None, mdc := None\<rparr>"

text \<open>
  Storing the session: the first \<^verbatim>\<open>NULL\<close> cell if there is one, else the array grows by five
  cells (\<open>junk\<close> is what \<^verbatim>\<open>realloc\<close> leaves in them), the cells above \<^verbatim>\<open>sess_list_count\<close> are
  cleared and the session goes to cell \<^verbatim>\<open>sess_list_count\<close>.
\<close>

definition store_session ::
  "(nat \<Rightarrow> session option) \<Rightarrow> session \<Rightarrow> global \<Rightarrow> nat \<times> global" where
  "store_session junk sess g =
     (case first_free (sess_list g) 0 of
        Some i \<Rightarrow>
          (i + 1,
           g\<lparr>sess_list := (sess_list g)[i := Some sess],
             sess_list_count := (if i \<ge> sess_list_count g then i + 1 else sess_list_count g)\<rparr>)
      | None \<Rightarrow>
          let n = length (sess_list g) + 5;
              xs1 = realloc_cells junk (sess_list g) n;
              xs2 = fold (\<lambda>i xs. xs[i := None]) [sess_list_count g + 1..<n] xs1;
              xs3 = xs2[sess_list_count g := Some sess]
          in (sess_list_count g + 1,
              g\<lparr>sess_list := xs3, sess_list_count := sess_list_count g + 1\<rparr>))"

definition C_OpenSession ::
  "session \<Rightarrow> (nat \<Rightarrow> session option) \<Rightarrow> nat \<Rightarrow> 64 word \<Rightarrow> global
     \<Rightarrow> CK_RV \<times> nat option \<times> global" where
  "C_OpenSession fresh junk slot flags g =
     (if \<not> module_initialized g then (CKR_CRYPTOKI_NOT_INITIALIZED, None, g)
      else case CHECKSLOT slot True g of
        Some rv \<Rightarrow> (rv, None, g)
      | None \<Rightarrow>
          if flags AND CKF_SERIAL_SESSION = 0 then (CKR_SESSION_PARALLEL_NOT_SUPPORTED, None, g)
          else if slot = CERTIFICATE_SLOT
          then (let sess = (if cert_list_status g = initialized
                            then open_fields fresh slot None (cert_obj_list g) (cert_obj_count g)
                            else open_fields fresh slot None [] 0);
                    (hdl, g1) = store_session junk sess g
                in (CKR_OK, Some hdl, g1))
          else (case slot_list g ! slot of
                  None \<Rightarrow> (CKR_TOKEN_NOT_PRESENT, None, g)
                | Some a \<Rightarrow>
                    let t = heap g a;
                        sess = open_fields fresh slot (Some a) (obj_list t) (obj_count t);
                        g1 = g\<lparr>heap := (heap g)(a := t\<lparr>refcount := refcount t + 1\<rparr>)\<rparr>;
                        (hdl, g2) = store_session junk sess g1
                    in (CKR_OK, Some hdl, g2)))"

definition C_CloseSession :: "nat \<Rightarrow> global \<Rightarrow> CK_RV \<times> global" where
  "C_CloseSession session g =
     (if \<not> module_initialized g then (CKR_CRYPTOKI_NOT_INITIALIZED, g)
      else case CHECKSESSION session g of
        None \<Rightarrow> (CKR_SESSION_HANDLE_INVALID, g)
      | Some (i, se) \<Rightarrow>
          let g1 = sess_free se g
          in (CKR_OK, g1\<lparr>sess_list := (sess_list g1)[i := None]\<rparr>))"

definition close_cell :: "nat \<Rightarrow> global \<Rightarrow> nat \<Rightarrow> global" where
  "close_cell slot g i =
     (case sess_list g ! i of
        None \<Rightarrow> g
      | Some se \<Rightarrow>
          if slot_id se = slot
          then (let g1 = sess_free se g in g1\<lparr>sess_list := (sess_list g1)[i := None]\<rparr>)
          else g)"

definition C_CloseAllSessions :: "nat \<Rightarrow> global \<Rightarrow> CK_RV \<times> global" where
  "C_CloseAllSessions slot g =
     (if \<not> module_initialized g then (CKR_CRYPTOKI_NOT_INITIALIZED, g)
      else case CHECKSLOT slot True g of
        Some rv \<Rightarrow> (rv, g)
      | None \<Rightarrow> (CKR_OK, foldl (close_cell slot) g [0..<sess_list_count g]))"

text \<open>A call on one session, as an entry point of the library.\<close>

definition C_session_call ::
  "host_env \<Rightarrow> tables \<Rightarrow> nat \<Rightarrow> session_call \<Rightarrow> global \<Rightarrow> (CK_RV \<times> global) option" where
  "C_session_call h tb session c g =
     (if \<not> module_initialized g then Some (CKR_CRYPTOKI_NOT_INITIALIZED, g)
      else case CHECKSESSION session g of
        None \<Rightarrow> Some (CKR_SESSION_HANDLE_INVALID, g)
      | Some (i, se) \<Rightarrow>
          map_option (\<lambda>(rv, se1). (rv, g\<lparr>sess_list := (sess_list g)[i := Some se1]\<rparr>))
            (session_exec h tb c se))"


subsection \<open>Login, logout and session information\<close>

text \<open>
  The loop of \<^verbatim>\<open>C_Login\<close> over the identities of the token.  Besides the code it gives the
  calls made to \<^verbatim>\<open>lacontext_auth\<close>, each by its access-control reference and usage.
\<close>

fun login_loop ::
  "host_env \<Rightarrow> nat \<Rightarrow> bytes \<Rightarrow> id_info list \<Rightarrow> CK_RV \<times> (nat \<times> la_keyusage) list" where
  "login_loop h la pin [] = (CKR_OK, [])"
| "login_loop h la pin (idp # ids) =
     (let usage = (if privcansign idp then USAGE_SIGN else USAGE_DECRYPT);
          rv = lacontext_auth h la pin (secaccess idp) usage
      in if rv \<noteq> CKR_OK then (rv, [(secaccess idp, usage)])
         else (case login_loop h la pin ids of
                 (rv1, calls) \<Rightarrow> (rv1, (secaccess idp, usage) # calls)))"

definition C_Login ::
  "host_env \<Rightarrow> nat \<Rightarrow> bytes option \<Rightarrow> global
     \<Rightarrow> CK_RV \<times> (nat \<times> la_keyusage) list \<times> global" where
  "C_Login h session pin g =
     (if \<not> module_initialized g then (CKR_CRYPTOKI_NOT_INITIALIZED, [], g)
      else case CHECKSESSION session g of
        None \<Rightarrow> (CKR_SESSION_HANDLE_INVALID, [], g)
      | Some (i, se) \<Rightarrow>
          (case token se of
             None \<Rightarrow> (CKR_OK, [], g)
           | Some a \<Rightarrow>
               let t = heap g a;
                   g_in = g\<lparr>heap := (heap g)(a := t\<lparr>logged_in := True\<rparr>)\<rparr>
               in (case pin of
                     Some p \<Rightarrow>
                       (case lacontext t of
                          None \<Rightarrow> (CKR_OK, [], g)
                        | Some la \<Rightarrow>
                            (case login_loop h la p (id_list t) of
                               (rv, calls) \<Rightarrow>
                                 if rv \<noteq> CKR_OK then (rv, calls, g) else (CKR_OK, calls, g_in)))
                   | None \<Rightarrow> (CKR_OK, [], g_in))))"

definition C_Logout :: "nat \<Rightarrow> global \<Rightarrow> CK_RV \<times> global" where
  "C_Logout session g =
     (if \<not> module_initialized g then (CKR_CRYPTOKI_NOT_INITIALIZED, g)
      else case CHECKSESSION session g of
        None \<Rightarrow> (CKR_SESSION_HANDLE_INVALID, g)
      | Some (i, se) \<Rightarrow>
          (case token se of
             None \<Rightarrow> (CKR_OK, g)
           | Some a \<Rightarrow> (CKR_OK, g\<lparr>heap := (heap g)(a := token_logout (heap g a))\<rparr>)))"

record CK_SESSION_INFO =
  slotID :: nat
  info_state :: session_state_info
  info_flags :: "64 word"
  ulDeviceError :: nat

definition C_GetSessionInfo :: "nat \<Rightarrow> bool \<Rightarrow> global \<Rightarrow> CK_RV \<times> CK_SESSION_INFO option" where
  "C_GetSessionInfo session session_info g =
     (if \<not> module_initialized g then (CKR_CRYPTOKI_NOT_INITIALIZED, None)
      else case CHECKSESSION session g of
        None \<Rightarrow> (CKR_SESSION_HANDLE_INVALID, None)
      | Some (i, se) \<Rightarrow>
          if \<not> session_info then (CKR_ARGUMENTS_BAD, None)
          else (CKR_OK,
                Some \<lparr>slotID = slot_id se,
                      info_state =
                        (case token se of
                           None \<Rightarrow> CKS_RO_PUBLIC_SESSION
                         | Some a \<Rightarrow> if logged_in (heap g a) then CKS_RO_USER_FUNCTIONS
                                     else CKS_RO_PUBLIC_SESSION),
                      info_flags = CKF_SERIAL_SESSION, ulDeviceError = 0\<rparr>))"

subsection \<open>Token insertion and removal\<close>

text \<open>
  \<^verbatim>\<open>add_token_id\<close>.  \<open>query\<close> is what the identity loader produced: \<open>None\<close> when
  \<^verbatim>\<open>SecItemCopyMatching\<close> failed, else the identities \<^verbatim>\<open>add_identity\<close> added, in order.
  \<open>a\<close> is the address \<^verbatim>\<open>malloc\<close> returns for the token and \<open>la\<close> the result of
  \<^verbatim>\<open>lacontext_new\<close>.  \<open>junk_obj\<close> and \<open>junk_slot\<close> are the contents of cells fresh from
  \<^verbatim>\<open>realloc\<close>.
\<close>

definition add_token_id ::
  "host_env \<Rightarrow> (nat \<Rightarrow> obj_info) \<Rightarrow> (nat \<Rightarrow> nat option) \<Rightarrow> nat \<Rightarrow> string \<Rightarrow> nat option
     \<Rightarrow> id_info list option \<Rightarrow> global \<Rightarrow> global" where
  "add_token_id h junk_obj junk_slot a tid la query g =
     (case query of
        None \<Rightarrow> g
      | Some ids \<Rightarrow>
          let t = (new_token tid la)\<lparr>id_list := ids\<rparr>;
              g1 = g\<lparr>heap := (heap g)(a := t), allocated := insert a (allocated g)\<rparr>
          in if length (id_list t) = 0 then slot_entry_free a False g1
             else let t1 = build_id_objects h junk_obj t;
                      (i, sl) = (case first_free (slot_list g1) 0 of
                                   Some i \<Rightarrow> (i, slot_list g1)
                                 | None \<Rightarrow>
                                     (length (slot_list g1),
                                      realloc_cells junk_slot (slot_list g1)
                                        (length (slot_list g1) + 1)));
                      t2 = t1\<lparr>token_label := Some (label (id_list t1 ! 0))\<rparr>
                  in g1\<lparr>heap := (heap g1)(a := t2), slot_list := sl[i := Some a]\<rparr>)"

fun find_token :: "(nat \<Rightarrow> slot_entry) \<Rightarrow> string \<Rightarrow> nat option list \<Rightarrow> nat \<Rightarrow> (nat \<times> nat) option" where
  "find_token hp tid [] i = None"
| "find_token hp tid (p # ps) i =
     (case p of
        None \<Rightarrow> find_token hp tid ps (Suc i)
      | Some a \<Rightarrow> if tid = tokenid (hp a) then Some (i, a) else find_token hp tid ps (Suc i))"

definition remove_token_id :: "string \<Rightarrow> global \<Rightarrow> global" where
  "remove_token_id tid g =
     (case find_token (heap g) tid (slot_list g) 0 of
        None \<Rightarrow> g
      | Some (i, a) \<Rightarrow>
          let g1 = slot_entry_free a False g
          in g1\<lparr>slot_list := (slot_list g1)[i := None]\<rparr>)"

subsection \<open>Initialisation and shutdown\<close>

text \<open>
  \<^verbatim>\<open>C_Initialize\<close>: \<open>pReserved\<close> says that the argument block is present with its reserved
  pointer set, and \<open>cert_pref\<close> that the \<^verbatim>\<open>keychainCertSlot\<close> preference names the program.
  The certificate scan it may start ends in \<open>background_cert_scan\<close>, which publishes the
  objects \<^verbatim>\<open>build_cert_objects\<close> made.
\<close>

definition C_Initialize :: "bool \<Rightarrow> bool \<Rightarrow> global \<Rightarrow> CK_RV \<times> global" where
  "C_Initialize pReserved cert_pref g =
     (if module_initialized g then (CKR_CRYPTOKI_ALREADY_INITIALIZED, g)
      else if pReserved then (CKR_ARGUMENTS_BAD, g)
      else (CKR_OK,
            g\<lparr>slot_list := [None],
              cert_slot_enabled := cert_pref,
              cert_list_status :=
                (if cert_pref \<and> cert_list_status g = uninitialized then initializing
                 else cert_list_status g),
              module_initialized := True\<rparr>))"

definition background_cert_scan :: "obj_info list \<Rightarrow> nat \<Rightarrow> global \<Rightarrow> global" where
  "background_cert_scan objs cnt g =
     g\<lparr>cert_obj_list := objs, cert_obj_count := cnt, cert_list_status := initialized\<rparr>"

definition finalize_slot :: "global \<Rightarrow> nat option \<Rightarrow> global" where
  "finalize_slot g p = (case p of None \<Rightarrow> g | Some a \<Rightarrow> slot_entry_free a True g)"

definition C_Finalize :: "bool \<Rightarrow> global \<Rightarrow> CK_RV \<times> global" where
  "C_Finalize p g =
     (if \<not> module_initialized g then (CKR_CRYPTOKI_NOT_INITIALIZED, g)
      else if p then (CKR_ARGUMENTS_BAD, g)
      else let g1 = foldl finalize_slot g (slot_list g);
               g2 = g1\<lparr>slot_list := []\<rparr>;
               g3 = (if cert_list_status g2 = initialized
                     then g2\<lparr>cert_obj_list := [], cert_obj_count := 0\<rparr> else g2)
           in (CKR_OK, g3\<lparr>module_initialized := False, cert_slot_enabled := False\<rparr>))"

text \<open>The state of the library when it is loaded: nothing allocated, no arrays.\<close>

definition initial_global :: "(nat \<Rightarrow> slot_entry) \<Rightarrow> global" where
  "initial_global hp =
     \<lparr>module_initialized = False, slot_list = [], heap = hp, allocated = {},
      sess_list = [], sess_list_count = 0, cert_list_status = uninitialized,
      cert_slot_enabled = False, cert_obj_list = [], cert_obj_count = 0\<rparr>"

text \<open>
  One step of the library: an entry point returns, or the token watcher or the certificate
  scan delivers.  The watcher is started by \<^verbatim>\<open>C_Initialize\<close> and stopped by \<^verbatim>\<open>C_Finalize\<close>, so it
  delivers only while the module is initialised.  \<^verbatim>\<open>malloc\<close> returns an address that is not
  allocated.
\<close>

inductive step :: "global \<Rightarrow> global \<Rightarrow> bool" where
  step_Initialize: "C_Initialize pReserved cert_pref g = (rv, g1) \<Longrightarrow> step g g1"
| step_Finalize: "C_Finalize p g = (rv, g1) \<Longrightarrow> step g g1"
| step_scan: "cert_list_status g = initializing \<Longrightarrow> step g (background_cert_scan objs cnt g)"
| step_add_token:
    "module_initialized g \<Longrightarrow> a \<notin> allocated g \<Longrightarrow>
     step g (add_token_id h junk_obj junk_slot a tid la query g)"
| step_remove_token: "module_initialized g \<Longrightarrow> step g (remove_token_id tid g)"
| step_OpenSession: "C_OpenSession fresh junk slot flags g = (rv, hdl, g1) \<Longrightarrow> step g g1"
| step_CloseSession: "C_CloseSession session g = (rv, g1) \<Longrightarrow> step g g1"
| step_CloseAllSessions: "C_CloseAllSessions slot g = (rv, g1) \<Longrightarrow> step g g1"
| step_Login: "C_Login h session pin g = (rv, calls, g1) \<Longrightarrow> step g g1"
| step_Logout: "C_Logout session g = (rv, g1) \<Longrightarrow> step g g1"
| step_session_call: "C_session_call h tb session c g = Some (rv, g1) \<Longrightarrow> step g g1"

inductive reachable :: "global \<Rightarrow> bool" where
  reachable_initial: "reachable (initial_global hp)"
| reachable_step: "reachable g \<Longrightarrow> step g g1 \<Longrightarrow> reachable g1"

section \<open>Auxiliary notions for the proofs\<close>

text \<open>The cell of the object array that the builder is writing.\<close>

definition cur_obj :: "slot_entry \<Rightarrow> obj_info" where
  "cur_obj e = obj_list e ! obj_count e"



subsection \<open>Concrete inputs\<close>

text \<open>A small host, two identities and a token made of them, on which the theorems are run.\<close>

definition example_host :: host_env where
  "example_host =
     \<lparr>SecCertificateCopyData = (\<lambda>c. [0x30, 0x03]),
      get_certificate_info = (\<lambda>d. (Some [0x01], None, Some [0x43, 0x4E])),
      SecKeyGetBlockSize = (\<lambda>k. 256),
      SecKeyCopyExternalRepresentation = (\<lambda>k. Some [0x30]),
      get_pubkey_info = (\<lambda>d. (True, Some [0xC3], Some [0x01, 0x00, 0x01])),
      getkeylabel = (\<lambda>k. [0x6B]),
      SecKeyCreateEncryptedData = (\<lambda>k a d. Some (replicate 256 0xEE)),
      SecKeyCreateDecryptedData = (\<lambda>k a d. Some [0x6D]),
      SecKeyCreateSignature = (\<lambda>k a d. Some (replicate 256 0x5A)),
      SecKeyVerifySignature = (\<lambda>k a d s. s = replicate 256 0x5A),
      CFDataCreateWithBytesNoCopy = (\<lambda>d. True),
      cc_md_init = (\<lambda>a. True),
      cc_md_final = (\<lambda>c. [0xD1]),
      lacontext_auth = (\<lambda>la pin acc u. CKR_OK),
      os_log_debug_enabled = True,
      get_common_name = (\<lambda>p n. case p of None \<Rightarrow> None | Some b \<Rightarrow> Some ''CN'')\<rparr>"

definition example_id :: "nat \<Rightarrow> id_info" where
  "example_id n =
     \<lparr>ident = n, cert = n, privkey = 2 * n, pubkey = 2 * n + 1, pkeyhash = [], keytype = 0,
      secaccess = n, label = [0x69], privcansign = True, privcandecrypt = True,
      pubcanverify = True, pubcanencrypt = False, pubcanwrap = False\<rparr>"

definition example_junk :: "nat \<Rightarrow> obj_info" where
  "example_junk i = \<lparr>obj_id = None, obj_class = 77, attrs = []\<rparr>"


text \<open>
  A mechanism table and a parameter map in the shape of \<^verbatim>\<open>tables.h\<close>: plain RSA, RSA with
  SHA-256, OAEP and PSS, each of the last two with one row for SHA-256 and MGF1-SHA-256.
\<close>

definition example_tables :: tables where
  "example_tables =
     \<lparr>keychain_mechmap =
        [\<lparr>cki_mech = 0x1, usage_flags = 0x2B00, parameters = NONE,
          sec_encmech = Some (Some ''RSAEncryptionPKCS1''),
          sec_signmech = Some (Some ''RSASignatureRaw''), sec_dsignmech = None,
          sec_digest = 0, blocksize_out = True, min_keylen = 1024, max_keylen = 4096\<rparr>,
         \<lparr>cki_mech = 0x40, usage_flags = 0x2800, parameters = NONE,
          sec_encmech = None,
          sec_signmech = Some (Some ''RSASignatureMessagePKCS1v15SHA256''),
          sec_dsignmech = Some (Some ''RSASignatureDigestPKCS1v15SHA256''),
          sec_digest = 0x250, blocksize_out = True, min_keylen = 1024, max_keylen = 4096\<rparr>,
         \<lparr>cki_mech = 0x9, usage_flags = 0x300, parameters = OAEP,
          sec_encmech = None, sec_signmech = None, sec_dsignmech = None,
          sec_digest = 0, blocksize_out = True, min_keylen = 1024, max_keylen = 4096\<rparr>,
         \<lparr>cki_mech = 0xD, usage_flags = 0x2800, parameters = PSS,
          sec_encmech = None, sec_signmech = None, sec_dsignmech = None,
          sec_digest = 0, blocksize_out = True, min_keylen = 1024, max_keylen = 4096\<rparr>],
      keychain_param_map =
        [\<lparr>base_type = 0x9, hash_alg_pm = 0x250, mgf_pm = 0x2, slen = 0,
          encalg = Some (Some ''RSAEncryptionOAEPSHA256''), signalg = None, dsignalg = None\<rparr>,
         \<lparr>base_type = 0xD, hash_alg_pm = 0x250, mgf_pm = 0x2, slen = 32,
          encalg = None, signalg = Some (Some ''RSASignatureMessagePSSSHA256''),
          dsignalg = Some (Some ''RSASignatureDigestPSSSHA256'')\<rparr>]\<rparr>"

definition example_oaep_mech :: "nat \<Rightarrow> nat \<Rightarrow> CK_MECHANISM" where
  "example_oaep_mech hash_id mgf_id =
     \<lparr>mechanism = 0x9,
      pParameter = Some \<lparr>as_oaep = \<lparr>hashAlg = hash_id, mgf = mgf_id, source = CKZ_DATA_SPECIFIED,
                                   pSourceData = None, ulSourceDataLen = 0\<rparr>,
                         as_pss = \<lparr>hashAlg_pss = hash_id, mgf_pss = mgf_id, sLen = 1\<rparr>\<rparr>,
      ulParameterLen = 40\<rparr>"

definition example_mech :: "nat \<Rightarrow> CK_MECHANISM" where
  "example_mech n = \<lparr>mechanism = n, pParameter = None, ulParameterLen = 0\<rparr>"

text \<open>
  A session on slot 0 whose token is at address 7 and holds the three objects of one
  identity.
\<close>

definition example_objs :: "obj_info list" where
  "example_objs =
     [\<lparr>obj_id = Some (example_id 0), obj_class = CKO_CERTIFICATE,
       attrs = [\<lparr>type = CKA_CLASS, pValue = Some (ulong_bytes CKO_CERTIFICATE), ulValueLen = 8\<rparr>,
                \<lparr>type = CKA_ID, pValue = Some [0], ulValueLen = 1\<rparr>,
                \<lparr>type = CKA_LABEL, pValue = Some [0x69], ulValueLen = 1\<rparr>]\<rparr>,
      \<lparr>obj_id = Some (example_id 0), obj_class = CKO_PUBLIC_KEY,
       attrs = [\<lparr>type = CKA_CLASS, pValue = Some (ulong_bytes CKO_PUBLIC_KEY), ulValueLen = 8\<rparr>,
                \<lparr>type = CKA_ID, pValue = Some [0], ulValueLen = 1\<rparr>,
                \<lparr>type = CKA_ENCRYPT, pValue = Some [0], ulValueLen = 1\<rparr>]\<rparr>,
      \<lparr>obj_id = Some (example_id 0), obj_class = CKO_PRIVATE_KEY,
       attrs = [\<lparr>type = CKA_CLASS, pValue = Some (ulong_bytes CKO_PRIVATE_KEY), ulValueLen = 8\<rparr>,
                \<lparr>type = CKA_ID, pValue = Some [0], ulValueLen = 1\<rparr>,
                \<lparr>type = CKA_SIGN, pValue = Some [1], ulValueLen = 1\<rparr>]\<rparr>]"

definition example_session :: session where
  "example_session =
     \<lparr>slot_id = 0, token = Some 7, sess_obj_list = example_objs, obj_list_count = 3,
      obj_search_index = 0, search_attrs = [], state = NO_PENDING, key = None, outsize = 0,
      alg = None, dalg = None, hash_alg = 0, mdc = None\<rparr>"

text \<open>
  A library state with that token at address 7 in slot 0 and the session as handle 1, and
  a search template asking for private keys.
\<close>

definition example_slot_entry :: slot_entry where
  "example_slot_entry =
     \<lparr>tokenid = ''T'', id_list = [example_id 0],
      obj_list = example_objs @ [example_junk 3, example_junk 4], obj_count = 3, obj_size = 5,
      logged_in = False, token_label = Some [0x69], lacontext = Some 1, refcount = 2\<rparr>"

definition example_global :: "slot_entry \<Rightarrow> session \<Rightarrow> global" where
  "example_global t se =
     \<lparr>module_initialized = True, slot_list = [Some 7], heap = (\<lambda>a. t), allocated = {7},
      sess_list = [Some se, None, None, None, None], sess_list_count = 1,
      cert_list_status = uninitialized, cert_slot_enabled = False,
      cert_obj_list = [], cert_obj_count = 0\<rparr>"




subsection \<open>Notions used to state the properties of lookup and search\<close>






subsection \<open>Notions used to state the properties of the operation state\<close>

text \<open>
  The calls that can end the operation a session is in: the single-shot call, the update
  call or the final call of that operation, with an output buffer where the call takes one.
\<close>

fun completes :: "s_state \<Rightarrow> session_call \<Rightarrow> bool" where
  "completes st (Encrypt indata outdata n) = (st = E_INIT \<and> outdata)"
| "completes st (Decrypt indata outdata n) = (st = D_INIT \<and> outdata)"
| "completes st (Sign indata sig n) = (st = S_INIT \<and> sig)"
| "completes st (SignUpdate indata) = (st = S_INIT)"
| "completes st (SignFinal sig n) = (st = S_UPDATE \<and> sig)"
| "completes st (Verify indata sig) = (st = V_INIT)"
| "completes st (VerifyUpdate indata) = (st = V_INIT)"
| "completes st c = False"

text \<open>
  The example session after \<^verbatim>\<open>C_SignInit\<close> with RSA-SHA-256 on the private key and one
  \<^verbatim>\<open>C_SignUpdate\<close>, and after \<^verbatim>\<open>C_VerifyInit\<close> on the public key and one \<^verbatim>\<open>C_VerifyUpdate\<close>.
\<close>

definition example_signing :: session where
  "example_signing =
     snd (C_SignUpdate_body example_host [0x68, 0x69]
            (snd (C_SignInit_body example_host example_tables (example_mech 0x40) 3
                    example_session)))"

definition example_verifying :: session where
  "example_verifying =
     snd (C_VerifyUpdate_body example_host [0x68, 0x69]
            (snd (C_VerifyInit_body example_host example_tables (example_mech 0x40) 2
                    example_session)))"

text \<open>The example session on a token whose identity may neither decrypt nor sign nor verify.\<close>

definition example_restricted :: session where
  "example_restricted =
     example_session\<lparr>sess_obj_list :=
       map (\<lambda>obj. obj\<lparr>obj_id := Some ((example_id 0)\<lparr>privcansign := False,
              privcandecrypt := False, pubcanverify := False\<rparr>)\<rparr>) example_objs\<rparr>"

subsection \<open>Notions used to state the properties of the reference count\<close>

text \<open>
  The token a cell of the session table is bound to, and the references to the token at
  address \<open>a\<close>: the slots that hold it and the sessions bound to it.
\<close>

definition bound_token :: "session option \<Rightarrow> nat option" where
  "bound_token c = (case c of None \<Rightarrow> None | Some se \<Rightarrow> token se)"

definition open_sessions :: "session option list \<Rightarrow> nat \<Rightarrow> nat" where
  "open_sessions ss a = count_list (map bound_token ss) (Some a)"

definition refs :: "nat option list \<Rightarrow> session option list \<Rightarrow> nat \<Rightarrow> nat" where
  "refs sl ss a = count_list sl (Some a) + open_sessions ss a"

text \<open>
  The count of every token is right for a slot array \<open>sl\<close> and a session table \<open>ss\<close>: no
  token is in two slots, an allocated token is referenced and counts its references, and a
  token that is not allocated is not referenced.
\<close>

definition counted ::
  "nat option list \<Rightarrow> session option list \<Rightarrow> (nat \<Rightarrow> slot_entry) \<Rightarrow> nat set \<Rightarrow> bool" where
  "counted sl ss hp al =
     (\<forall>a. count_list sl (Some a) \<le> 1 \<and>
          (if a \<in> al then unat (refcount (hp a)) = refs sl ss a \<and> 0 < refs sl ss a
           else refs sl ss a = 0))"

text \<open>
  The session table is used up to \<^verbatim>\<open>sess_list_count\<close>, and there are slots only while the
  module is initialised.
\<close>

definition table_ok :: "global \<Rightarrow> bool" where
  "table_ok g =
     (sess_list_count g \<le> length (sess_list g) \<and>
      (\<forall>i. sess_list_count g \<le> i \<and> i < length (sess_list g) \<longrightarrow> sess_list g ! i = None) \<and>
      (module_initialized g \<or> slot_list g = []))"

definition refcount_inv :: "global \<Rightarrow> bool" where
  "refcount_inv g =
     (table_ok g \<and> counted (slot_list g) (sess_list g) (heap g) (allocated g))"

text \<open>
  A state reached by initialising, inserting a token with one identity at address 7 and
  opening a session on slot 0.
\<close>

definition example_started :: global where
  "example_started = snd (C_Initialize False False (initial_global (\<lambda>a. example_slot_entry)))"

definition example_inserted :: global where
  "example_inserted =
     add_token_id example_host example_junk (\<lambda>i. None) 7 ''T'' (Some 1) (Some [example_id 0])
       example_started"

definition example_opened :: global where
  "example_opened =
     snd (snd (C_OpenSession example_session (\<lambda>i. None) 0 CKF_SERIAL_SESSION example_inserted))"

text \<open>The same state after the token has been taken out, the session still open.\<close>

definition example_removed :: global where
  "example_removed = remove_token_id ''T'' example_opened"

section \<open>Properties\<close>

subsection \<open>The identifier bytes\<close>














subsection \<open>The object builder\<close>

lemma OBJINIT_frame [simp]:
  "obj_count (OBJINIT p e) = obj_count e" "obj_size (OBJINIT p e) = obj_size e"
  "id_list (OBJINIT p e) = id_list e" "length (obj_list (OBJINIT p e)) = length (obj_list e)"
  "i \<noteq> obj_count e \<Longrightarrow> obj_list (OBJINIT p e) ! i = obj_list e ! i"
  by (simp_all add: OBJINIT_def)

lemma set_class_frame [simp]:
  "obj_count (set_class c e) = obj_count e" "obj_size (set_class c e) = obj_size e"
  "id_list (set_class c e) = id_list e" "length (obj_list (set_class c e)) = length (obj_list e)"
  "i \<noteq> obj_count e \<Longrightarrow> obj_list (set_class c e) ! i = obj_list e ! i"
  by (simp_all add: set_class_def)

lemma ADD_ATTR_SIZE_frame [simp]:
  "obj_count (ADD_ATTR_SIZE a v s e) = obj_count e" "obj_size (ADD_ATTR_SIZE a v s e) = obj_size e"
  "id_list (ADD_ATTR_SIZE a v s e) = id_list e"
  "length (obj_list (ADD_ATTR_SIZE a v s e)) = length (obj_list e)"
  "i \<noteq> obj_count e \<Longrightarrow> obj_list (ADD_ATTR_SIZE a v s e) ! i = obj_list e ! i"
  by (simp_all add: ADD_ATTR_SIZE_def)

lemma ADD_ATTR_OPT_frame [simp]:
  "obj_count (ADD_ATTR_OPT a d e) = obj_count e" "obj_size (ADD_ATTR_OPT a d e) = obj_size e"
  "id_list (ADD_ATTR_OPT a d e) = id_list e"
  "length (obj_list (ADD_ATTR_OPT a d e)) = length (obj_list e)"
  "i \<noteq> obj_count e \<Longrightarrow> obj_list (ADD_ATTR_OPT a d e) ! i = obj_list e ! i"
  by (simp_all add: ADD_ATTR_OPT_def split: option.splits)

lemma ADD_ATTR_ULONG_frame [simp]:
  "obj_count (ADD_ATTR_ULONG a v e) = obj_count e" "obj_size (ADD_ATTR_ULONG a v e) = obj_size e"
  "id_list (ADD_ATTR_ULONG a v e) = id_list e"
  "length (obj_list (ADD_ATTR_ULONG a v e)) = length (obj_list e)"
  "i \<noteq> obj_count e \<Longrightarrow> obj_list (ADD_ATTR_ULONG a v e) ! i = obj_list e ! i"
  by (simp_all add: ADD_ATTR_ULONG_def)

lemma ADD_ATTR_BBOOL_frame [simp]:
  "obj_count (ADD_ATTR_BBOOL a v e) = obj_count e" "obj_size (ADD_ATTR_BBOOL a v e) = obj_size e"
  "id_list (ADD_ATTR_BBOOL a v e) = id_list e"
  "length (obj_list (ADD_ATTR_BBOOL a v e)) = length (obj_list e)"
  "i \<noteq> obj_count e \<Longrightarrow> obj_list (ADD_ATTR_BBOOL a v e) ! i = obj_list e ! i"
  by (simp_all add: ADD_ATTR_BBOOL_def)

lemma cur_OBJINIT [simp]:
  "obj_count e < length (obj_list e) \<Longrightarrow>
   cur_obj (OBJINIT p e) = (cur_obj e)\<lparr>obj_id := p, attrs := []\<rparr>"
  by (simp add: cur_obj_def OBJINIT_def)

lemma cur_set_class [simp]:
  "obj_count e < length (obj_list e) \<Longrightarrow>
   cur_obj (set_class c e) = (cur_obj e)\<lparr>obj_class := c\<rparr>"
  by (simp add: cur_obj_def set_class_def)

lemma cur_ADD_ATTR_SIZE:
  "obj_count e < length (obj_list e) \<Longrightarrow>
   cur_obj (ADD_ATTR_SIZE a v s e) =
     (cur_obj e)\<lparr>attrs := attrs (cur_obj e) @
        [\<lparr>type = a, pValue = Some (take s v), ulValueLen = s\<rparr>]\<rparr>"
  by (simp add: cur_obj_def ADD_ATTR_SIZE_def)

lemma cur_ADD_fields [simp]:
  assumes "obj_count e < length (obj_list e)"
  shows "obj_class (cur_obj (ADD_ATTR_SIZE a v s e)) = obj_class (cur_obj e)"
    "obj_id (cur_obj (ADD_ATTR_SIZE a v s e)) = obj_id (cur_obj e)"
    "attrs (cur_obj (ADD_ATTR_SIZE a v s e)) =
       attrs (cur_obj e) @ [\<lparr>type = a, pValue = Some (take s v), ulValueLen = s\<rparr>]"
    "obj_class (cur_obj (ADD_ATTR_ULONG a n e)) = obj_class (cur_obj e)"
    "obj_id (cur_obj (ADD_ATTR_ULONG a n e)) = obj_id (cur_obj e)"
    "attrs (cur_obj (ADD_ATTR_ULONG a n e)) =
       attrs (cur_obj e) @ [\<lparr>type = a, pValue = Some (take 8 (ulong_bytes n)), ulValueLen = 8\<rparr>]"
    "obj_class (cur_obj (ADD_ATTR_BBOOL a b e)) = obj_class (cur_obj e)"
    "obj_id (cur_obj (ADD_ATTR_BBOOL a b e)) = obj_id (cur_obj e)"
    "attrs (cur_obj (ADD_ATTR_BBOOL a b e)) =
       attrs (cur_obj e) @ [\<lparr>type = a, pValue = Some (take 1 (bbool_bytes b)), ulValueLen = 1\<rparr>]"
    "obj_class (cur_obj (ADD_ATTR_OPT a d e)) = obj_class (cur_obj e)"
    "obj_id (cur_obj (ADD_ATTR_OPT a d e)) = obj_id (cur_obj e)"
    "attrs (cur_obj (ADD_ATTR_OPT a d e)) = attrs (cur_obj e) @
        (case d of None \<Rightarrow> []
         | Some w \<Rightarrow> [\<lparr>type = a, pValue = Some (take (length w) w), ulValueLen = length w\<rparr>])"
  using assms
  by (simp_all add: cur_ADD_ATTR_SIZE ADD_ATTR_ULONG_def ADD_ATTR_BBOOL_def ADD_ATTR_OPT_def
      split: option.splits)

lemma CKA_CLASS_neq_CKA_ID [simp]: "CKA_CLASS \<noteq> CKA_ID"
  by (simp add: CKA_CLASS_def CKA_ID_def)














subsection \<open>Parameter validation\<close>

lemma param_map_search_find: "param_map_search P rs = find P rs"
  by (induction rs) simp_all

lemma param_map_search_None: "(param_map_search P rs = None) = (\<forall>r \<in> set rs. \<not> P r)"
  by (auto simp add: param_map_search_find find_None_iff)

lemma validate_oaep:
  assumes "parameters mechmap = OAEP"
  shows "mech_param_validate tb mptr mechmap =
     (if pParameter mptr = None \<or> ulParameterLen mptr \<noteq> sizeof_oaep then None
      else let oaep = as_oaep (the (pParameter mptr)) in
        if \<not> (source oaep = 0 \<or>
                (source oaep = CKZ_DATA_SPECIFIED \<and> pSourceData oaep = None \<and>
                 ulSourceDataLen oaep = 0))
        then None
        else map_option found (find (oaep_row mptr oaep) (keychain_param_map tb)))"
  using assms
  by (auto simp add: mech_param_validate_def Let_def param_map_search_find
      CKZ_DATA_SPECIFIED_def split: option.splits)

lemma validate_pss:
  assumes "parameters mechmap = PSS"
  shows "mech_param_validate tb mptr mechmap =
     (if pParameter mptr = None \<or> ulParameterLen mptr \<noteq> sizeof_pss then None
      else map_option found
             (find (pss_row mptr (as_pss (the (pParameter mptr)))) (keychain_param_map tb)))"
  using assms
  by (auto simp add: mech_param_validate_def Let_def param_map_search_find split: option.splits)

lemma EncryptInit_param_invalid:
  assumes "dec_ulong object < obj_list_count se" "state se = NO_PENDING"
    "obj_class (sess_obj_list se ! dec_ulong object) = CKO_PUBLIC_KEY"
    "obj_id (sess_obj_list se ! dec_ulong object) = Some idp"
    "get_mechmap tb (mechanism m) = Some mm" "usage_flags mm AND CKF_ENCRYPT \<noteq> 0"
    "mech_param_validate tb m mm = None"
  shows "C_EncryptInit_body h tb (Some m) object se = (CKR_MECHANISM_PARAM_INVALID, se)"
  using assms by (simp add: C_EncryptInit_body_def Let_def)

lemma DecryptInit_param_invalid:
  assumes "dec_ulong object < obj_list_count se" "state se = NO_PENDING"
    "obj_class (sess_obj_list se ! dec_ulong object) = CKO_PRIVATE_KEY"
    "obj_id (sess_obj_list se ! dec_ulong object) = Some idp" "privcandecrypt idp"
    "get_mechmap tb (mechanism m) = Some mm" "usage_flags mm AND CKF_DECRYPT \<noteq> 0"
    "mech_param_validate tb m mm = None"
  shows "C_DecryptInit_body h tb (Some m) object se = (CKR_MECHANISM_PARAM_INVALID, se)"
  using assms by (simp add: C_DecryptInit_body_def Let_def)

lemma SignInit_param_invalid:
  assumes "dec_ulong object < obj_list_count se" "state se = NO_PENDING"
    "obj_class (sess_obj_list se ! dec_ulong object) = CKO_PRIVATE_KEY"
    "obj_id (sess_obj_list se ! dec_ulong object) = Some idp" "privcansign idp"
    "get_mechmap tb (mechanism m) = Some mm" "usage_flags mm AND CKF_SIGN \<noteq> 0"
    "mech_param_validate tb m mm = None"
  shows "C_SignInit_body h tb m object se = (CKR_MECHANISM_PARAM_INVALID, se)"
  using assms by (simp add: C_SignInit_body_def Let_def)

lemma VerifyInit_param_invalid:
  assumes "dec_ulong object < obj_list_count se" "state se = NO_PENDING"
    "obj_class (sess_obj_list se ! dec_ulong object) = CKO_PUBLIC_KEY"
    "obj_id (sess_obj_list se ! dec_ulong object) = Some idp" "pubcanverify idp"
    "get_mechmap tb (mechanism m) = Some mm" "usage_flags mm AND CKF_VERIFY \<noteq> 0"
    "mech_param_validate tb m mm = None"
  shows "C_VerifyInit_body h tb m object se = (CKR_MECHANISM_PARAM_INVALID, se)"
  using assms by (simp add: C_VerifyInit_body_def Let_def)

text \<open>
  C3.  For a mechanism whose table entry says OAEP or PSS: validation fails when the parameter
  pointer is null or the parameter length is not the size of the structure, and for OAEP
  when the source is neither 0 nor data-specified with a null source pointer and length
  zero.  Otherwise it succeeds exactly when the parameter map has a row with the request's
  base mechanism, hash algorithm and MGF (and, for PSS, salt length), and the encrypt,
  single-shot sign, digest-taking sign and hash identifiers it gives are those of the first
  such row.  A failed validation makes each init entry point, once the key object and the
  mechanism are accepted, return mechanism-param-invalid and leave the session as it was.
\<close>

theorem mech_param_validate_oaep_pss:
  "(parameters mechmap = OAEP \<longrightarrow>
      (pParameter mptr = None \<or> ulParameterLen mptr \<noteq> sizeof_oaep
         \<longrightarrow> mech_param_validate tb mptr mechmap = None) \<and>
      (\<forall>blk. pParameter mptr = Some blk \<and>
          \<not> (source (as_oaep blk) = 0 \<or>
              (source (as_oaep blk) = CKZ_DATA_SPECIFIED \<and> pSourceData (as_oaep blk) = None \<and>
               ulSourceDataLen (as_oaep blk) = 0))
         \<longrightarrow> mech_param_validate tb mptr mechmap = None) \<and>
      (\<forall>blk. pParameter mptr = Some blk \<and> ulParameterLen mptr = sizeof_oaep \<and>
          (source (as_oaep blk) = 0 \<or>
           (source (as_oaep blk) = CKZ_DATA_SPECIFIED \<and> pSourceData (as_oaep blk) = None \<and>
            ulSourceDataLen (as_oaep blk) = 0))
         \<longrightarrow> (mech_param_validate tb mptr mechmap \<noteq> None) =
               (\<exists>r \<in> set (keychain_param_map tb).
                  mechanism mptr = base_type r \<and> hashAlg (as_oaep blk) = hash_alg_pm r \<and>
                  mgf (as_oaep blk) = mgf_pm r) \<and>
             mech_param_validate tb mptr mechmap =
               map_option
                 (\<lambda>r. \<lparr>r_encalg = deref_alg (encalg r), r_signalg = deref_alg (signalg r),
                       r_dsignalg = deref_alg (dsignalg r), r_digest = hash_alg_pm r\<rparr>)
                 (find (\<lambda>r. mechanism mptr = base_type r \<and>
                             hashAlg (as_oaep blk) = hash_alg_pm r \<and>
                             mgf (as_oaep blk) = mgf_pm r)
                    (keychain_param_map tb)))) \<and>
   (parameters mechmap = PSS \<longrightarrow>
      (pParameter mptr = None \<or> ulParameterLen mptr \<noteq> sizeof_pss
         \<longrightarrow> mech_param_validate tb mptr mechmap = None) \<and>
      (\<forall>blk. pParameter mptr = Some blk \<and> ulParameterLen mptr = sizeof_pss
         \<longrightarrow> (mech_param_validate tb mptr mechmap \<noteq> None) =
               (\<exists>r \<in> set (keychain_param_map tb).
                  mechanism mptr = base_type r \<and> hashAlg_pss (as_pss blk) = hash_alg_pm r \<and>
                  mgf_pss (as_pss blk) = mgf_pm r \<and> sLen (as_pss blk) = slen r) \<and>
             mech_param_validate tb mptr mechmap =
               map_option
                 (\<lambda>r. \<lparr>r_encalg = deref_alg (encalg r), r_signalg = deref_alg (signalg r),
                       r_dsignalg = deref_alg (dsignalg r), r_digest = hash_alg_pm r\<rparr>)
                 (find (\<lambda>r. mechanism mptr = base_type r \<and>
                             hashAlg_pss (as_pss blk) = hash_alg_pm r \<and>
                             mgf_pss (as_pss blk) = mgf_pm r \<and> sLen (as_pss blk) = slen r)
                    (keychain_param_map tb)))) \<and>
   (get_mechmap tb (mechanism m) = Some mm \<and> mech_param_validate tb m mm = None \<and>
    dec_ulong object < obj_list_count se \<and> state se = NO_PENDING \<and>
    obj_id (sess_obj_list se ! dec_ulong object) = Some idp
      \<longrightarrow>
      (obj_class (sess_obj_list se ! dec_ulong object) = CKO_PUBLIC_KEY \<and>
       usage_flags mm AND CKF_ENCRYPT \<noteq> 0
         \<longrightarrow> C_EncryptInit_body h tb (Some m) object se = (CKR_MECHANISM_PARAM_INVALID, se)) \<and>
      (obj_class (sess_obj_list se ! dec_ulong object) = CKO_PRIVATE_KEY \<and> privcandecrypt idp \<and>
       usage_flags mm AND CKF_DECRYPT \<noteq> 0
         \<longrightarrow> C_DecryptInit_body h tb (Some m) object se = (CKR_MECHANISM_PARAM_INVALID, se)) \<and>
      (obj_class (sess_obj_list se ! dec_ulong object) = CKO_PRIVATE_KEY \<and> privcansign idp \<and>
       usage_flags mm AND CKF_SIGN \<noteq> 0
         \<longrightarrow> C_SignInit_body h tb m object se = (CKR_MECHANISM_PARAM_INVALID, se)) \<and>
      (obj_class (sess_obj_list se ! dec_ulong object) = CKO_PUBLIC_KEY \<and> pubcanverify idp \<and>
       usage_flags mm AND CKF_VERIFY \<noteq> 0
         \<longrightarrow> C_VerifyInit_body h tb m object se = (CKR_MECHANISM_PARAM_INVALID, se)))"
proof (intro conjI impI allI)
  assume "parameters mechmap = OAEP"
    and "pParameter mptr = None \<or> ulParameterLen mptr \<noteq> sizeof_oaep"
  then show "mech_param_validate tb mptr mechmap = None"
    by (simp add: validate_oaep)
next
  fix blk
  assume "parameters mechmap = OAEP"
    and "pParameter mptr = Some blk \<and>
          \<not> (source (as_oaep blk) = 0 \<or>
              (source (as_oaep blk) = CKZ_DATA_SPECIFIED \<and> pSourceData (as_oaep blk) = None \<and>
               ulSourceDataLen (as_oaep blk) = 0))"
  then show "mech_param_validate tb mptr mechmap = None"
    by (simp add: validate_oaep Let_def)
next
  fix blk
  assume a: "parameters mechmap = OAEP"
    and b: "pParameter mptr = Some blk \<and> ulParameterLen mptr = sizeof_oaep \<and>
          (source (as_oaep blk) = 0 \<or>
           (source (as_oaep blk) = CKZ_DATA_SPECIFIED \<and> pSourceData (as_oaep blk) = None \<and>
            ulSourceDataLen (as_oaep blk) = 0))"
  have v: "mech_param_validate tb mptr mechmap =
      map_option found (find (oaep_row mptr (as_oaep blk)) (keychain_param_map tb))"
    using a b by (auto simp add: validate_oaep Let_def)
  show "(mech_param_validate tb mptr mechmap \<noteq> None) =
               (\<exists>r \<in> set (keychain_param_map tb).
                  mechanism mptr = base_type r \<and> hashAlg (as_oaep blk) = hash_alg_pm r \<and>
                  mgf (as_oaep blk) = mgf_pm r)"
    unfolding v by (auto simp add: find_None_iff oaep_row_def)
  show "mech_param_validate tb mptr mechmap =
               map_option
                 (\<lambda>r. \<lparr>r_encalg = deref_alg (encalg r), r_signalg = deref_alg (signalg r),
                       r_dsignalg = deref_alg (dsignalg r), r_digest = hash_alg_pm r\<rparr>)
                 (find (\<lambda>r. mechanism mptr = base_type r \<and>
                             hashAlg (as_oaep blk) = hash_alg_pm r \<and>
                             mgf (as_oaep blk) = mgf_pm r)
                    (keychain_param_map tb))"
    unfolding v by (simp add: oaep_row_def[abs_def] found_def[abs_def])
next
  assume "parameters mechmap = PSS"
    and "pParameter mptr = None \<or> ulParameterLen mptr \<noteq> sizeof_pss"
  then show "mech_param_validate tb mptr mechmap = None"
    by (simp add: validate_pss)
next
  fix blk
  assume a: "parameters mechmap = PSS"
    and b: "pParameter mptr = Some blk \<and> ulParameterLen mptr = sizeof_pss"
  have v: "mech_param_validate tb mptr mechmap =
      map_option found (find (pss_row mptr (as_pss blk)) (keychain_param_map tb))"
    using a b by (simp add: validate_pss)
  show "(mech_param_validate tb mptr mechmap \<noteq> None) =
               (\<exists>r \<in> set (keychain_param_map tb).
                  mechanism mptr = base_type r \<and> hashAlg_pss (as_pss blk) = hash_alg_pm r \<and>
                  mgf_pss (as_pss blk) = mgf_pm r \<and> sLen (as_pss blk) = slen r)"
    unfolding v by (auto simp add: find_None_iff pss_row_def)
  show "mech_param_validate tb mptr mechmap =
               map_option
                 (\<lambda>r. \<lparr>r_encalg = deref_alg (encalg r), r_signalg = deref_alg (signalg r),
                       r_dsignalg = deref_alg (dsignalg r), r_digest = hash_alg_pm r\<rparr>)
                 (find (\<lambda>r. mechanism mptr = base_type r \<and>
                             hashAlg_pss (as_pss blk) = hash_alg_pm r \<and>
                             mgf_pss (as_pss blk) = mgf_pm r \<and> sLen (as_pss blk) = slen r)
                    (keychain_param_map tb))"
    unfolding v by (simp add: pss_row_def[abs_def] found_def[abs_def])
next
  assume a: "get_mechmap tb (mechanism m) = Some mm \<and> mech_param_validate tb m mm = None \<and>
    dec_ulong object < obj_list_count se \<and> state se = NO_PENDING \<and>
    obj_id (sess_obj_list se ! dec_ulong object) = Some idp"
  {
    assume "obj_class (sess_obj_list se ! dec_ulong object) = CKO_PUBLIC_KEY \<and>
       usage_flags mm AND CKF_ENCRYPT \<noteq> 0"
    then show "C_EncryptInit_body h tb (Some m) object se = (CKR_MECHANISM_PARAM_INVALID, se)"
      using a by (simp add: EncryptInit_param_invalid)
  next
    assume "obj_class (sess_obj_list se ! dec_ulong object) = CKO_PRIVATE_KEY \<and>
       privcandecrypt idp \<and> usage_flags mm AND CKF_DECRYPT \<noteq> 0"
    then show "C_DecryptInit_body h tb (Some m) object se = (CKR_MECHANISM_PARAM_INVALID, se)"
      using a by (simp add: DecryptInit_param_invalid)
  next
    assume "obj_class (sess_obj_list se ! dec_ulong object) = CKO_PRIVATE_KEY \<and>
       privcansign idp \<and> usage_flags mm AND CKF_SIGN \<noteq> 0"
    then show "C_SignInit_body h tb m object se = (CKR_MECHANISM_PARAM_INVALID, se)"
      using a by (simp add: SignInit_param_invalid)
  next
    assume "obj_class (sess_obj_list se ! dec_ulong object) = CKO_PUBLIC_KEY \<and>
       pubcanverify idp \<and> usage_flags mm AND CKF_VERIFY \<noteq> 0"
    then show "C_VerifyInit_body h tb m object se = (CKR_MECHANISM_PARAM_INVALID, se)"
      using a by (simp add: VerifyInit_param_invalid)
  }
qed

theorem mech_param_validate_oaep_pss_witness:
  "parameters (keychain_mechmap example_tables ! 2) = OAEP \<and>
   pParameter (example_oaep_mech 0x250 0x2) \<noteq> None \<and>
   ulParameterLen (example_oaep_mech 0x250 0x2) = sizeof_oaep \<and>
   mech_param_validate example_tables (example_oaep_mech 0x250 0x2)
       (keychain_mechmap example_tables ! 2) =
     Some \<lparr>r_encalg = Some ''RSAEncryptionOAEPSHA256'', r_signalg = None, r_dsignalg = None,
           r_digest = 0x250\<rparr> \<and>
   mech_param_validate example_tables (example_oaep_mech 0x270 0x2)
       (keychain_mechmap example_tables ! 2) = None \<and>
   C_EncryptInit_body example_host example_tables (Some (example_oaep_mech 0x270 0x2)) 2
       example_session = (CKR_MECHANISM_PARAM_INVALID, example_session)"
proof -
  note t = mech_param_validate_oaep_pss[where tb = example_tables
      and mechmap = "keychain_mechmap example_tables ! 2"
      and mptr = "example_oaep_mech 0x250 0x2"
      and m = "example_oaep_mech 0x270 0x2"
      and mm = "keychain_mechmap example_tables ! 2"
      and object = 2 and se = example_session and idp = "example_id 0" and h = example_host]
  have p: "parameters (keychain_mechmap example_tables ! 2) = OAEP"
    by (simp add: example_tables_def)
  have ok: "mech_param_validate example_tables (example_oaep_mech 0x250 0x2)
       (keychain_mechmap example_tables ! 2) =
     Some \<lparr>r_encalg = Some ''RSAEncryptionOAEPSHA256'', r_signalg = None, r_dsignalg = None,
           r_digest = 0x250\<rparr>"
    using t p
    by (simp add: example_tables_def example_oaep_mech_def sizeof_oaep_def CKZ_DATA_SPECIFIED_def
        deref_alg_def)
  have bad: "mech_param_validate example_tables (example_oaep_mech 0x270 0x2)
       (keychain_mechmap example_tables ! 2) = None"
    by (simp add: mech_param_validate_def example_tables_def example_oaep_mech_def sizeof_oaep_def
        CKZ_DATA_SPECIFIED_def oaep_row_def Let_def)
  have mm: "get_mechmap example_tables (mechanism (example_oaep_mech 0x270 0x2)) =
      Some (keychain_mechmap example_tables ! 2)"
    by (simp add: get_mechmap_def example_tables_def example_oaep_mech_def)
  have fl: "usage_flags (keychain_mechmap example_tables ! 2) AND CKF_ENCRYPT \<noteq> 0"
    by (simp add: example_tables_def CKF_ENCRYPT_def)
  have se: "dec_ulong 2 < obj_list_count example_session" "state example_session = NO_PENDING"
    "obj_id (sess_obj_list example_session ! dec_ulong 2) = Some (example_id 0)"
    "obj_class (sess_obj_list example_session ! dec_ulong 2) = CKO_PUBLIC_KEY"
    by (simp_all add: example_session_def example_objs_def dec_ulong_def)
  have ei: "C_EncryptInit_body example_host example_tables (Some (example_oaep_mech 0x270 0x2)) 2
       example_session = (CKR_MECHANISM_PARAM_INVALID, example_session)"
    using t mm bad se fl by simp
  show ?thesis using p ok bad ei
    by (simp add: example_oaep_mech_def sizeof_oaep_def)
qed

subsection \<open>Probing the output size\<close>

text \<open>
  C6.  \<^verbatim>\<open>C_Encrypt\<close>, \<^verbatim>\<open>C_Decrypt\<close> and \<^verbatim>\<open>C_Sign\<close>, called in their init state: with a null
  output buffer and a known output size the size is written and the call returns OK; with a
  null buffer and an unknown size it returns buffer-too-small; with a buffer smaller than
  the known size it returns buffer-too-small and writes the size back.  In all three cases
  the session is left exactly as it was, so it is still in the init state with its key.
\<close>

theorem output_size_probing:
  assumes "(body, st) \<in> {(C_Encrypt_body, E_INIT), (C_Decrypt_body, D_INIT), (C_Sign_body, S_INIT)}"
    and "state se = st"
  shows "(\<not> outdata \<and> outsize se \<noteq> 0 \<longrightarrow>
            body h indata outdata outdatalen se = (CKR_OK, None, outsize se, se)) \<and>
         (\<not> outdata \<and> outsize se = 0 \<longrightarrow>
            body h indata outdata outdatalen se = (CKR_BUFFER_TOO_SMALL, None, outdatalen, se)) \<and>
         (outdata \<and> outsize se \<noteq> 0 \<and> outdatalen < outsize se \<longrightarrow>
            body h indata outdata outdatalen se = (CKR_BUFFER_TOO_SMALL, None, outsize se, se))"
  using assms
  by (auto simp add: C_Encrypt_body_def C_Decrypt_body_def C_Sign_body_def)

theorem output_size_probing_witness:
  "(C_Sign_body, S_INIT) \<in> {(C_Encrypt_body, E_INIT), (C_Decrypt_body, D_INIT), (C_Sign_body, S_INIT)} \<and>
   state (example_session\<lparr>state := S_INIT, key := Some 0, outsize := 256\<rparr>) = S_INIT \<and>
   C_Sign_body example_host [0x68, 0x69] False 0
       (example_session\<lparr>state := S_INIT, key := Some 0, outsize := 256\<rparr>) =
     (CKR_OK, None, 256, example_session\<lparr>state := S_INIT, key := Some 0, outsize := 256\<rparr>) \<and>
   C_Sign_body example_host [0x68, 0x69] True 255
       (example_session\<lparr>state := S_INIT, key := Some 0, outsize := 256\<rparr>) =
     (CKR_BUFFER_TOO_SMALL, None, 256,
      example_session\<lparr>state := S_INIT, key := Some 0, outsize := 256\<rparr>) \<and>
   C_Sign_body example_host [0x68, 0x69] False 0
       (example_session\<lparr>state := S_INIT, key := Some 0, outsize := 0\<rparr>) =
     (CKR_BUFFER_TOO_SMALL, None, 0, example_session\<lparr>state := S_INIT, key := Some 0, outsize := 0\<rparr>)"
proof -
  have m: "(C_Sign_body, S_INIT) \<in>
      {(C_Encrypt_body, E_INIT), (C_Decrypt_body, D_INIT), (C_Sign_body, S_INIT)}"
    by simp
  have s1: "state (example_session\<lparr>state := S_INIT, key := Some 0, outsize := 256\<rparr>) = S_INIT"
    and s2: "state (example_session\<lparr>state := S_INIT, key := Some 0, outsize := 0\<rparr>) = S_INIT"
    by simp_all
  note a = output_size_probing[OF m s1, of False example_host "[0x68, 0x69]" 0]
  note b = output_size_probing[OF m s1, of True example_host "[0x68, 0x69]" 255]
  note c = output_size_probing[OF m s2, of False example_host "[0x68, 0x69]" 0]
  show ?thesis using m a b c by simp
qed

subsection \<open>\<^verbatim>\<open>C_FindObjectsInit\<close>\<close>




text \<open>
  With debug messages logged, a \<^verbatim>\<open>CKA_CLASS\<close> entry of unavailable length makes
  \<^verbatim>\<open>dump_attribute\<close> read through the null pointer of the copy.
\<close>

lemma FindObjectsInit_dump_null:
  "C_FindObjectsInit_body example_host
     [\<lparr>type = CKA_CLASS, pValue = None, ulValueLen = CK_UNAVAILABLE_INFORMATION\<rparr>]
     example_session = None"
  by (simp add: C_FindObjectsInit_body_def copy_attribute_def dump_attribute_def
      memcpy_read_def example_host_def)


lemma example_CHECKSESSION: "CHECKSESSION 1 (example_global t se) = Some (0, se)"
  by (simp add: CHECKSESSION_def example_global_def dec_ulong_def)



subsection \<open>\<^verbatim>\<open>C_Login\<close> without a local-authentication context\<close>

text \<open>
  C9.  On a session bound to a hardware token that has no local-authentication context,
  \<^verbatim>\<open>C_Login\<close> with a PIN returns OK, makes no call to \<^verbatim>\<open>lacontext_auth\<close> and leaves the whole
  state, and so the token's logged-in flag, as it was: if the token was not logged in,
  \<^verbatim>\<open>C_GetSessionInfo\<close> reports the public-session state afterwards too.  Whatever the
  arguments, a \<^verbatim>\<open>C_Login\<close> that turns the logged-in flag of a token on was given a null PIN
  or found a context on that token.
\<close>

theorem Login_without_lacontext:
  assumes "module_initialized g" and "CHECKSESSION session g = Some (i, se)"
    and "token se = Some a" and "lacontext (heap g a) = None"
  shows "C_Login h session (Some pin) g = (CKR_OK, [], g) \<and>
         (\<not> logged_in (heap g a) \<longrightarrow>
            C_GetSessionInfo session True (snd (snd (C_Login h session (Some pin) g))) =
              (CKR_OK, Some \<lparr>slotID = slot_id se, info_state = CKS_RO_PUBLIC_SESSION,
                              info_flags = CKF_SERIAL_SESSION, ulDeviceError = 0\<rparr>)) \<and>
         (\<forall>p b. \<not> logged_in (heap g b) \<and>
                 logged_in (heap (snd (snd (C_Login h session p g))) b)
                 \<longrightarrow> p = None \<or> lacontext (heap g b) \<noteq> None)"
proof -
  have l: "C_Login h session (Some pin) g = (CKR_OK, [], g)"
    using assms by (simp add: C_Login_def)
  have s: "\<not> logged_in (heap g a) \<longrightarrow>
            C_GetSessionInfo session True (snd (snd (C_Login h session (Some pin) g))) =
              (CKR_OK, Some \<lparr>slotID = slot_id se, info_state = CKS_RO_PUBLIC_SESSION,
                              info_flags = CKF_SERIAL_SESSION, ulDeviceError = 0\<rparr>)"
    unfolding l using assms by (simp add: C_GetSessionInfo_def)
  have o: "p = None \<or> lacontext (heap g b) \<noteq> None"
    if "\<not> logged_in (heap g b) \<and> logged_in (heap (snd (snd (C_Login h session p g))) b)"
    for p b
    using that assms
    by (cases p) (auto simp add: C_Login_def Let_def split: prod.splits if_splits)
  show ?thesis using l s o by blast
qed

theorem Login_without_lacontext_witness:
  "module_initialized (example_global (example_slot_entry\<lparr>lacontext := None\<rparr>) example_session) \<and>
   CHECKSESSION 1 (example_global (example_slot_entry\<lparr>lacontext := None\<rparr>) example_session) =
     Some (0, example_session) \<and>
   token example_session = Some 7 \<and>
   lacontext (heap (example_global (example_slot_entry\<lparr>lacontext := None\<rparr>) example_session) 7)
     = None \<and>
   C_Login example_host 1 (Some [0x31, 0x32, 0x33, 0x34])
       (example_global (example_slot_entry\<lparr>lacontext := None\<rparr>) example_session) =
     (CKR_OK, [], example_global (example_slot_entry\<lparr>lacontext := None\<rparr>) example_session) \<and>
   C_GetSessionInfo 1 True
       (example_global (example_slot_entry\<lparr>lacontext := None\<rparr>) example_session) =
     (CKR_OK, Some \<lparr>slotID = 0, info_state = CKS_RO_PUBLIC_SESSION,
                     info_flags = CKF_SERIAL_SESSION, ulDeviceError = 0\<rparr>)"
proof -
  define g where "g = example_global (example_slot_entry\<lparr>lacontext := None\<rparr>) example_session"
  have i: "module_initialized g" by (simp add: g_def example_global_def)
  have c: "CHECKSESSION 1 g = Some (0, example_session)"
    unfolding g_def by (rule example_CHECKSESSION)
  have t: "token example_session = Some 7" by (simp add: example_session_def)
  have n: "lacontext (heap g 7) = None"
    by (simp add: g_def example_global_def example_slot_entry_def)
  have f: "\<not> logged_in (heap g 7)"
    by (simp add: g_def example_global_def example_slot_entry_def)
  note w = Login_without_lacontext[OF i c t n, of example_host "[0x31, 0x32, 0x33, 0x34]"]
  from w have l: "C_Login example_host 1 (Some [0x31, 0x32, 0x33, 0x34]) g = (CKR_OK, [], g)"
    by blast
  from w f have "C_GetSessionInfo 1 True
      (snd (snd (C_Login example_host 1 (Some [0x31, 0x32, 0x33, 0x34]) g))) =
     (CKR_OK, Some \<lparr>slotID = slot_id example_session, info_state = CKS_RO_PUBLIC_SESSION,
                     info_flags = CKF_SERIAL_SESSION, ulDeviceError = 0\<rparr>)"
    by blast
  then have s: "C_GetSessionInfo 1 True g =
     (CKR_OK, Some \<lparr>slotID = 0, info_state = CKS_RO_PUBLIC_SESSION,
                     info_flags = CKF_SERIAL_SESSION, ulDeviceError = 0\<rparr>)"
    unfolding l by (simp add: example_session_def)
  show ?thesis using i c t n l s unfolding g_def by simp
qed

subsection \<open>\<^verbatim>\<open>C_GetAttributeValue\<close>\<close>


lemma get_attribute_step_cases:
  "get_attribute_step obj rv t =
     (case find_attribute obj (type t) of
        None \<Rightarrow> Some (CKR_ATTRIBUTE_TYPE_INVALID, t\<lparr>ulValueLen := CK_UNAVAILABLE_INFORMATION\<rparr>)
      | Some attr \<Rightarrow>
          if pValue t = None then Some (rv, t\<lparr>ulValueLen := ulValueLen attr\<rparr>)
          else if ulValueLen t < ulValueLen attr
          then Some (CKR_BUFFER_TOO_SMALL, t\<lparr>ulValueLen := ulValueLen attr\<rparr>)
          else (case memcpy_read (pValue attr) (ulValueLen attr) of
                  None \<Rightarrow> None
                | Some v \<Rightarrow>
                    (case memcpy_write (pValue t) v of
                       None \<Rightarrow> None
                     | Some b \<Rightarrow> Some (rv, t\<lparr>pValue := Some b, ulValueLen := ulValueLen attr\<rparr>))))"
  by (simp add: get_attribute_step_def split: option.splits)





lemmas CKO_defs = CKO_CERTIFICATE_def CKO_PUBLIC_KEY_def CKO_PRIVATE_KEY_def


subsection \<open>Searching\<close>




text \<open>
  No memory error: the object's values are allocated with their lengths, and so are the
  values of the session's copy of the template.
\<close>

lemma memcmp_eq_Some:
  "pValue a = Some x \<Longrightarrow> ulValueLen a = length x \<Longrightarrow> pValue t = Some y \<Longrightarrow>
   ulValueLen t = length y \<Longrightarrow> ulValueLen a = ulValueLen t \<Longrightarrow>
   memcmp_eq (pValue a) (pValue t) (ulValueLen t) \<noteq> None"
  by (auto simp add: memcmp_eq_def)



subsection \<open>Enumeration by \<^verbatim>\<open>C_FindObjects\<close>\<close>














subsection \<open>The capability checks of the init entry points\<close>

text \<open>
  C2.  \<^verbatim>\<open>C_EncryptInit\<close> has no test of \<^verbatim>\<open>pubcanencrypt\<close>: on the public key of an identity
  that may not encrypt, with plain RSA, it returns OK and the session is in \<open>E_INIT\<close>.  The
  three other init entry points, on the keys of an identity without the capability, return
  key-function-not-permitted and leave the session as it was.
\<close>

theorem EncryptInit_without_capability:
  "\<not> pubcanencrypt (example_id 0) \<and>
   obj_id (sess_obj_list example_session ! 1) = Some (example_id 0) \<and>
   state example_session = NO_PENDING \<and>
   C_EncryptInit_body example_host example_tables (Some (example_mech 0x1)) 2 example_session =
     (CKR_OK,
      example_session\<lparr>alg := Some ''RSAEncryptionPKCS1'', key := Some 1, outsize := 256,
                       state := E_INIT\<rparr>) \<and>
   C_DecryptInit_body example_host example_tables (Some (example_mech 0x1)) 3 example_restricted =
     (CKR_KEY_FUNCTION_NOT_PERMITTED, example_restricted) \<and>
   C_SignInit_body example_host example_tables (example_mech 0x1) 3 example_restricted =
     (CKR_KEY_FUNCTION_NOT_PERMITTED, example_restricted) \<and>
   C_VerifyInit_body example_host example_tables (example_mech 0x1) 2 example_restricted =
     (CKR_KEY_FUNCTION_NOT_PERMITTED, example_restricted)"
proof -
  have o: "dec_ulong 2 = 1" "dec_ulong 3 = 2" by (simp_all add: dec_ulong_def)
  have e: "C_EncryptInit_body example_host example_tables (Some (example_mech 0x1)) 2
      example_session =
     (CKR_OK,
      example_session\<lparr>alg := Some ''RSAEncryptionPKCS1'', key := Some 1, outsize := 256,
                       state := E_INIT\<rparr>)"
    by (simp add: C_EncryptInit_body_def o get_mechmap_def mech_param_validate_def
        deref_alg_def example_mech_def example_session_def example_objs_def example_id_def
        op_outsize_def example_host_def example_tables_def CKO_defs CKF_ENCRYPT_def)
  have d: "C_DecryptInit_body example_host example_tables (Some (example_mech 0x1)) 3
      example_restricted = (CKR_KEY_FUNCTION_NOT_PERMITTED, example_restricted)"
    by (simp add: C_DecryptInit_body_def o example_restricted_def example_session_def
        example_objs_def CKO_defs)
  have s: "C_SignInit_body example_host example_tables (example_mech 0x1) 3 example_restricted =
     (CKR_KEY_FUNCTION_NOT_PERMITTED, example_restricted)"
    by (simp add: C_SignInit_body_def o example_restricted_def example_session_def
        example_objs_def CKO_defs)
  have v: "C_VerifyInit_body example_host example_tables (example_mech 0x1) 2 example_restricted =
     (CKR_KEY_FUNCTION_NOT_PERMITTED, example_restricted)"
    by (simp add: C_VerifyInit_body_def o example_restricted_def example_session_def
        example_objs_def CKO_defs)
  show ?thesis using e d s v
    by (simp add: example_id_def example_session_def example_objs_def)
qed

subsection \<open>The operation state\<close>

lemma first_free_Some:
  "first_free xs k = Some i \<Longrightarrow> k \<le> i \<and> i - k < length xs \<and> xs ! (i - k) = None"
proof (induction xs arbitrary: k)
  case Nil
  then show ?case by simp
next
  case (Cons x xs)
  show ?case
  proof (cases "x = None")
    case True
    then show ?thesis using Cons.prems by simp
  next
    case False
    then have "first_free xs (Suc k) = Some i" using Cons.prems by (auto split: if_splits)
    from Cons.IH[OF this] show ?thesis by (auto simp add: Suc_diff_le)
  qed
qed

lemma first_free_None: "first_free xs k = None \<Longrightarrow> \<forall>x \<in> set xs. x \<noteq> None"
  by (induction xs arbitrary: k) (auto split: if_splits)

lemma length_fold_clear [simp]:
  "length (fold (\<lambda>i xs. xs[i := v]) is xs) = length xs"
  by (induction "is" arbitrary: xs) simp_all

lemma length_realloc_cells:
  "length xs \<le> n \<Longrightarrow> length (realloc_cells u xs n) = n"
  by (simp add: realloc_cells_def)

lemma store_session_lookup:
  assumes "sess_list_count g \<le> length (sess_list g)"
    and "store_session junk sess g = (hdl, g1)"
  shows "CHECKSESSION hdl g1 = Some (hdl - 1, sess)"
proof (cases "first_free (sess_list g) 0")
  case (Some i)
  from first_free_Some[OF Some] have i: "i < length (sess_list g)" by simp
  have "hdl = i + 1"
    and "g1 = g\<lparr>sess_list := (sess_list g)[i := Some sess],
             sess_list_count := (if i \<ge> sess_list_count g then i + 1 else sess_list_count g)\<rparr>"
    using assms(2) Some by (auto simp add: store_session_def)
  then show ?thesis using i by (simp add: CHECKSESSION_def dec_ulong_def)
next
  case None
  define n where "n = length (sess_list g) + 5"
  define xs2 where "xs2 = fold (\<lambda>i xs. xs[i := None]) [sess_list_count g + 1..<n]
      (realloc_cells junk (sess_list g) n)"
  have l: "length xs2 = n"
    by (simp add: xs2_def length_realloc_cells n_def)
  have "hdl = sess_list_count g + 1"
    and "g1 = g\<lparr>sess_list := xs2[sess_list_count g := Some sess],
             sess_list_count := sess_list_count g + 1\<rparr>"
    using assms(2) None by (auto simp add: store_session_def Let_def xs2_def n_def)
  then show ?thesis using l assms(1)
    by (simp add: CHECKSESSION_def dec_ulong_def n_def)
qed

lemma OpenSession_state:
  assumes "C_OpenSession fresh junk slot flags g = (CKR_OK, Some hdl, g1)"
    and "sess_list_count g \<le> length (sess_list g)"
  shows "\<exists>i se. CHECKSESSION hdl g1 = Some (i, se) \<and> state se = NO_PENDING"
proof -
  have st: "state (open_fields fresh slot tok objs cnt) = NO_PENDING" for tok objs cnt
    by (simp add: open_fields_def)
  show ?thesis
  proof (cases "slot = CERTIFICATE_SLOT")
    case True
    define sess where "sess = (if cert_list_status g = initialized
        then open_fields fresh slot None (cert_obj_list g) (cert_obj_count g)
        else open_fields fresh slot None [] 0)"
    have s: "state sess = NO_PENDING" by (simp add: sess_def st)
    have "store_session junk sess g = (hdl, g1)"
      using assms(1) True
      by (auto simp add: C_OpenSession_def Let_def sess_def
          split: if_splits option.splits prod.splits)
    from store_session_lookup[OF assms(2) this] s show ?thesis by blast
  next
    case False
    from assms(1) False obtain a where a: "slot_list g ! slot = Some a"
      by (auto simp add: C_OpenSession_def Let_def split: if_splits option.splits prod.splits)
    define sess where
      "sess = open_fields fresh slot (Some a) (obj_list (heap g a)) (obj_count (heap g a))"
    define g0 where
      "g0 = g\<lparr>heap := (heap g)(a := (heap g a)\<lparr>refcount := refcount (heap g a) + 1\<rparr>)\<rparr>"
    have s: "state sess = NO_PENDING" by (simp add: sess_def st)
    have c: "sess_list_count g0 \<le> length (sess_list g0)" using assms(2) by (simp add: g0_def)
    have "store_session junk sess g0 = (hdl, g1)"
      using assms(1) False a
      by (auto simp add: C_OpenSession_def Let_def sess_def g0_def
          split: if_splits option.splits prod.splits)
    from store_session_lookup[OF c this] s show ?thesis by blast
  qed
qed

lemma init_keeps_active:
  assumes "state se \<noteq> NO_PENDING"
  shows "snd (C_EncryptInit_body h tb mech obj se) = se"
    "snd (C_DecryptInit_body h tb mech obj se) = se"
    "snd (C_SignInit_body h tb m obj se) = se"
    "snd (C_VerifyInit_body h tb m obj se) = se"
  using assms
  by (simp_all add: C_EncryptInit_body_def C_DecryptInit_body_def C_SignInit_body_def
      C_VerifyInit_body_def Let_def split: option.splits)

lemma init_enters:
  "C_EncryptInit_body h tb mech obj se = (CKR_OK, se1) \<Longrightarrow>
     state se = NO_PENDING \<and> state se1 = E_INIT"
  "C_DecryptInit_body h tb mech obj se = (CKR_OK, se1) \<Longrightarrow>
     state se = NO_PENDING \<and> state se1 = D_INIT"
  "C_SignInit_body h tb m obj se = (CKR_OK, se1) \<Longrightarrow>
     state se = NO_PENDING \<and> state se1 = S_INIT"
  "C_VerifyInit_body h tb m obj se = (CKR_OK, se1) \<Longrightarrow>
     state se = NO_PENDING \<and> state se1 = V_INIT"
  by (auto simp add: C_EncryptInit_body_def C_DecryptInit_body_def C_SignInit_body_def
      C_VerifyInit_body_def Let_def split: option.splits if_splits)

lemma single_shot_clears:
  "C_Encrypt_body h indata True n se = (CKR_OK, out, n1, se1) \<Longrightarrow> state se1 = NO_PENDING"
  "C_Decrypt_body h indata True n se = (CKR_OK, out, n1, se1) \<Longrightarrow> state se1 = NO_PENDING"
  "C_Sign_body h indata True n se = (CKR_OK, out, n1, se1) \<Longrightarrow> state se1 = NO_PENDING"
  by (auto simp add: C_Encrypt_body_def C_Decrypt_body_def C_Sign_body_def clear_op_def
      split: if_splits option.splits)

lemma Verify_clears:
  "state se = V_INIT \<Longrightarrow> state (snd (C_Verify_body h indata sig se)) = NO_PENDING"
  by (simp add: C_Verify_body_def)

lemma SignFinal_clears:
  assumes "state se = S_UPDATE" and "outsize se = 0 \<or> outsize se \<le> n"
    and "\<forall>s. SecKeyCreateSignature h (key se) (dalg se) (cc_md_final h (mdc se)) = Some s
           \<longrightarrow> length s \<le> n"
  shows "state (snd (snd (snd (C_SignFinal_body h True n se)))) = NO_PENDING"
  using assms
  by (auto simp add: C_SignFinal_body_def Let_def sign_outfinish_def split: option.splits)

lemma cleared_by_completion:
  assumes "state se \<noteq> NO_PENDING" and "session_exec h tb c se = Some (rv, se1)"
    and "state se1 = NO_PENDING"
  shows "completes (state se) c"
proof (cases c)
  case (FindObjectsInit t)
  then show ?thesis using assms
    by (auto simp add: C_FindObjectsInit_body_def split: option.splits)
next
  case (FindObjects p n)
  then show ?thesis using assms
    by (auto simp add: C_FindObjects_body_def split: option.splits if_splits)
next
  case FindObjectsFinal
  then show ?thesis using assms by (auto simp add: C_FindObjectsFinal_body_def)
next
  case (GetAttributeValue obj t)
  then show ?thesis using assms by auto
next
  case (EncryptInit mech obj)
  then show ?thesis using assms init_keeps_active(1)[OF assms(1), of h tb mech obj] by auto
next
  case (Encrypt d p n)
  then show ?thesis using assms
    by (auto simp add: C_Encrypt_body_def clear_op_def split: if_splits option.splits)
next
  case (DecryptInit mech obj)
  then show ?thesis using assms init_keeps_active(2)[OF assms(1), of h tb mech obj] by auto
next
  case (Decrypt d p n)
  then show ?thesis using assms
    by (auto simp add: C_Decrypt_body_def clear_op_def split: if_splits option.splits)
next
  case (SignInit m obj)
  then show ?thesis using assms init_keeps_active(3)[OF assms(1), of h tb m obj] by auto
next
  case (Sign d p n)
  then show ?thesis using assms
    by (auto simp add: C_Sign_body_def clear_op_def split: if_splits option.splits)
next
  case (SignUpdate d)
  then show ?thesis using assms
    by (auto simp add: C_SignUpdate_body_def Let_def split: if_splits)
next
  case (SignFinal p n)
  then show ?thesis using assms
    by (auto simp add: C_SignFinal_body_def Let_def sign_outfinish_def
        split: if_splits option.splits)
next
  case (VerifyInit m obj)
  then show ?thesis using assms init_keeps_active(4)[OF assms(1), of h tb m obj] by auto
next
  case (Verify d s)
  then show ?thesis using assms by (auto simp add: C_Verify_body_def split: if_splits)
next
  case (VerifyUpdate d)
  then show ?thesis using assms
    by (auto simp add: C_VerifyUpdate_body_def Let_def split: if_splits)
next
  case (VerifyFinal s)
  then show ?thesis using assms
    by (auto simp add: C_VerifyFinal_body_def Let_def split: if_splits)
qed

lemma example_signing_eq:
  "example_signing =
     example_session\<lparr>alg := Some ''RSASignatureMessagePKCS1v15SHA256'',
                      dalg := Some ''RSASignatureDigestPKCS1v15SHA256'', hash_alg := 0x250,
                      key := Some 0, outsize := 256,
                      mdc := Some \<lparr>md_alg = 0x250, md_data = [0x68, 0x69]\<rparr>,
                      state := S_UPDATE\<rparr>"
proof -
  have o: "dec_ulong 3 = 2" by (simp add: dec_ulong_def)
  have i: "C_SignInit_body example_host example_tables (example_mech 0x40) 3 example_session =
     (CKR_OK,
      example_session\<lparr>alg := Some ''RSASignatureMessagePKCS1v15SHA256'',
                       dalg := Some ''RSASignatureDigestPKCS1v15SHA256'', hash_alg := 0x250,
                       key := Some 0, outsize := 256, state := S_INIT\<rparr>)"
    by (simp add: C_SignInit_body_def o get_mechmap_def mech_param_validate_def
        deref_alg_def example_mech_def example_session_def example_objs_def example_id_def
        op_outsize_def example_host_def example_tables_def CKO_defs CKF_SIGN_def)
  show ?thesis
    unfolding example_signing_def i
    by (simp add: C_SignUpdate_body_def Let_def cc_md_update_def example_host_def
        example_session_def)
qed

lemma example_verifying_eq:
  "example_verifying =
     example_session\<lparr>alg := Some ''RSASignatureMessagePKCS1v15SHA256'',
                      dalg := Some ''RSASignatureDigestPKCS1v15SHA256'', hash_alg := 0x250,
                      key := Some 1, outsize := 256,
                      mdc := Some \<lparr>md_alg = 0x250, md_data = [0x68, 0x69]\<rparr>,
                      state := V_UPDATE\<rparr>"
proof -
  have o: "dec_ulong 2 = 1" by (simp add: dec_ulong_def)
  have i: "C_VerifyInit_body example_host example_tables (example_mech 0x40) 2 example_session =
     (CKR_OK,
      example_session\<lparr>alg := Some ''RSASignatureMessagePKCS1v15SHA256'',
                       dalg := Some ''RSASignatureDigestPKCS1v15SHA256'', hash_alg := 0x250,
                       key := Some 1, outsize := 256, state := V_INIT\<rparr>)"
    by (simp add: C_VerifyInit_body_def o get_mechmap_def mech_param_validate_def
        deref_alg_def example_mech_def example_session_def example_objs_def example_id_def
        op_outsize_def example_host_def example_tables_def CKO_defs CKF_VERIFY_def)
  show ?thesis
    unfolding example_verifying_def i
    by (simp add: C_VerifyUpdate_body_def Let_def cc_md_update_def example_host_def
        example_session_def)
qed

text \<open>
  A size probe through \<^verbatim>\<open>C_SignFinal\<close>: in \<open>S_UPDATE\<close>, a call with a null signature buffer
  passes the state test, returns OK with the size, and the session is still in \<open>S_UPDATE\<close>.
\<close>

theorem SignFinal_probe_keeps_state:
  "state example_signing = S_UPDATE \<and>
   fst (C_SignFinal_body example_host False 0 example_signing) = CKR_OK \<and>
   state (snd (snd (snd (C_SignFinal_body example_host False 0 example_signing)))) \<noteq> NO_PENDING"
  by (simp add: example_signing_eq C_SignFinal_body_def)

text \<open>
  \<^verbatim>\<open>C_VerifyFinal\<close> in \<open>V_UPDATE\<close> with the right signature returns OK, and the session is
  still in \<open>V_UPDATE\<close> with its key.
\<close>

lemma VerifyFinal_keeps_state:
  "state example_verifying = V_UPDATE \<and>
   C_VerifyFinal_body example_host (replicate 256 0x5A) example_verifying =
     (CKR_OK, example_verifying\<lparr>mdc := None\<rparr>) \<and>
   state (example_verifying\<lparr>mdc := None\<rparr>) = V_UPDATE \<and>
   key (example_verifying\<lparr>mdc := None\<rparr>) = Some 1"
  by (simp add: example_verifying_eq C_VerifyFinal_body_def Let_def example_host_def)

text \<open>
  C1, as the code has it.  The operation state is \<open>NO_PENDING\<close> in the session a successful
  \<^verbatim>\<open>C_OpenSession\<close> returns; after a \<^verbatim>\<open>C_Encrypt\<close>, \<^verbatim>\<open>C_Decrypt\<close> or \<^verbatim>\<open>C_Sign\<close> that was given
  an output buffer and returns OK; after a \<^verbatim>\<open>C_Verify\<close> that passes its state test; and
  after a \<^verbatim>\<open>C_SignFinal\<close> that passes its state test with a buffer no smaller than the known
  output size, when the signature the host makes, if it makes one, fits the buffer.  A
  successful init leaves the corresponding init state, and a state other than \<open>NO_PENDING\<close>
  becomes \<open>NO_PENDING\<close> only through a single-shot, update or final call of the operation
  in progress that was given its output buffer.
\<close>

theorem operation_state_none:
  "(C_OpenSession fresh junk slot flags g = (CKR_OK, Some hdl, g1) \<and>
    sess_list_count g \<le> length (sess_list g)
      \<longrightarrow> (\<exists>i se0. CHECKSESSION hdl g1 = Some (i, se0) \<and> state se0 = NO_PENDING)) \<and>
   (C_Encrypt_body h indata True n se = (CKR_OK, out, n1, se1) \<longrightarrow> state se1 = NO_PENDING) \<and>
   (C_Decrypt_body h indata True n se = (CKR_OK, out, n1, se1) \<longrightarrow> state se1 = NO_PENDING) \<and>
   (C_Sign_body h indata True n se = (CKR_OK, out, n1, se1) \<longrightarrow> state se1 = NO_PENDING) \<and>
   (state se = V_INIT \<longrightarrow> state (snd (C_Verify_body h indata sig se)) = NO_PENDING) \<and>
   (state se = S_UPDATE \<and> (outsize se = 0 \<or> outsize se \<le> n) \<and>
    (\<forall>s. SecKeyCreateSignature h (key se) (dalg se) (cc_md_final h (mdc se)) = Some s
           \<longrightarrow> length s \<le> n)
      \<longrightarrow> state (snd (snd (snd (C_SignFinal_body h True n se)))) = NO_PENDING) \<and>
   (C_EncryptInit_body h tb mech obj se = (CKR_OK, se1) \<longrightarrow> state se1 = E_INIT) \<and>
   (C_DecryptInit_body h tb mech obj se = (CKR_OK, se1) \<longrightarrow> state se1 = D_INIT) \<and>
   (C_SignInit_body h tb m obj se = (CKR_OK, se1) \<longrightarrow> state se1 = S_INIT) \<and>
   (C_VerifyInit_body h tb m obj se = (CKR_OK, se1) \<longrightarrow> state se1 = V_INIT) \<and>
   (state se \<noteq> NO_PENDING \<and> session_exec h tb c se = Some (rv, se1) \<and>
    state se1 = NO_PENDING \<longrightarrow> completes (state se) c)"
  using OpenSession_state[of fresh junk slot flags g hdl g1]
    single_shot_clears[of h indata n se out n1 se1]
    Verify_clears[of se h indata sig] SignFinal_clears[of se n h]
    init_enters(1,2)[of h tb mech obj se se1] init_enters(3,4)[of h tb m obj se se1]
    cleared_by_completion[of se h tb c rv se1]
  by blast

theorem operation_state_none_witness:
  "C_OpenSession example_session (\<lambda>i. None) 0 CKF_SERIAL_SESSION
       (example_global example_slot_entry example_signing) =
     (CKR_OK, Some 2,
      (example_global example_slot_entry example_signing)
        \<lparr>heap := (\<lambda>a. example_slot_entry)(7 := example_slot_entry\<lparr>refcount := 3\<rparr>),
         sess_list := [Some example_signing,
                        Some (open_fields example_session 0 (Some 7)
                                (obj_list example_slot_entry) 3),
                        None, None, None],
         sess_list_count := 2\<rparr>) \<and>
   state (open_fields example_session 0 (Some 7) (obj_list example_slot_entry) 3) = NO_PENDING \<and>
   state example_signing = S_UPDATE \<and>
   C_SignFinal_body example_host True 256 example_signing =
     (CKR_OK, Some (replicate 256 0x5A), 256,
      sign_outfinish (example_signing\<lparr>mdc := None\<rparr>)) \<and>
   state (sign_outfinish (example_signing\<lparr>mdc := None\<rparr>)) = NO_PENDING \<and>
   completes (state example_signing) (SignFinal True 256)"
proof -
  define g where "g = example_global example_slot_entry example_signing"
  have c: "sess_list_count g \<le> length (sess_list g)" by (simp add: g_def example_global_def)
  have o: "C_OpenSession example_session (\<lambda>i. None) 0 CKF_SERIAL_SESSION g =
     (CKR_OK, Some 2,
      (example_global example_slot_entry example_signing)
        \<lparr>heap := (\<lambda>a. example_slot_entry)(7 := example_slot_entry\<lparr>refcount := 3\<rparr>),
         sess_list := [Some example_signing,
                        Some (open_fields example_session 0 (Some 7)
                                (obj_list example_slot_entry) 3),
                        None, None, None],
         sess_list_count := 2\<rparr>)"
    by (simp add: C_OpenSession_def CHECKSLOT_def g_def example_global_def store_session_def
        CERTIFICATE_SLOT_def CKF_SERIAL_SESSION_def Let_def example_slot_entry_def)
  have f: "C_SignFinal_body example_host True 256 example_signing =
     (CKR_OK, Some (replicate 256 0x5A), 256, sign_outfinish (example_signing\<lparr>mdc := None\<rparr>))"
    by (simp add: example_signing_eq C_SignFinal_body_def Let_def example_host_def)
  have e: "session_exec example_host example_tables (SignFinal True 256) example_signing =
      Some (CKR_OK, sign_outfinish (example_signing\<lparr>mdc := None\<rparr>))"
    by (simp add: f)
  have s: "state example_signing = S_UPDATE" by (simp add: example_signing_eq)
  have n: "state example_signing \<noteq> NO_PENDING" by (simp add: s)
  note t = operation_state_none[where g = g and fresh = example_session
      and junk = "\<lambda>i. None" and slot = 0 and flags = CKF_SERIAL_SESSION and hdl = 2
      and se = example_signing and h = example_host and tb = example_tables
      and c = "SignFinal True 256" and rv = CKR_OK
      and ?se1.0 = "sign_outfinish (example_signing\<lparr>mdc := None\<rparr>)"]
  have k: "state (sign_outfinish (example_signing\<lparr>mdc := None\<rparr>)) = NO_PENDING"
    by (simp add: sign_outfinish_def)
  from t e n k have "completes (state example_signing) (SignFinal True 256)" by blast
  then show ?thesis using o f s k unfolding g_def by (simp add: open_fields_def)
qed

subsection \<open>The reference count\<close>

lemma count_list_update:
  "i < length xs \<Longrightarrow>
   count_list (xs[i := y]) z + (if xs ! i = z then 1 else 0) =
   count_list xs z + (if y = z then 1 else 0)"
proof (induction xs arbitrary: i)
  case Nil
  then show ?case by simp
next
  case (Cons x xs)
  show ?case
  proof (cases i)
    case 0
    then show ?thesis by simp
  next
    case (Suc j)
    then have "j < length xs" using Cons.prems by simp
    from Cons.IH[OF this] show ?thesis using Suc by (auto split: if_splits)
  qed
qed

lemma count_list_nth: "i < length xs \<Longrightarrow> 0 < count_list xs (xs ! i)"
  by (induction xs arbitrary: i) (auto simp add: nth_Cons split: nat.splits)

lemma open_sessions_update:
  "i < length ss \<Longrightarrow>
   open_sessions (ss[i := c]) a + (if bound_token (ss ! i) = Some a then 1 else 0) =
   open_sessions ss a + (if bound_token c = Some a then 1 else 0)"
  using count_list_update[of i "map bound_token ss" "bound_token c" "Some a"]
  by (simp add: open_sessions_def map_update)

lemma open_sessions_le: "open_sessions ss a \<le> length ss"
  using count_le_length[of "map bound_token ss" "Some a"] by (simp add: open_sessions_def)

lemma unat_dec: "(w :: 32 word) \<noteq> 0 \<Longrightarrow> unat (w - 1) = unat w - 1"
  by (simp add: unat_minus_one)

lemma unat_inc: "unat (w :: 32 word) + 1 < 2 ^ 32 \<Longrightarrow> unat (w + 1) = unat w + 1"
  using unat_add_lem[of w 1] by simp

lemma refcount_token_logout [simp]: "refcount (token_logout t) = refcount t"
  by (simp add: token_logout_def)

lemma slot_entry_free_frame [simp]:
  "slot_list (slot_entry_free a lo g) = slot_list g"
  "sess_list (slot_entry_free a lo g) = sess_list g"
  "sess_list_count (slot_entry_free a lo g) = sess_list_count g"
  "module_initialized (slot_entry_free a lo g) = module_initialized g"
  by (simp_all add: slot_entry_free_def Let_def)

text \<open>Dropping one reference to \<open>a\<close> and calling \<^verbatim>\<open>slot_entry_free\<close> keeps the counts right.\<close>

lemma counted_free:
  assumes c: "counted sl ss (heap g) (allocated g)"
    and r: "\<And>b. refs sl1 ss1 b + (if b = a then 1 else 0) = refs sl ss b"
    and s: "\<And>b. count_list sl1 (Some b) \<le> 1"
  shows "counted sl1 ss1 (heap (slot_entry_free a lo g)) (allocated (slot_entry_free a lo g))"
proof -
  define g1 where "g1 = slot_entry_free a lo g"
  from r[of a] have pos: "0 < refs sl ss a" by simp
  from c pos have al: "a \<in> allocated g" and u: "unat (refcount (heap g a)) = refs sl ss a"
    by (auto simp add: counted_def split: if_splits)
  from u pos have n0: "refcount (heap g a) \<noteq> 0" by auto
  have u1: "unat (refcount (heap g a) - 1) = refs sl1 ss1 a"
    using unat_dec[OF n0] u r[of a] by simp
  have z: "(refcount (heap g a) - 1 = 0) = (refs sl1 ss1 a = 0)"
    using u1 by (metis unat_eq_0)
  have "(if b \<in> allocated g1
         then unat (refcount (heap g1 b)) = refs sl1 ss1 b \<and> 0 < refs sl1 ss1 b
         else refs sl1 ss1 b = 0)" for b
  proof (cases "b = a")
    case True
    show ?thesis
    proof (cases "refs sl1 ss1 a = 0")
      case True
      then have "refcount (heap g a) - 1 = 0" using z by simp
      then have "a \<notin> allocated g1" by (simp add: g1_def slot_entry_free_def Let_def)
      then show ?thesis using True \<open>b = a\<close> by simp
    next
      case False
      then have w: "0 < refcount (heap g a) - 1" using z by (simp add: word_gt_0)
      then have "a \<in> allocated g1" and "refcount (heap g1 a) = refcount (heap g a) - 1"
        using al by (simp_all add: g1_def slot_entry_free_def Let_def)
      then show ?thesis using False u1 \<open>b = a\<close> by simp
    qed
  next
    case False
    then have "(b \<in> allocated g1) = (b \<in> allocated g)" and "heap g1 b = heap g b"
      by (auto simp add: g1_def slot_entry_free_def Let_def)
    moreover have "refs sl1 ss1 b = refs sl ss b" using r[of b] False by simp
    ultimately show ?thesis using c by (simp add: counted_def)
  qed
  then show ?thesis using s unfolding counted_def g1_def by blast
qed

text \<open>Adding one reference to an allocated \<open>a\<close> and incrementing its count.\<close>

lemma counted_open:
  assumes c: "counted sl ss hp al" and al: "a \<in> al"
    and r: "\<And>b. refs sl ss1 b = refs sl ss b + (if b = a then 1 else 0)"
    and bound: "refs sl ss1 a < 2 ^ 32"
  shows "counted sl ss1 (hp(a := (hp a)\<lparr>refcount := refcount (hp a) + 1\<rparr>)) al"
proof -
  from c al have u: "unat (refcount (hp a)) = refs sl ss a" by (auto simp add: counted_def)
  have n: "unat (refcount (hp a) + 1) = refs sl ss1 a"
    using unat_inc[of "refcount (hp a)"] u r[of a] bound by simp
  have "(if b \<in> al
         then unat (refcount ((hp(a := (hp a)\<lparr>refcount := refcount (hp a) + 1\<rparr>)) b)) =
              refs sl ss1 b \<and> 0 < refs sl ss1 b
         else refs sl ss1 b = 0)" for b
  proof (cases "b = a")
    case True
    then show ?thesis using al n r[of a] by simp
  next
    case False
    from c have "if b \<in> al then unat (refcount (hp b)) = refs sl ss b \<and> 0 < refs sl ss b
        else refs sl ss b = 0"
      unfolding counted_def by blast
    then show ?thesis using False r[of b] by simp
  qed
  moreover from c have "count_list sl (Some b) \<le> 1" for b unfolding counted_def by blast
  ultimately show ?thesis unfolding counted_def by blast
qed

text \<open>The counts depend on the heap through the \<^verbatim>\<open>refcount\<close> fields alone.\<close>

lemma counted_cong:
  assumes "counted sl ss hp al"
    and "\<And>b. refcount (hp1 b) = refcount (hp b)"
    and "\<And>b. count_list sl1 (Some b) = count_list sl (Some b)"
    and "\<And>b. open_sessions ss1 b = open_sessions ss b"
  shows "counted sl1 ss1 hp1 al"
proof -
  have "count_list sl1 (Some b) \<le> 1 \<and>
        (if b \<in> al then unat (refcount (hp1 b)) = refs sl1 ss1 b \<and> 0 < refs sl1 ss1 b
         else refs sl1 ss1 b = 0)" for b
  proof -
    from assms(1) have "count_list sl (Some b) \<le> 1 \<and>
        (if b \<in> al then unat (refcount (hp b)) = refs sl ss b \<and> 0 < refs sl ss b
         else refs sl ss b = 0)"
      unfolding counted_def by blast
    moreover have "refs sl1 ss1 b = refs sl ss b" by (simp add: refs_def assms(3,4))
    ultimately show ?thesis by (simp add: assms(2,3))
  qed
  then show ?thesis unfolding counted_def by blast
qed

lemma nth_fold_clear:
  "i < length xs \<Longrightarrow>
   fold (\<lambda>i xs. xs[i := v]) js xs ! i = (if i \<in> set js then v else xs ! i)"
  by (induction js arbitrary: xs) (auto simp add: nth_list_update)

lemma open_sessions_append:
  "open_sessions (xs @ ys) a = open_sessions xs a + open_sessions ys a"
  by (simp add: open_sessions_def)

lemma store_session_length:
  "store_session junk sess g = (hdl, g1) \<Longrightarrow> length (sess_list g) \<le> length (sess_list g1)"
  by (auto simp add: store_session_def Let_def length_realloc_cells split: option.splits)

lemma store_session_frame:
  assumes "store_session junk sess g = (hdl, g1)"
  shows "slot_list g1 = slot_list g" "heap g1 = heap g" "allocated g1 = allocated g"
    "module_initialized g1 = module_initialized g"
  using assms by (auto simp add: store_session_def Let_def split: option.splits)

text \<open>
  When the table has to grow every cell is in use, so the five new cells are the session
  and four cleared cells.
\<close>

lemma store_session_grow:
  assumes c: "sess_list_count g \<le> length (sess_list g)"
    and n: "\<forall>i. sess_list_count g \<le> i \<and> i < length (sess_list g) \<longrightarrow> sess_list g ! i = None"
    and f: "first_free (sess_list g) 0 = None"
    and s: "store_session junk sess g = (hdl, g1)"
  shows "sess_list g1 = sess_list g @ [Some sess, None, None, None, None]"
    and "sess_list_count g1 = length (sess_list g) + 1"
proof -
  define ss where "ss = sess_list g"
  have full: "sess_list_count g = length ss"
  proof (rule ccontr)
    assume "sess_list_count g \<noteq> length ss"
    then have lt: "sess_list_count g < length ss" using c by (simp add: ss_def)
    then have "ss ! sess_list_count g = None" using n by (simp add: ss_def)
    moreover have "ss ! sess_list_count g \<in> set ss" using lt by simp
    ultimately show False using first_free_None[OF f] by (auto simp add: ss_def)
  qed
  define n where "n = length ss + 5"
  define xs2 where "xs2 = fold (\<lambda>i xs. xs[i := None]) [length ss + 1..<n]
      (realloc_cells junk ss n)"
  have g1: "g1 = g\<lparr>sess_list := xs2[length ss := Some sess],
                    sess_list_count := length ss + 1\<rparr>"
    using s f full by (auto simp add: store_session_def Let_def xs2_def n_def ss_def)
  have l: "length xs2 = n" by (simp add: xs2_def length_realloc_cells n_def)
  have r: "length (realloc_cells junk ss n) = n" by (simp add: length_realloc_cells n_def)
  have e: "xs2[length ss := Some sess] = ss @ [Some sess, None, None, None, None]"
  proof (rule nth_equalityI)
    show "length (xs2[length ss := Some sess]) = length (ss @ [Some sess, None, None, None, None])"
      by (simp add: l n_def)
  next
    fix i
    assume "i < length (xs2[length ss := Some sess])"
    then have i: "i < n" by (simp add: l)
    have x: "xs2 ! i = (if length ss + 1 \<le> i then None else realloc_cells junk ss n ! i)"
      unfolding xs2_def using nth_fold_clear[of i "realloc_cells junk ss n" None
          "[length ss + 1..<n]"] i r by simp
    show "xs2[length ss := Some sess] ! i = (ss @ [Some sess, None, None, None, None]) ! i"
    proof (cases "i < length ss")
      case True
      then show ?thesis using x by (simp add: nth_append realloc_cells_def n_def)
    next
      case False
      then have "i = length ss \<or> i = length ss + 1 \<or> i = length ss + 2 \<or>
          i = length ss + 3 \<or> i = length ss + 4"
        using i by (auto simp add: n_def)
      then show ?thesis using x l by (auto simp add: nth_append n_def)
    qed
  qed
  show "sess_list g1 = sess_list g @ [Some sess, None, None, None, None]"
    using g1 e by (simp add: ss_def)
  show "sess_list_count g1 = length (sess_list g) + 1" using g1 by (simp add: ss_def)
qed

lemma store_session_table:
  assumes c: "sess_list_count g \<le> length (sess_list g)"
    and n: "\<forall>i. sess_list_count g \<le> i \<and> i < length (sess_list g) \<longrightarrow> sess_list g ! i = None"
    and s: "store_session junk sess g = (hdl, g1)"
  shows "sess_list_count g1 \<le> length (sess_list g1)"
    and "\<forall>i. sess_list_count g1 \<le> i \<and> i < length (sess_list g1) \<longrightarrow> sess_list g1 ! i = None"
    and "open_sessions (sess_list g1) b =
         open_sessions (sess_list g) b + (if token sess = Some b then 1 else 0)"
proof -
  have "sess_list_count g1 \<le> length (sess_list g1) \<and>
        (\<forall>i. sess_list_count g1 \<le> i \<and> i < length (sess_list g1) \<longrightarrow> sess_list g1 ! i = None) \<and>
        open_sessions (sess_list g1) b =
          open_sessions (sess_list g) b + (if token sess = Some b then 1 else 0)"
  proof (cases "first_free (sess_list g) 0")
    case (Some i)
    from first_free_Some[OF Some] have i: "i < length (sess_list g)"
      and e: "sess_list g ! i = None" by simp_all
    have g1: "g1 = g\<lparr>sess_list := (sess_list g)[i := Some sess],
        sess_list_count := (if i \<ge> sess_list_count g then i + 1 else sess_list_count g)\<rparr>"
      using s Some by (auto simp add: store_session_def)
    have "open_sessions (sess_list g1) b =
          open_sessions (sess_list g) b + (if token sess = Some b then 1 else 0)"
      using open_sessions_update[OF i, of "Some sess" b] e by (simp add: g1 bound_token_def)
    moreover have "sess_list_count g1 \<le> length (sess_list g1)" using i c by (simp add: g1)
    moreover have "\<forall>j. sess_list_count g1 \<le> j \<and> j < length (sess_list g1)
        \<longrightarrow> sess_list g1 ! j = None"
      using n i by (auto simp add: g1 nth_list_update split: if_splits)
    ultimately show ?thesis by blast
  next
    case None
    note e = store_session_grow[OF c n None s]
    have "open_sessions (sess_list g1) b =
          open_sessions (sess_list g) b + (if token sess = Some b then 1 else 0)"
      by (simp add: e(1) open_sessions_append) (simp add: open_sessions_def bound_token_def)
    moreover have "sess_list_count g1 \<le> length (sess_list g1)" by (simp add: e)
    moreover have "\<forall>j. sess_list_count g1 \<le> j \<and> j < length (sess_list g1)
        \<longrightarrow> sess_list g1 ! j = None"
    proof (intro allI impI)
      fix j
      assume "sess_list_count g1 \<le> j \<and> j < length (sess_list g1)"
      then have "j = length (sess_list g) + 1 \<or> j = length (sess_list g) + 2 \<or>
          j = length (sess_list g) + 3 \<or> j = length (sess_list g) + 4"
        by (auto simp add: e)
      then show "sess_list g1 ! j = None" by (auto simp add: e(1) nth_append)
    qed
    ultimately show ?thesis by blast
  qed
  then show "sess_list_count g1 \<le> length (sess_list g1)"
    and "\<forall>i. sess_list_count g1 \<le> i \<and> i < length (sess_list g1) \<longrightarrow> sess_list g1 ! i = None"
    and "open_sessions (sess_list g1) b =
         open_sessions (sess_list g) b + (if token sess = Some b then 1 else 0)"
    by blast+
qed

text \<open>No call on a session changes the token it is bound to.\<close>

lemma init_token:
  "token (snd (C_EncryptInit_body h tb mech obj se)) = token se"
  "token (snd (C_DecryptInit_body h tb mech obj se)) = token se"
  "token (snd (C_SignInit_body h tb m obj se)) = token se"
  "token (snd (C_VerifyInit_body h tb m obj se)) = token se"
  by (simp_all add: C_EncryptInit_body_def C_DecryptInit_body_def C_SignInit_body_def
      C_VerifyInit_body_def Let_def split: option.splits)

lemma single_shot_token:
  "token (snd (snd (snd (C_Encrypt_body h indata p n se)))) = token se"
  "token (snd (snd (snd (C_Decrypt_body h indata p n se)))) = token se"
  "token (snd (snd (snd (C_Sign_body h indata p n se)))) = token se"
  "token (snd (snd (snd (C_SignFinal_body h p n se)))) = token se"
  by (simp_all add: C_Encrypt_body_def C_Decrypt_body_def C_Sign_body_def C_SignFinal_body_def
      clear_op_def sign_outfinish_def Let_def split: option.splits)

lemma update_token:
  "token (snd (C_SignUpdate_body h indata se)) = token se"
  "token (snd (C_VerifyUpdate_body h indata se)) = token se"
  "token (snd (C_Verify_body h indata sig se)) = token se"
  "token (snd (C_VerifyFinal_body h sig se)) = token se"
  by (simp_all add: C_SignUpdate_body_def C_VerifyUpdate_body_def C_Verify_body_def
      C_VerifyFinal_body_def Let_def)

lemma session_exec_token:
  assumes "session_exec h tb c se = Some (rv, se1)"
  shows "token se1 = token se"
proof (cases c)
  case (FindObjectsInit t)
  then show ?thesis using assms
    by (auto simp add: C_FindObjectsInit_body_def split: option.splits)
next
  case (FindObjects p n)
  then show ?thesis using assms
    by (auto simp add: C_FindObjects_body_def split: option.splits if_splits)
next
  case FindObjectsFinal
  then show ?thesis using assms by (auto simp add: C_FindObjectsFinal_body_def)
next
  case (GetAttributeValue obj t)
  then show ?thesis using assms by auto
next
  case (EncryptInit mech obj)
  then show ?thesis using assms init_token(1)[of h tb mech obj se] by auto
next
  case (Encrypt d p n)
  then show ?thesis using assms single_shot_token(1)[of h d p n se]
    by (auto split: prod.splits)
next
  case (DecryptInit mech obj)
  then show ?thesis using assms init_token(2)[of h tb mech obj se] by auto
next
  case (Decrypt d p n)
  then show ?thesis using assms single_shot_token(2)[of h d p n se]
    by (auto split: prod.splits)
next
  case (SignInit m obj)
  then show ?thesis using assms init_token(3)[of h tb m obj se] by auto
next
  case (Sign d p n)
  then show ?thesis using assms single_shot_token(3)[of h d p n se]
    by (auto split: prod.splits)
next
  case (SignUpdate d)
  then show ?thesis using assms update_token(1)[of h d se] by auto
next
  case (SignFinal p n)
  then show ?thesis using assms single_shot_token(4)[of h p n se]
    by (auto split: prod.splits)
next
  case (VerifyInit m obj)
  then show ?thesis using assms init_token(4)[of h tb m obj se] by auto
next
  case (Verify d s)
  then show ?thesis using assms update_token(3)[of h d s se] by auto
next
  case (VerifyUpdate d)
  then show ?thesis using assms update_token(2)[of h d se] by auto
next
  case (VerifyFinal s)
  then show ?thesis using assms update_token(4)[of h s se] by auto
qed

text \<open>The object builder does not touch the count.\<close>

lemma refcount_macros [simp]:
  "refcount (OBJINIT p e) = refcount e"
  "refcount (set_class c e) = refcount e"
  "refcount (ADD_ATTR_SIZE a v s e) = refcount e"
  "refcount (ADD_ATTR_ULONG a n e) = refcount e"
  "refcount (ADD_ATTR_BBOOL a b e) = refcount e"
  "refcount (ADD_ATTR_OPT a d e) = refcount e"
  "refcount (NEW_OBJECT u e) = refcount e"
  by (simp_all add: OBJINIT_def set_class_def ADD_ATTR_SIZE_def ADD_ATTR_ULONG_def
      ADD_ATTR_BBOOL_def ADD_ATTR_OPT_def NEW_OBJECT_def Let_def split: option.splits)

lemma refcount_build_object:
  "refcount (build_cert_object h objid idp e) = refcount e"
  "refcount (build_pubkey_object h objid idp e) = refcount e"
  "refcount (build_privkey_object h objid idp e) = refcount e"
  by (simp_all add: build_cert_object_def build_pubkey_object_def build_privkey_object_def
      Let_def split: prod.splits option.splits bool.splits)

lemma refcount_build_identity: "refcount (build_identity h u e i) = refcount e"
  by (simp add: build_identity_def Let_def refcount_build_object)

lemma refcount_build_loop: "refcount (foldl (build_identity h u) e js) = refcount e"
  by (induction js arbitrary: e) (simp_all add: refcount_build_identity)

lemma refcount_build_id_objects: "refcount (build_id_objects h u e) = refcount e"
  by (simp add: build_id_objects_def Let_def refcount_build_loop)

lemma token_fields_macros [simp]:
  "tokenid (OBJINIT p e) = tokenid e"
  "tokenid (set_class c e) = tokenid e"
  "tokenid (ADD_ATTR_SIZE a v s e) = tokenid e"
  "tokenid (ADD_ATTR_ULONG a n e) = tokenid e"
  "tokenid (ADD_ATTR_BBOOL a b e) = tokenid e"
  "tokenid (ADD_ATTR_OPT a d e) = tokenid e"
  "tokenid (NEW_OBJECT u e) = tokenid e"
  "lacontext (OBJINIT p e) = lacontext e"
  "lacontext (set_class c e) = lacontext e"
  "lacontext (ADD_ATTR_SIZE a v s e) = lacontext e"
  "lacontext (ADD_ATTR_ULONG a n e) = lacontext e"
  "lacontext (ADD_ATTR_BBOOL a b e) = lacontext e"
  "lacontext (ADD_ATTR_OPT a d e) = lacontext e"
  "lacontext (NEW_OBJECT u e) = lacontext e"
  "logged_in (OBJINIT p e) = logged_in e"
  "logged_in (set_class c e) = logged_in e"
  "logged_in (ADD_ATTR_SIZE a v s e) = logged_in e"
  "logged_in (ADD_ATTR_ULONG a n e) = logged_in e"
  "logged_in (ADD_ATTR_BBOOL a b e) = logged_in e"
  "logged_in (ADD_ATTR_OPT a d e) = logged_in e"
  "logged_in (NEW_OBJECT u e) = logged_in e"
  by (simp_all add: OBJINIT_def set_class_def ADD_ATTR_SIZE_def ADD_ATTR_ULONG_def
      ADD_ATTR_BBOOL_def ADD_ATTR_OPT_def NEW_OBJECT_def Let_def split: option.splits)

lemma token_fields_build_object:
  "tokenid (build_cert_object h objid idp e) = tokenid e"
  "tokenid (build_pubkey_object h objid idp e) = tokenid e"
  "tokenid (build_privkey_object h objid idp e) = tokenid e"
  "lacontext (build_cert_object h objid idp e) = lacontext e"
  "lacontext (build_pubkey_object h objid idp e) = lacontext e"
  "lacontext (build_privkey_object h objid idp e) = lacontext e"
  "logged_in (build_cert_object h objid idp e) = logged_in e"
  "logged_in (build_pubkey_object h objid idp e) = logged_in e"
  "logged_in (build_privkey_object h objid idp e) = logged_in e"
  by (simp_all add: build_cert_object_def build_pubkey_object_def build_privkey_object_def
      Let_def split: prod.splits option.splits bool.splits)

lemma token_fields_build_identity:
  "tokenid (build_identity h u e i) = tokenid e"
  "lacontext (build_identity h u e i) = lacontext e"
  "logged_in (build_identity h u e i) = logged_in e"
  by (simp_all add: build_identity_def Let_def token_fields_build_object)

lemma token_fields_build_loop:
  "tokenid (foldl (build_identity h u) e js) = tokenid e"
  "lacontext (foldl (build_identity h u) e js) = lacontext e"
  "logged_in (foldl (build_identity h u) e js) = logged_in e"
  by (induction js arbitrary: e) (simp_all add: token_fields_build_identity)

lemma token_fields_build_id_objects:
  "tokenid (build_id_objects h u e) = tokenid e"
  "lacontext (build_id_objects h u e) = lacontext e"
  "logged_in (build_id_objects h u e) = logged_in e"
  by (simp_all add: build_id_objects_def Let_def token_fields_build_loop)

lemma find_token_Some:
  "find_token hp tid ps k = Some (i, a) \<Longrightarrow> k \<le> i \<and> i - k < length ps \<and> ps ! (i - k) = Some a"
proof (induction ps arbitrary: k)
  case Nil
  then show ?case by simp
next
  case (Cons p ps)
  show ?case
  proof (cases "find_token hp tid ps (Suc k) = Some (i, a)")
    case True
    from Cons.IH[OF this] show ?thesis by (auto simp add: Suc_diff_le)
  next
    case False
    then show ?thesis using Cons.prems by (auto split: option.splits if_splits)
  qed
qed

text \<open>
  \<^verbatim>\<open>remove_token_id\<close> finds the first slot whose token has the identifier, and finds none
  only when no slot holds such a token.
\<close>

lemma find_token_first:
  assumes "j < length ps" and "ps ! j = Some a" and "tokenid (hp a) = tid"
    and "\<forall>i < j. \<forall>b. ps ! i = Some b \<longrightarrow> tokenid (hp b) \<noteq> tid"
  shows "find_token hp tid ps k = Some (k + j, a)"
  using assms
proof (induction ps arbitrary: j k)
  case Nil
  then show ?case by simp
next
  case (Cons p ps)
  show ?case
  proof (cases j)
    case 0
    then show ?thesis using Cons.prems by simp
  next
    case (Suc j1)
    have h: "p = None \<or> (\<exists>b. p = Some b \<and> tokenid (hp b) \<noteq> tid)"
      using Cons.prems(4)[rule_format, of 0] Suc by (cases p) auto
    have "\<forall>i < j1. \<forall>b. ps ! i = Some b \<longrightarrow> tokenid (hp b) \<noteq> tid"
    proof (intro allI impI)
      fix i b assume "i < j1" and "ps ! i = Some b"
      then show "tokenid (hp b) \<noteq> tid"
        using Cons.prems(4)[rule_format, of "Suc i" b] Suc by simp
    qed
    from Cons.IH[OF _ _ Cons.prems(3) this, of "Suc k"] Cons.prems(1,2) Suc
    have "find_token hp tid ps (Suc k) = Some (Suc k + j1, a)" by simp
    then show ?thesis using h Suc by auto
  qed
qed

lemma find_token_None:
  "(find_token hp tid ps k = None) = (\<forall>b. Some b \<in> set ps \<longrightarrow> tokenid (hp b) \<noteq> tid)"
  by (induction ps arbitrary: k) (auto split: option.splits)


text \<open>The invariant is kept by every step.  First the steps that leave the counts alone.\<close>

lemma inv_initial: "refcount_inv (initial_global hp)"
  by (simp add: refcount_inv_def table_ok_def counted_def refs_def open_sessions_def
      initial_global_def)

lemma Initialize_inv:
  assumes "refcount_inv g" and "C_Initialize p c g = (rv, g1)"
  shows "refcount_inv g1"
proof (cases "module_initialized g \<or> p")
  case True
  then have "g1 = g" using assms(2) by (auto simp add: C_Initialize_def split: if_splits)
  then show ?thesis using assms(1) by simp
next
  case False
  then have e: "slot_list g = []" using assms(1) by (simp add: refcount_inv_def table_ok_def)
  have g1: "slot_list g1 = [None]" "sess_list g1 = sess_list g" "heap g1 = heap g"
    "allocated g1 = allocated g" "sess_list_count g1 = sess_list_count g"
    "module_initialized g1"
    using assms(2) False by (auto simp add: C_Initialize_def)
  have "counted [] (sess_list g) (heap g) (allocated g)"
    using assms(1) e by (simp add: refcount_inv_def)
  from counted_cong[OF this, of "heap g" "[None]" "sess_list g"]
  have "counted [None] (sess_list g) (heap g) (allocated g)" by simp
  then show ?thesis using assms(1) g1 by (simp add: refcount_inv_def table_ok_def)
qed

lemma scan_inv: "refcount_inv g \<Longrightarrow> refcount_inv (background_cert_scan objs cnt g)"
  by (simp add: refcount_inv_def table_ok_def background_cert_scan_def)

lemma heap_change_inv:
  assumes "refcount_inv g" and "\<And>b. refcount (hp b) = refcount (heap g b)"
  shows "refcount_inv (g\<lparr>heap := hp\<rparr>)"
proof -
  from assms(1) have "counted (slot_list g) (sess_list g) (heap g) (allocated g)"
    by (simp add: refcount_inv_def)
  from counted_cong[OF this, of hp "slot_list g" "sess_list g"] assms(2)
  have "counted (slot_list g) (sess_list g) hp (allocated g)" by simp
  then show ?thesis using assms(1) by (simp add: refcount_inv_def table_ok_def)
qed

lemma Login_inv:
  assumes "refcount_inv g" and "C_Login h session pin g = (rv, calls, g1)"
  shows "refcount_inv g1"
proof -
  have "g1 = g \<or> (\<exists>a. g1 = g\<lparr>heap := (heap g)(a := (heap g a)\<lparr>logged_in := True\<rparr>)\<rparr>)"
    using assms(2)
    by (auto simp add: C_Login_def Let_def split: if_splits option.splits prod.splits)
  then show ?thesis
  proof
    assume "g1 = g"
    then show ?thesis using assms(1) by simp
  next
    assume "\<exists>a. g1 = g\<lparr>heap := (heap g)(a := (heap g a)\<lparr>logged_in := True\<rparr>)\<rparr>"
    then obtain a where "g1 = g\<lparr>heap := (heap g)(a := (heap g a)\<lparr>logged_in := True\<rparr>)\<rparr>"
      by blast
    then show ?thesis using heap_change_inv[OF assms(1)] by simp
  qed
qed

lemma Logout_inv:
  assumes "refcount_inv g" and "C_Logout session g = (rv, g1)"
  shows "refcount_inv g1"
proof -
  have "g1 = g \<or> (\<exists>a. g1 = g\<lparr>heap := (heap g)(a := token_logout (heap g a))\<rparr>)"
    using assms(2)
    by (auto simp add: C_Logout_def split: if_splits option.splits prod.splits)
  then show ?thesis
  proof
    assume "g1 = g"
    then show ?thesis using assms(1) by simp
  next
    assume "\<exists>a. g1 = g\<lparr>heap := (heap g)(a := token_logout (heap g a))\<rparr>"
    then obtain a where "g1 = g\<lparr>heap := (heap g)(a := token_logout (heap g a))\<rparr>" by blast
    then show ?thesis using heap_change_inv[OF assms(1)] by simp
  qed
qed

lemma CHECKSESSION_Some:
  "CHECKSESSION session g = Some (i, se) \<Longrightarrow>
   i < sess_list_count g \<and> sess_list g ! i = Some se"
  by (auto simp add: CHECKSESSION_def Let_def split: if_splits option.splits)

lemma session_call_inv:
  assumes inv: "refcount_inv g" and c: "C_session_call h tb session c g = Some (rv, g1)"
  shows "refcount_inv g1"
proof (cases "module_initialized g")
  case False
  then have "g1 = g" using c by (simp add: C_session_call_def)
  then show ?thesis using inv by simp
next
  case True
  show ?thesis
  proof (cases "CHECKSESSION session g")
    case None
    then have "g1 = g" using c True by (simp add: C_session_call_def)
    then show ?thesis using inv by simp
  next
    case (Some p)
    obtain i se where p: "p = (i, se)" by (cases p)
    from CHECKSESSION_Some[OF Some[unfolded p]] inv
    have i: "i < length (sess_list g)" and se: "sess_list g ! i = Some se"
      and ic: "i < sess_list_count g"
      by (simp_all add: refcount_inv_def table_ok_def)
    from c True Some p obtain se1 where e: "session_exec h tb c se = Some (rv, se1)"
      and g1: "g1 = g\<lparr>sess_list := (sess_list g)[i := Some se1]\<rparr>"
      by (auto simp add: C_session_call_def)
    have t: "token se1 = token se" by (rule session_exec_token[OF e])
    have o: "open_sessions ((sess_list g)[i := Some se1]) b = open_sessions (sess_list g) b"
      for b
      using open_sessions_update[OF i, of "Some se1" b] se t by (simp add: bound_token_def)
    from inv have "counted (slot_list g) (sess_list g) (heap g) (allocated g)"
      by (simp add: refcount_inv_def)
    from counted_cong[OF this, of "heap g" "slot_list g" "(sess_list g)[i := Some se1]"] o
    have "counted (slot_list g) ((sess_list g)[i := Some se1]) (heap g) (allocated g)" by simp
    moreover have "table_ok g1"
      using inv i ic by (auto simp add: g1 refcount_inv_def table_ok_def nth_list_update)
    ultimately show ?thesis by (simp add: refcount_inv_def g1)
  qed
qed

text \<open>Closing the session in cell \<open>i\<close>.\<close>

lemma close_index_inv:
  assumes inv: "refcount_inv g" and i: "i < length (sess_list g)"
    and se: "sess_list g ! i = Some se"
  shows "refcount_inv ((sess_free se g)\<lparr>sess_list := (sess_list (sess_free se g))[i := None]\<rparr>)"
proof -
  define g1 where "g1 = sess_free se g"
  have f: "slot_list g1 = slot_list g" "sess_list g1 = sess_list g"
    "sess_list_count g1 = sess_list_count g" "module_initialized g1 = module_initialized g"
    by (simp_all add: g1_def sess_free_def split: option.splits)
  from inv have c: "counted (slot_list g) (sess_list g) (heap g) (allocated g)"
    by (simp add: refcount_inv_def)
  have "counted (slot_list g) ((sess_list g)[i := None]) (heap g1) (allocated g1)"
  proof (cases "token se")
    case None
    then have g: "g1 = g" by (simp add: g1_def sess_free_def)
    have "open_sessions ((sess_list g)[i := None]) b = open_sessions (sess_list g) b" for b
      using open_sessions_update[OF i, of None b] se None by (simp add: bound_token_def)
    from counted_cong[OF c, of "heap g" "slot_list g" "(sess_list g)[i := None]"] this
    show ?thesis by (simp add: g)
  next
    case (Some a)
    then have g: "g1 = slot_entry_free a True g" by (simp add: g1_def sess_free_def)
    have r: "refs (slot_list g) ((sess_list g)[i := None]) b + (if b = a then 1 else 0) =
        refs (slot_list g) (sess_list g) b" for b
      using open_sessions_update[OF i, of None b] se Some
      by (auto simp add: bound_token_def refs_def)
    have s: "count_list (slot_list g) (Some b) \<le> 1" for b
      using c unfolding counted_def by blast
    show ?thesis unfolding g by (rule counted_free[OF c r s])
  qed
  moreover have "table_ok (g1\<lparr>sess_list := (sess_list g1)[i := None]\<rparr>)"
    using inv i by (auto simp add: f refcount_inv_def table_ok_def nth_list_update)
  ultimately show ?thesis by (simp add: refcount_inv_def f g1_def[symmetric])
qed

lemma CloseSession_inv:
  assumes inv: "refcount_inv g" and c: "C_CloseSession session g = (rv, g1)"
  shows "refcount_inv g1"
proof (cases "module_initialized g \<and> CHECKSESSION session g \<noteq> None")
  case False
  then have "g1 = g" using c
    by (auto simp add: C_CloseSession_def split: if_splits option.splits)
  then show ?thesis using inv by simp
next
  case True
  then obtain i se where s: "CHECKSESSION session g = Some (i, se)" by auto
  from CHECKSESSION_Some[OF s] inv
  have i: "i < length (sess_list g)" and se: "sess_list g ! i = Some se"
    by (simp_all add: refcount_inv_def table_ok_def)
  have "g1 = (sess_free se g)\<lparr>sess_list := (sess_list (sess_free se g))[i := None]\<rparr>"
    using c True s by (simp add: C_CloseSession_def Let_def)
  then show ?thesis using close_index_inv[OF inv i se] by simp
qed

lemma close_cell_inv:
  assumes inv: "refcount_inv g" and i: "i < length (sess_list g)"
  shows "refcount_inv (close_cell slot g i)"
    and "length (sess_list (close_cell slot g i)) = length (sess_list g)"
proof -
  show "refcount_inv (close_cell slot g i)"
  proof (cases "sess_list g ! i")
    case None
    then show ?thesis using inv by (simp add: close_cell_def)
  next
    case (Some se)
    show ?thesis
    proof (cases "slot_id se = slot")
      case True
      then show ?thesis using close_index_inv[OF inv i Some] Some
        by (simp add: close_cell_def Let_def)
    next
      case False
      then show ?thesis using inv Some by (simp add: close_cell_def)
    qed
  qed
  show "length (sess_list (close_cell slot g i)) = length (sess_list g)"
    by (simp add: close_cell_def Let_def sess_free_def split: option.splits)
qed

lemma close_cells_inv:
  "refcount_inv g \<Longrightarrow> \<forall>i \<in> set js. i < length (sess_list g) \<Longrightarrow>
   refcount_inv (foldl (close_cell slot) g js)"
proof (induction js arbitrary: g)
  case Nil
  then show ?case by simp
next
  case (Cons j js)
  have j: "j < length (sess_list g)" using Cons.prems(2) by simp
  note c = close_cell_inv[OF Cons.prems(1) j, of slot]
  have "\<forall>i \<in> set js. i < length (sess_list (close_cell slot g j))"
    using Cons.prems(2) c(2) by simp
  from Cons.IH[OF c(1) this] show ?case by simp
qed

lemma CloseAllSessions_inv:
  assumes inv: "refcount_inv g" and c: "C_CloseAllSessions slot g = (rv, g1)"
  shows "refcount_inv g1"
proof (cases "module_initialized g \<and> CHECKSLOT slot True g = None")
  case False
  then have "g1 = g" using c
    by (auto simp add: C_CloseAllSessions_def split: if_splits option.splits)
  then show ?thesis using inv by simp
next
  case True
  then have g1: "g1 = foldl (close_cell slot) g [0..<sess_list_count g]"
    using c by (simp add: C_CloseAllSessions_def)
  have "\<forall>i \<in> set [0..<sess_list_count g]. i < length (sess_list g)"
    using inv by (simp add: refcount_inv_def table_ok_def)
  from close_cells_inv[OF inv this] show ?thesis by (simp add: g1)
qed

text \<open>\<^verbatim>\<open>C_Finalize\<close> drops the reference of every slot in turn.\<close>

lemma finalize_slot_frame [simp]:
  "sess_list (finalize_slot g p) = sess_list g"
  "sess_list_count (finalize_slot g p) = sess_list_count g"
  by (simp_all add: finalize_slot_def split: option.splits)

lemma finalize_fold_frame [simp]:
  "sess_list (foldl finalize_slot g ps) = sess_list g"
  "sess_list_count (foldl finalize_slot g ps) = sess_list_count g"
  by (induction ps arbitrary: g) simp_all

lemma finalize_fold:
  "counted ps (sess_list g) (heap g) (allocated g) \<Longrightarrow>
   counted [] (sess_list g) (heap (foldl finalize_slot g ps))
     (allocated (foldl finalize_slot g ps))"
proof (induction ps arbitrary: g)
  case Nil
  then show ?case by simp
next
  case (Cons p ps)
  have "counted ps (sess_list (finalize_slot g p)) (heap (finalize_slot g p))
      (allocated (finalize_slot g p))"
  proof (cases p)
    case None
    from counted_cong[OF Cons.prems, of "heap g" ps "sess_list g"] None
    show ?thesis by (simp add: finalize_slot_def)
  next
    case (Some a)
    have r: "refs ps (sess_list g) b + (if b = a then 1 else 0) =
        refs (p # ps) (sess_list g) b" for b
      using Some by (simp add: refs_def)
    have "count_list (p # ps) (Some b) \<le> 1" for b
      using Cons.prems unfolding counted_def by blast
    then have s: "count_list ps (Some b) \<le> 1" for b
      using le_trans[of "count_list ps (Some b)" "count_list (p # ps) (Some b)" 1] by simp
    from counted_free[OF Cons.prems r s] show ?thesis using Some
      by (simp add: finalize_slot_def)
  qed
  from Cons.IH[OF this] show ?case by simp
qed

lemma Finalize_inv:
  assumes inv: "refcount_inv g" and c: "C_Finalize p g = (rv, g1)"
  shows "refcount_inv g1"
proof (cases "module_initialized g \<and> \<not> p")
  case False
  then have "g1 = g" using c by (auto simp add: C_Finalize_def split: if_splits)
  then show ?thesis using inv by simp
next
  case True
  define g0 where "g0 = foldl finalize_slot g (slot_list g)"
  have g1: "slot_list g1 = []" "sess_list g1 = sess_list g0" "heap g1 = heap g0"
    "allocated g1 = allocated g0" "sess_list_count g1 = sess_list_count g0"
    using c True by (auto simp add: C_Finalize_def Let_def g0_def split: if_splits)
  from inv have "counted (slot_list g) (sess_list g) (heap g) (allocated g)"
    by (simp add: refcount_inv_def)
  from finalize_fold[OF this] have "counted [] (sess_list g) (heap g0) (allocated g0)"
    by (simp add: g0_def)
  then show ?thesis using inv g1
    by (simp add: refcount_inv_def table_ok_def g0_def)
qed

text \<open>A token arrives: it is allocated with count one and goes to a slot, or is freed.\<close>

lemma add_token_inv:
  assumes inv: "refcount_inv g" and mi: "module_initialized g" and fresh: "a \<notin> allocated g"
  shows "refcount_inv (add_token_id h junk_obj junk_slot a tid la query g)"
proof (cases query)
  case None
  then show ?thesis using inv by (simp add: add_token_id_def)
next
  case (Some ids)
  define sl where "sl = slot_list g"
  define ss where "ss = sess_list g"
  define t where "t = (new_token tid la)\<lparr>id_list := ids\<rparr>"
  define g1 where "g1 = g\<lparr>heap := (heap g)(a := t), allocated := insert a (allocated g)\<rparr>"
  from inv have c: "counted sl ss (heap g) (allocated g)"
    by (simp add: refcount_inv_def sl_def ss_def)
  have z: "refs sl ss a = 0" using c fresh unfolding counted_def by (auto split: if_splits)
  have c1: "counted (Some a # sl) ss (heap g1) (allocated g1)"
  proof -
    have "count_list (Some a # sl) (Some b) \<le> 1 \<and>
        (if b \<in> allocated g1
         then unat (refcount (heap g1 b)) = refs (Some a # sl) ss b \<and>
              0 < refs (Some a # sl) ss b
         else refs (Some a # sl) ss b = 0)" for b
    proof (cases "b = a")
      case True
      then show ?thesis using z by (simp add: g1_def t_def new_token_def refs_def)
    next
      case False
      from c have "count_list sl (Some b) \<le> 1 \<and>
          (if b \<in> allocated g then unat (refcount (heap g b)) = refs sl ss b \<and> 0 < refs sl ss b
           else refs sl ss b = 0)"
        unfolding counted_def by blast
      moreover have "refs (Some a # sl) ss b = refs sl ss b" using False by (simp add: refs_def)
      ultimately show ?thesis using False by (simp add: g1_def)
    qed
    then show ?thesis unfolding counted_def by blast
  qed
  show ?thesis
  proof (cases "ids = []")
    case True
    have r: "refs sl ss b + (if b = a then 1 else 0) = refs (Some a # sl) ss b" for b
      by (simp add: refs_def)
    have s: "count_list sl (Some b) \<le> 1" for b using c unfolding counted_def by blast
    have e: "add_token_id h junk_obj junk_slot a tid la query g = slot_entry_free a False g1"
      using Some True by (simp add: add_token_id_def Let_def g1_def t_def)
    have "slot_list g1 = sl" "sess_list g1 = ss" by (simp_all add: g1_def sl_def ss_def)
    then show ?thesis
      using counted_free[OF c1 r s, of False] inv
      by (simp add: e refcount_inv_def table_ok_def g1_def sl_def ss_def)
  next
    case False
    define t1 where "t1 = build_id_objects h junk_obj t"
    define t2 where "t2 = t1\<lparr>token_label := Some (label (id_list t1 ! 0))\<rparr>"
    define p where "p = (case first_free sl 0 of
        Some i \<Rightarrow> (i, sl)
      | None \<Rightarrow> (length sl, realloc_cells junk_slot sl (length sl + 1)))"
    have e: "add_token_id h junk_obj junk_slot a tid la query g =
        g1\<lparr>heap := (heap g1)(a := t2), slot_list := (snd p)[fst p := Some a]\<rparr>"
      using Some False
      by (cases "first_free (slot_list g) 0")
        (simp_all add: add_token_id_def Let_def g1_def t_def t1_def t2_def p_def sl_def)
    have rc: "refcount t2 = refcount t"
      by (simp add: t2_def t1_def refcount_build_id_objects)
    have k: "count_list ((snd p)[fst p := Some a]) (Some b) = count_list (Some a # sl) (Some b)"
      for b
    proof (cases "first_free sl 0")
      case None
      then have "(snd p)[fst p := Some a] = sl @ [Some a]"
        by (simp add: p_def realloc_cells_def)
      then show ?thesis by simp
    next
      case (Some i)
      from first_free_Some[OF Some] have i: "i < length sl" and n: "sl ! i = None" by simp_all
      have "(snd p)[fst p := Some a] = sl[i := Some a]" using Some by (simp add: p_def)
      then show ?thesis using count_list_update[OF i, of "Some a" "Some b"] n by auto
    qed
    have "refcount (((heap g1)(a := t2)) b) = refcount (heap g1 b)" for b
      using rc by (simp add: g1_def)
    from counted_cong[OF c1 this k, of ss]
    have "counted ((snd p)[fst p := Some a]) ss ((heap g1)(a := t2)) (allocated g1)"
      by (simp add: fun_upd_def)
    then show ?thesis using inv mi
      by (simp add: e refcount_inv_def table_ok_def g1_def ss_def)
  qed
qed

text \<open>A token leaves: its slot is cleared and its count dropped.\<close>

lemma remove_token_inv:
  assumes inv: "refcount_inv g"
  shows "refcount_inv (remove_token_id tid g)"
proof (cases "find_token (heap g) tid (slot_list g) 0")
  case None
  then show ?thesis using inv by (simp add: remove_token_id_def)
next
  case (Some p)
  obtain i a where p: "p = (i, a)" by (cases p)
  from find_token_Some[OF Some[unfolded p]]
  have i: "i < length (slot_list g)" and ia: "slot_list g ! i = Some a" by simp_all
  from inv have c: "counted (slot_list g) (sess_list g) (heap g) (allocated g)"
    by (simp add: refcount_inv_def)
  have k: "count_list ((slot_list g)[i := None]) (Some b) + (if b = a then 1 else 0) =
      count_list (slot_list g) (Some b)" for b
    using count_list_update[OF i, of None "Some b"] ia by auto
  then have r: "refs ((slot_list g)[i := None]) (sess_list g) b + (if b = a then 1 else 0) =
      refs (slot_list g) (sess_list g) b" for b
    using k[of b] by (simp add: refs_def)
  have "count_list (slot_list g) (Some b) \<le> 1" for b using c unfolding counted_def by blast
  then have s: "count_list ((slot_list g)[i := None]) (Some b) \<le> 1" for b
    using k[of b] le_trans[of _ "count_list (slot_list g) (Some b)" 1] by simp
  have e: "remove_token_id tid g =
      (slot_entry_free a False g)\<lparr>slot_list := (slot_list g)[i := None]\<rparr>"
    using Some p by (simp add: remove_token_id_def Let_def)
  have m: "module_initialized g" using inv i by (auto simp add: refcount_inv_def table_ok_def)
  show ?thesis using counted_free[OF c r s, of False] inv m
    by (simp add: e refcount_inv_def table_ok_def)
qed

text \<open>
  A session is opened.  The count is an \<^verbatim>\<open>unsigned int\<close>: the increment is exact as long as
  the session table has fewer than \<open>2\<^sup>3\<^sup>2 - 1\<close> cells.
\<close>

lemma OpenSession_cases:
  assumes "C_OpenSession fresh junk slot flags g = (rv, hdl, g1)"
  shows "g1 = g \<or>
    (\<exists>sess h1. token sess = None \<and> store_session junk sess g = (h1, g1)) \<or>
    (\<exists>a h1 sess. slot < length (slot_list g) \<and> slot_list g ! slot = Some a \<and>
       token sess = Some a \<and> module_initialized g \<and>
       store_session junk sess
         (g\<lparr>heap := (heap g)(a := (heap g a)\<lparr>refcount := refcount (heap g a) + 1\<rparr>)\<rparr>) =
       (h1, g1))"
proof (cases "module_initialized g \<and> CHECKSLOT slot True g = None \<and>
    flags AND CKF_SERIAL_SESSION \<noteq> 0")
  case False
  then have "g1 = g" using assms
    by (auto simp add: C_OpenSession_def split: if_splits option.splits)
  then show ?thesis by simp
next
  case True
  show ?thesis
  proof (cases "slot = CERTIFICATE_SLOT")
    case c: True
    define sess where "sess = (if cert_list_status g = initialized
        then open_fields fresh slot None (cert_obj_list g) (cert_obj_count g)
        else open_fields fresh slot None [] 0)"
    have "token sess = None" by (simp add: sess_def open_fields_def)
    moreover have "\<exists>h1. store_session junk sess g = (h1, g1)"
      using assms True c
      by (auto simp add: C_OpenSession_def Let_def sess_def
          split: if_splits option.splits prod.splits)
    ultimately show ?thesis by blast
  next
    case n: False
    have l: "slot < length (slot_list g)"
      using True n by (auto simp add: CHECKSLOT_def split: if_splits)
    show ?thesis
    proof (cases "slot_list g ! slot")
      case None
      then have "g1 = g" using assms True n by (auto simp add: C_OpenSession_def)
      then show ?thesis by simp
    next
      case (Some a)
      define sess where
        "sess = open_fields fresh slot (Some a) (obj_list (heap g a)) (obj_count (heap g a))"
      have "token sess = Some a" by (simp add: sess_def open_fields_def)
      moreover have "\<exists>h1. store_session junk sess
         (g\<lparr>heap := (heap g)(a := (heap g a)\<lparr>refcount := refcount (heap g a) + 1\<rparr>)\<rparr>) =
         (h1, g1)"
        using assms True n Some
        by (auto simp add: C_OpenSession_def Let_def sess_def
            split: if_splits option.splits prod.splits)
      ultimately show ?thesis using l Some True by blast
    qed
  qed
qed

lemma OpenSession_inv:
  assumes inv: "refcount_inv g" and o: "C_OpenSession fresh junk slot flags g = (rv, hdl, g1)"
    and bound: "length (sess_list g1) < 2 ^ 32 - 1"
  shows "refcount_inv g1"
proof -
  from inv have c: "counted (slot_list g) (sess_list g) (heap g) (allocated g)"
    and t1: "sess_list_count g \<le> length (sess_list g)"
    and t2: "\<forall>i. sess_list_count g \<le> i \<and> i < length (sess_list g) \<longrightarrow> sess_list g ! i = None"
    and t3: "module_initialized g \<or> slot_list g = []"
    by (simp_all add: refcount_inv_def table_ok_def)
  from OpenSession_cases[OF o] consider
    (same) "g1 = g"
    | (cert) sess h1 where "token sess = None" "store_session junk sess g = (h1, g1)"
    | (tok) a h1 sess where "slot < length (slot_list g)" "slot_list g ! slot = Some a"
        "token sess = Some a" "module_initialized g"
        "store_session junk sess
           (g\<lparr>heap := (heap g)(a := (heap g a)\<lparr>refcount := refcount (heap g a) + 1\<rparr>)\<rparr>) =
         (h1, g1)"
    by blast
  then show ?thesis
  proof cases
    case same
    then show ?thesis using inv by simp
  next
    case cert
    note f = store_session_frame[OF cert(2)]
    note s = store_session_table[OF t1 t2 cert(2)]
    have "open_sessions (sess_list g1) b = open_sessions (sess_list g) b" for b
      using s(3)[of b] cert(1) by simp
    from counted_cong[OF c, of "heap g" "slot_list g" "sess_list g1"] this
    have "counted (slot_list g) (sess_list g1) (heap g) (allocated g)" by simp
    then show ?thesis using s(1,2) f t3 by (simp add: refcount_inv_def table_ok_def)
  next
    case tok
    define g0 where
      "g0 = g\<lparr>heap := (heap g)(a := (heap g a)\<lparr>refcount := refcount (heap g a) + 1\<rparr>)\<rparr>"
    have st: "store_session junk sess g0 = (h1, g1)" using tok(5) by (simp add: g0_def)
    have u1: "sess_list_count g0 \<le> length (sess_list g0)" using t1 by (simp add: g0_def)
    have u2: "\<forall>i. sess_list_count g0 \<le> i \<and> i < length (sess_list g0)
        \<longrightarrow> sess_list g0 ! i = None"
      using t2 by (simp add: g0_def)
    note f = store_session_frame[OF st]
    note s = store_session_table[OF u1 u2 st]
    have sl: "count_list (slot_list g) (Some a) \<le> 1" using c unfolding counted_def by blast
    have "0 < count_list (slot_list g) (slot_list g ! slot)" by (rule count_list_nth[OF tok(1)])
    then have "0 < refs (slot_list g) (sess_list g) a" using tok(2) by (simp add: refs_def)
    then have al: "a \<in> allocated g" using c unfolding counted_def by (auto split: if_splits)
    have r: "refs (slot_list g) (sess_list g1) b =
        refs (slot_list g) (sess_list g) b + (if b = a then 1 else 0)" for b
      using s(3)[of b] tok(3) by (auto simp add: refs_def g0_def)
    have "refs (slot_list g) (sess_list g1) a \<le> 1 + length (sess_list g1)"
      using sl open_sessions_le[of "sess_list g1" a] by (simp add: refs_def)
    then have b: "refs (slot_list g) (sess_list g1) a < 2 ^ 32" using bound by simp
    from counted_open[OF c al r b]
    have "counted (slot_list g1) (sess_list g1) (heap g1) (allocated g1)"
      using f by (simp add: g0_def)
    then show ?thesis using s(1,2) f tok(4) by (simp add: refcount_inv_def table_ok_def g0_def)
  qed
qed

text \<open>The session table never shrinks.\<close>

lemma close_cell_length [simp]:
  "length (sess_list (close_cell slot g i)) = length (sess_list g)"
  by (simp add: close_cell_def Let_def sess_free_def split: option.splits)

lemma close_cells_length [simp]:
  "length (sess_list (foldl (close_cell slot) g js)) = length (sess_list g)"
  by (induction js arbitrary: g) simp_all

lemma add_token_sess_list [simp]:
  "sess_list (add_token_id h junk_obj junk_slot a tid la query g) = sess_list g"
  by (cases query; cases "first_free (slot_list g) 0")
    (simp_all add: add_token_id_def Let_def)

lemma remove_token_sess_list [simp]: "sess_list (remove_token_id tid g) = sess_list g"
  by (simp add: remove_token_id_def Let_def split: option.splits)

lemma step_length:
  assumes "step g g1"
  shows "length (sess_list g) \<le> length (sess_list g1)"
  using assms
proof cases
  case (step_Initialize pReserved cert_pref rv)
  then show ?thesis by (auto simp add: C_Initialize_def split: if_splits)
next
  case (step_Finalize p rv)
  then show ?thesis by (auto simp add: C_Finalize_def Let_def split: if_splits)
next
  case (step_scan objs cnt)
  then show ?thesis by (simp add: background_cert_scan_def)
next
  case (step_add_token a h junk_obj junk_slot tid la query)
  then show ?thesis by simp
next
  case (step_remove_token tid)
  then show ?thesis by simp
next
  case (step_OpenSession fresh junk slot flags rv hdl)
  from OpenSession_cases[OF this] show ?thesis
    by (auto dest!: store_session_length)
next
  case (step_CloseSession session rv)
  then show ?thesis
    by (auto simp add: C_CloseSession_def Let_def sess_free_def
        split: if_splits option.splits)
next
  case (step_CloseAllSessions slot rv)
  then show ?thesis
    by (auto simp add: C_CloseAllSessions_def split: if_splits option.splits)
next
  case (step_Login h session pin rv calls)
  then show ?thesis
    by (auto simp add: C_Login_def Let_def split: if_splits option.splits prod.splits)
next
  case (step_Logout session rv)
  then show ?thesis
    by (auto simp add: C_Logout_def split: if_splits option.splits)
next
  case (step_session_call h tb session c rv)
  then show ?thesis
    by (auto simp add: C_session_call_def split: if_splits option.splits)
qed

lemma step_inv:
  assumes "step g g1" and inv: "refcount_inv g" and bound: "length (sess_list g1) < 2 ^ 32 - 1"
  shows "refcount_inv g1"
  using assms(1)
proof cases
  case (step_Initialize pReserved cert_pref rv)
  then show ?thesis using Initialize_inv[OF inv] by simp
next
  case (step_Finalize p rv)
  then show ?thesis using Finalize_inv[OF inv] by simp
next
  case (step_scan objs cnt)
  then show ?thesis using scan_inv[OF inv] by simp
next
  case (step_add_token a h junk_obj junk_slot tid la query)
  then show ?thesis using add_token_inv[OF inv] by simp
next
  case (step_remove_token tid)
  then show ?thesis using remove_token_inv[OF inv] by simp
next
  case (step_OpenSession fresh junk slot flags rv hdl)
  then show ?thesis using OpenSession_inv[OF inv _ bound] by simp
next
  case (step_CloseSession session rv)
  then show ?thesis using CloseSession_inv[OF inv] by simp
next
  case (step_CloseAllSessions slot rv)
  then show ?thesis using CloseAllSessions_inv[OF inv] by simp
next
  case (step_Login h session pin rv calls)
  then show ?thesis using Login_inv[OF inv] by simp
next
  case (step_Logout session rv)
  then show ?thesis using Logout_inv[OF inv] by simp
next
  case (step_session_call h tb session c rv)
  then show ?thesis using session_call_inv[OF inv] by simp
qed

lemma reachable_inv:
  "reachable g \<Longrightarrow> length (sess_list g) < 2 ^ 32 - 1 \<Longrightarrow> refcount_inv g"
proof (induction rule: reachable.induct)
  case (reachable_initial hp)
  show ?case by (rule inv_initial)
next
  case (reachable_step g g1)
  from step_length[OF reachable_step.hyps(2)] reachable_step.prems
  have "length (sess_list g) < 2 ^ 32 - 1" by simp
  from step_inv[OF reachable_step.hyps(2) reachable_step.IH[OF this] reachable_step.prems]
  show ?case .
qed

text \<open>What the invariant says of one token.\<close>

lemma count_list_member: "count_list xs x \<le> 1 \<Longrightarrow> count_list xs x = (if x \<in> set xs then 1 else 0)"
  using count_list_0_iff[of xs x] by (cases "x \<in> set xs") auto

lemma inv_token:
  assumes "refcount_inv g"
  shows "a \<in> allocated g \<Longrightarrow>
         unat (refcount (heap g a)) =
           (if Some a \<in> set (slot_list g) then 1 else 0) + open_sessions (sess_list g) a \<and>
         refcount (heap g a) \<noteq> 0"
    and "a \<notin> allocated g \<Longrightarrow> Some a \<notin> set (slot_list g) \<and> open_sessions (sess_list g) a = 0"
proof -
  from assms have c: "count_list (slot_list g) (Some a) \<le> 1 \<and>
      (if a \<in> allocated g
       then unat (refcount (heap g a)) = refs (slot_list g) (sess_list g) a \<and>
            0 < refs (slot_list g) (sess_list g) a
       else refs (slot_list g) (sess_list g) a = 0)"
    unfolding refcount_inv_def counted_def by blast
  note m = count_list_member[of "slot_list g" "Some a"]
  show "a \<in> allocated g \<Longrightarrow>
         unat (refcount (heap g a)) =
           (if Some a \<in> set (slot_list g) then 1 else 0) + open_sessions (sess_list g) a \<and>
         refcount (heap g a) \<noteq> 0"
    using c m by (auto simp add: refs_def)
  show "a \<notin> allocated g \<Longrightarrow> Some a \<notin> set (slot_list g) \<and> open_sessions (sess_list g) a = 0"
    using c m by (auto simp add: refs_def split: if_splits)
qed

text \<open>The effect of each entry point on the count.\<close>

lemma add_token_created:
  assumes "ids \<noteq> []"
  shows "refcount (heap (add_token_id h junk_obj junk_slot a tid la (Some ids) g) a) = 1"
    and "Some a \<in> set (slot_list (add_token_id h junk_obj junk_slot a tid la (Some ids) g))"
    and "a \<in> allocated (add_token_id h junk_obj junk_slot a tid la (Some ids) g)"
    and "tokenid (heap (add_token_id h junk_obj junk_slot a tid la (Some ids) g) a) = tid"
    and "lacontext (heap (add_token_id h junk_obj junk_slot a tid la (Some ids) g) a) = la"
proof -
  define p where "p = (case first_free (slot_list g) 0 of
      Some i \<Rightarrow> (i, slot_list g)
    | None \<Rightarrow> (length (slot_list g), realloc_cells junk_slot (slot_list g)
                  (length (slot_list g) + 1)))"
  define t1 where
    "t1 = build_id_objects h junk_obj ((new_token tid la)\<lparr>id_list := ids\<rparr>)"
  have e: "add_token_id h junk_obj junk_slot a tid la (Some ids) g =
      g\<lparr>heap := (heap g)(a := t1\<lparr>token_label := Some (label (id_list t1 ! 0))\<rparr>),
        allocated := insert a (allocated g), slot_list := (snd p)[fst p := Some a]\<rparr>"
    using assms
    by (cases "first_free (slot_list g) 0")
      (simp_all add: add_token_id_def Let_def p_def t1_def)
  have l: "fst p < length (snd p)"
  proof (cases "first_free (slot_list g) 0")
    case None
    then show ?thesis by (simp add: p_def realloc_cells_def)
  next
    case (Some i)
    from first_free_Some[OF Some] show ?thesis using Some by (simp add: p_def)
  qed
  show "refcount (heap (add_token_id h junk_obj junk_slot a tid la (Some ids) g) a) = 1"
    by (simp add: e t1_def refcount_build_id_objects new_token_def)
  show "Some a \<in> set (slot_list (add_token_id h junk_obj junk_slot a tid la (Some ids) g))"
    using l by (simp add: e set_update_memI)
  show "a \<in> allocated (add_token_id h junk_obj junk_slot a tid la (Some ids) g)"
    by (simp add: e)
  show "tokenid (heap (add_token_id h junk_obj junk_slot a tid la (Some ids) g) a) = tid"
    by (simp add: e t1_def token_fields_build_id_objects new_token_def)
  show "lacontext (heap (add_token_id h junk_obj junk_slot a tid la (Some ids) g) a) = la"
    by (simp add: e t1_def token_fields_build_id_objects new_token_def)
qed

lemma OpenSession_increments:
  assumes "C_OpenSession fresh junk slot flags g = (CKR_OK, hdl, g1)"
    and "slot \<noteq> CERTIFICATE_SLOT"
  shows "\<exists>a. slot_list g ! slot = Some a \<and> refcount (heap g1 a) = refcount (heap g a) + 1"
proof -
  have ok: "module_initialized g \<and> CHECKSLOT slot True g = None \<and>
      flags AND CKF_SERIAL_SESSION \<noteq> 0"
    using assms(1)
    by (auto simp add: C_OpenSession_def CHECKSLOT_def split: if_splits)
  then obtain a where a: "slot_list g ! slot = Some a"
    using assms by (auto simp add: C_OpenSession_def split: option.splits)
  define sess where
    "sess = open_fields fresh slot (Some a) (obj_list (heap g a)) (obj_count (heap g a))"
  define g0 where
    "g0 = g\<lparr>heap := (heap g)(a := (heap g a)\<lparr>refcount := refcount (heap g a) + 1\<rparr>)\<rparr>"
  have "\<exists>h1. store_session junk sess g0 = (h1, g1)"
    using assms a ok
    by (auto simp add: C_OpenSession_def Let_def sess_def g0_def split: prod.splits)
  then obtain h1 where "store_session junk sess g0 = (h1, g1)" by blast
  from store_session_frame(2)[OF this] have "heap g1 = heap g0" .
  then show ?thesis using a by (simp add: g0_def)
qed

lemma slot_entry_free_count:
  "refcount (heap (slot_entry_free a lo g) a) = refcount (heap g a) - 1"
  "(a \<in> allocated (slot_entry_free a lo g)) = (a \<in> allocated g \<and> refcount (heap g a) \<noteq> 1)"
  "b \<noteq> a \<Longrightarrow> heap (slot_entry_free a lo g) b = heap g b"
  by (auto simp add: slot_entry_free_def Let_def word_gt_0)

text \<open>The logout: at the drop from two to one, and at no other.\<close>

lemma slot_entry_free_logout:
  "refcount (heap g a) = 2 \<Longrightarrow>
     refcount (heap (slot_entry_free a lo g) a) = 1 \<and>
     logged_in (heap (slot_entry_free a lo g) a) = False \<and>
     lacontext (heap (slot_entry_free a lo g) a) = None"
  "refcount (heap g a) \<noteq> 2 \<Longrightarrow>
     logged_in (heap (slot_entry_free a lo g) a) = logged_in (heap g a) \<and>
     lacontext (heap (slot_entry_free a lo g) a) = lacontext (heap g a)"
proof -
  show "refcount (heap g a) = 2 \<Longrightarrow>
     refcount (heap (slot_entry_free a lo g) a) = 1 \<and>
     logged_in (heap (slot_entry_free a lo g) a) = False \<and>
     lacontext (heap (slot_entry_free a lo g) a) = None"
    by (simp add: slot_entry_free_def Let_def token_logout_def)
  show "refcount (heap g a) \<noteq> 2 \<Longrightarrow>
     logged_in (heap (slot_entry_free a lo g) a) = logged_in (heap g a) \<and>
     lacontext (heap (slot_entry_free a lo g) a) = lacontext (heap g a)"
  proof -
    assume n: "refcount (heap g a) \<noteq> 2"
    have "refcount (heap g a) - 1 \<noteq> 1"
    proof
      assume "refcount (heap g a) - 1 = 1"
      then have "refcount (heap g a) = 1 + 1" by (simp add: algebra_simps)
      then show False using n by simp
    qed
    then show ?thesis by (simp add: slot_entry_free_def Let_def)
  qed
qed

lemma CloseSession_decrements:
  assumes "CHECKSESSION session g = Some (i, se)" and "token se = Some a"
    and "module_initialized g"
  shows "fst (C_CloseSession session g) = CKR_OK"
    and "refcount (heap (snd (C_CloseSession session g)) a) = refcount (heap g a) - 1"
    and "refcount (heap g a) = 2 \<Longrightarrow>
         logged_in (heap (snd (C_CloseSession session g)) a) = False \<and>
         lacontext (heap (snd (C_CloseSession session g)) a) = None"
  using assms slot_entry_free_logout(1)[of g a True]
  by (simp_all add: C_CloseSession_def Let_def sess_free_def slot_entry_free_count(1))

lemma remove_token_decrements:
  assumes "j < length (slot_list g)" and "slot_list g ! j = Some a"
    and "tokenid (heap g a) = tid"
    and "\<forall>k < j. \<forall>b. slot_list g ! k = Some b \<longrightarrow> tokenid (heap g b) \<noteq> tid"
  shows "refcount (heap (remove_token_id tid g) a) = refcount (heap g a) - 1"
    and "slot_list (remove_token_id tid g) = (slot_list g)[j := None]"
    and "\<forall>b. b \<noteq> a \<longrightarrow> heap (remove_token_id tid g) b = heap g b"
    and "remove_token_id tid g = (slot_entry_free a False g)\<lparr>slot_list := (slot_list g)[j := None]\<rparr>"
proof -
  from find_token_first[OF assms, of 0]
  have f: "find_token (heap g) tid (slot_list g) 0 = Some (j, a)" by simp
  show e: "remove_token_id tid g =
      (slot_entry_free a False g)\<lparr>slot_list := (slot_list g)[j := None]\<rparr>"
    by (simp add: remove_token_id_def Let_def f)
  show "refcount (heap (remove_token_id tid g) a) = refcount (heap g a) - 1"
    by (simp add: e slot_entry_free_count(1))
  show "slot_list (remove_token_id tid g) = (slot_list g)[j := None]" by (simp add: e)
  show "\<forall>b. b \<noteq> a \<longrightarrow> heap (remove_token_id tid g) b = heap g b"
    by (simp add: e slot_entry_free_count(3))
qed

lemma remove_token_absent:
  assumes "\<forall>b. Some b \<in> set (slot_list g) \<longrightarrow> tokenid (heap g b) \<noteq> tid"
  shows "remove_token_id tid g = g"
proof -
  have "find_token (heap g) tid (slot_list g) 0 = None"
    using assms by (simp add: find_token_None)
  then show ?thesis by (simp add: remove_token_id_def)
qed

text \<open>
  C4.  In every state the library reaches, a token that a slot holds is allocated and its
  reference count is one plus the number of open sessions bound to it; an allocated token has
  a count that is not zero and that counts the slot holding it and the sessions bound to
  it, and no session is bound to a token that is not allocated.  A token is created with
  count one and put in a slot.  A successful \<^verbatim>\<open>C_OpenSession\<close> on its slot adds one.
  \<^verbatim>\<open>C_CloseSession\<close> on a session bound to it takes one away, and when the count was two the
  token is logged out: its logged-in flag is off and its authentication context gone.  The
  removal of a token identifier takes one away from the token of the first slot that holds
  a token of that identifier, clears that slot and touches no other token; when no slot
  holds such a token the removal changes nothing.  \<^verbatim>\<open>slot_entry_free\<close> frees the token
  exactly when the count was one, and logs the token out when the count goes from two to
  one and at no other count.  The count is an \<^verbatim>\<open>unsigned int\<close> and the size of the session
  table an \<^verbatim>\<open>unsigned int\<close> too: the first part is for tables of fewer than \<open>2\<^sup>3\<^sup>2 - 1\<close>
  cells.
\<close>

theorem refcount_counts_references:
  "(reachable g \<and> length (sess_list g) < 2 ^ 32 - 1 \<longrightarrow>
      (Some a \<in> set (slot_list g) \<longrightarrow>
         a \<in> allocated g \<and>
         unat (refcount (heap g a)) = 1 + open_sessions (sess_list g) a) \<and>
      (a \<in> allocated g \<longrightarrow>
         refcount (heap g a) \<noteq> 0 \<and>
         unat (refcount (heap g a)) =
           (if Some a \<in> set (slot_list g) then 1 else 0) + open_sessions (sess_list g) a) \<and>
      (a \<notin> allocated g \<longrightarrow> open_sessions (sess_list g) a = 0)) \<and>
   (ids \<noteq> [] \<longrightarrow>
      refcount (heap (add_token_id h junk_obj junk_slot a tid la (Some ids) g) a) = 1 \<and>
      Some a \<in> set (slot_list (add_token_id h junk_obj junk_slot a tid la (Some ids) g)) \<and>
      a \<in> allocated (add_token_id h junk_obj junk_slot a tid la (Some ids) g)) \<and>
   (C_OpenSession fresh junk slot flags g = (CKR_OK, hdl, g1) \<and> slot \<noteq> CERTIFICATE_SLOT \<longrightarrow>
      (\<exists>b. slot_list g ! slot = Some b \<and> refcount (heap g1 b) = refcount (heap g b) + 1)) \<and>
   (module_initialized g \<and> CHECKSESSION session g = Some (i, se) \<and> token se = Some a \<longrightarrow>
      fst (C_CloseSession session g) = CKR_OK \<and>
      refcount (heap (snd (C_CloseSession session g)) a) = refcount (heap g a) - 1 \<and>
      (refcount (heap g a) = 2 \<longrightarrow>
         logged_in (heap (snd (C_CloseSession session g)) a) = False \<and>
         lacontext (heap (snd (C_CloseSession session g)) a) = None)) \<and>
   (j < length (slot_list g) \<and> slot_list g ! j = Some a \<and> tokenid (heap g a) = tid \<and>
    (\<forall>k < j. \<forall>b. slot_list g ! k = Some b \<longrightarrow> tokenid (heap g b) \<noteq> tid) \<longrightarrow>
      refcount (heap (remove_token_id tid g) a) = refcount (heap g a) - 1 \<and>
      slot_list (remove_token_id tid g) = (slot_list g)[j := None] \<and>
      (\<forall>b. b \<noteq> a \<longrightarrow> heap (remove_token_id tid g) b = heap g b)) \<and>
   ((\<forall>b. Some b \<in> set (slot_list g) \<longrightarrow> tokenid (heap g b) \<noteq> tid) \<longrightarrow>
      remove_token_id tid g = g) \<and>
   ((a \<in> allocated (slot_entry_free a lo g)) = (a \<in> allocated g \<and> refcount (heap g a) \<noteq> 1)) \<and>
   (refcount (heap g a) = 2 \<longrightarrow>
      refcount (heap (slot_entry_free a lo g) a) = 1 \<and>
      logged_in (heap (slot_entry_free a lo g) a) = False \<and>
      lacontext (heap (slot_entry_free a lo g) a) = None) \<and>
   (refcount (heap g a) \<noteq> 2 \<longrightarrow>
      logged_in (heap (slot_entry_free a lo g) a) = logged_in (heap g a) \<and>
      lacontext (heap (slot_entry_free a lo g) a) = lacontext (heap g a))"
proof -
  have "(Some a \<in> set (slot_list g) \<longrightarrow>
         a \<in> allocated g \<and>
         unat (refcount (heap g a)) = 1 + open_sessions (sess_list g) a) \<and>
      (a \<in> allocated g \<longrightarrow>
         refcount (heap g a) \<noteq> 0 \<and>
         unat (refcount (heap g a)) =
           (if Some a \<in> set (slot_list g) then 1 else 0) + open_sessions (sess_list g) a) \<and>
      (a \<notin> allocated g \<longrightarrow> open_sessions (sess_list g) a = 0)"
    if "reachable g" and "length (sess_list g) < 2 ^ 32 - 1"
  proof -
    from reachable_inv[OF that] have inv: "refcount_inv g" .
    show ?thesis
    proof (cases "a \<in> allocated g")
      case True
      from inv_token(1)[OF inv True] True show ?thesis by simp
    next
      case False
      from inv_token(2)[OF inv False] False show ?thesis by simp
    qed
  qed
  moreover have "ids \<noteq> [] \<longrightarrow>
      refcount (heap (add_token_id h junk_obj junk_slot a tid la (Some ids) g) a) = 1 \<and>
      Some a \<in> set (slot_list (add_token_id h junk_obj junk_slot a tid la (Some ids) g)) \<and>
      a \<in> allocated (add_token_id h junk_obj junk_slot a tid la (Some ids) g)"
    using add_token_created(1,2,3)[where ids = ids and h = h and junk_obj = junk_obj
        and junk_slot = junk_slot and a = a and tid = tid and la = la and g = g]
    by blast
  moreover have "C_OpenSession fresh junk slot flags g = (CKR_OK, hdl, g1) \<and>
      slot \<noteq> CERTIFICATE_SLOT \<longrightarrow>
      (\<exists>b. slot_list g ! slot = Some b \<and> refcount (heap g1 b) = refcount (heap g b) + 1)"
    using OpenSession_increments[where fresh = fresh and junk = junk and slot = slot
        and flags = flags and g = g and hdl = hdl and ?g1.0 = g1]
    by blast
  moreover have "module_initialized g \<and> CHECKSESSION session g = Some (i, se) \<and>
      token se = Some a \<longrightarrow>
      fst (C_CloseSession session g) = CKR_OK \<and>
      refcount (heap (snd (C_CloseSession session g)) a) = refcount (heap g a) - 1 \<and>
      (refcount (heap g a) = 2 \<longrightarrow>
         logged_in (heap (snd (C_CloseSession session g)) a) = False \<and>
         lacontext (heap (snd (C_CloseSession session g)) a) = None)"
    using CloseSession_decrements[where session = session and g = g and i = i and se = se
        and a = a]
    by blast
  moreover have "j < length (slot_list g) \<and> slot_list g ! j = Some a \<and>
      tokenid (heap g a) = tid \<and>
      (\<forall>k < j. \<forall>b. slot_list g ! k = Some b \<longrightarrow> tokenid (heap g b) \<noteq> tid) \<longrightarrow>
      refcount (heap (remove_token_id tid g) a) = refcount (heap g a) - 1 \<and>
      slot_list (remove_token_id tid g) = (slot_list g)[j := None] \<and>
      (\<forall>b. b \<noteq> a \<longrightarrow> heap (remove_token_id tid g) b = heap g b)"
    using remove_token_decrements(1,2,3)[where g = g and tid = tid and j = j and a = a]
    by blast
  moreover have "(\<forall>b. Some b \<in> set (slot_list g) \<longrightarrow> tokenid (heap g b) \<noteq> tid) \<longrightarrow>
      remove_token_id tid g = g"
    using remove_token_absent[where g = g and tid = tid] by blast
  moreover note slot_entry_free_count(2)[where a = a and lo = lo and g = g]
  moreover have "refcount (heap g a) = 2 \<longrightarrow>
      refcount (heap (slot_entry_free a lo g) a) = 1 \<and>
      logged_in (heap (slot_entry_free a lo g) a) = False \<and>
      lacontext (heap (slot_entry_free a lo g) a) = None"
    using slot_entry_free_logout(1)[where a = a and lo = lo and g = g] by blast
  moreover have "refcount (heap g a) \<noteq> 2 \<longrightarrow>
      logged_in (heap (slot_entry_free a lo g) a) = logged_in (heap g a) \<and>
      lacontext (heap (slot_entry_free a lo g) a) = lacontext (heap g a)"
    using slot_entry_free_logout(2)[where a = a and lo = lo and g = g] by blast
  ultimately show ?thesis by blast
qed

lemma example_inserted_facts:
  "slot_list example_inserted = [Some 7]" "sess_list example_inserted = []"
  "sess_list_count example_inserted = 0" "allocated example_inserted = {7}"
  "module_initialized example_inserted" "refcount (heap example_inserted 7) = 1"
  "reachable example_inserted" "tokenid (heap example_inserted 7) = ''T''"
  "lacontext (heap example_inserted 7) = Some 1"
proof -
  have st: "module_initialized example_started" "allocated example_started = {}"
    "slot_list example_started = [None]" "sess_list example_started = []"
    "sess_list_count example_started = 0"
    by (simp_all add: example_started_def C_Initialize_def initial_global_def)
  have "step (initial_global (\<lambda>a. example_slot_entry)) example_started"
    unfolding example_started_def
    by (rule step_Initialize[of False False _ "fst (C_Initialize False False
        (initial_global (\<lambda>a. example_slot_entry)))"]) simp
  then have r: "reachable example_started" using reachable_initial reachable_step by blast
  show "slot_list example_inserted = [Some 7]" "sess_list example_inserted = []"
    "sess_list_count example_inserted = 0" "allocated example_inserted = {7}"
    "module_initialized example_inserted"
    by (simp_all add: example_inserted_def add_token_id_def Let_def st)
  show "refcount (heap example_inserted 7) = 1"
    unfolding example_inserted_def by (rule add_token_created(1)) simp
  show "tokenid (heap example_inserted 7) = ''T''"
    unfolding example_inserted_def by (rule add_token_created(4)) simp
  show "lacontext (heap example_inserted 7) = Some 1"
    unfolding example_inserted_def by (rule add_token_created(5)) simp
  have "step example_started example_inserted"
    unfolding example_inserted_def by (rule step_add_token) (simp_all add: st)
  then show "reachable example_inserted" using r reachable_step by blast
qed

lemma example_opened_facts:
  "sess_list example_opened =
     [Some (open_fields example_session 0 (Some 7) (obj_list (heap example_inserted 7))
              (obj_count (heap example_inserted 7))), None, None, None, None]"
  "sess_list_count example_opened = 1" "slot_list example_opened = [Some 7]"
  "allocated example_opened = {7}" "module_initialized example_opened"
  "refcount (heap example_opened 7) = 2" "reachable example_opened"
  "tokenid (heap example_opened 7) = ''T''" "lacontext (heap example_opened 7) = Some 1"
proof -
  note i = example_inserted_facts
  define sess where "sess = open_fields example_session 0 (Some 7)
      (obj_list (heap example_inserted 7)) (obj_count (heap example_inserted 7))"
  define g0 where "g0 = example_inserted\<lparr>heap := (heap example_inserted)
      (7 := (heap example_inserted 7)\<lparr>refcount := refcount (heap example_inserted 7) + 1\<rparr>)\<rparr>"
  define r where "r = store_session (\<lambda>i. None) sess g0"
  have o: "C_OpenSession example_session (\<lambda>i. None) 0 CKF_SERIAL_SESSION example_inserted =
      (CKR_OK, Some (fst r), snd r)"
    by (simp add: C_OpenSession_def CHECKSLOT_def i CERTIFICATE_SLOT_def CKF_SERIAL_SESSION_def
        Let_def sess_def g0_def r_def split_def)
  then have e: "example_opened = snd r" by (simp add: example_opened_def)
  have s: "store_session (\<lambda>i. None) sess g0 = (fst r, snd r)" by (simp add: r_def)
  have c: "sess_list_count g0 \<le> length (sess_list g0)" by (simp add: g0_def i)
  have n: "\<forall>k. sess_list_count g0 \<le> k \<and> k < length (sess_list g0) \<longrightarrow> sess_list g0 ! k = None"
    by (simp add: g0_def i)
  have f: "first_free (sess_list g0) 0 = None" by (simp add: g0_def i)
  note gr = store_session_grow[OF c n f s]
  note fr = store_session_frame[OF s]
  show "sess_list example_opened =
     [Some (open_fields example_session 0 (Some 7) (obj_list (heap example_inserted 7))
              (obj_count (heap example_inserted 7))), None, None, None, None]"
    using gr(1) by (simp add: e g0_def i sess_def)
  show "sess_list_count example_opened = 1" using gr(2) by (simp add: e g0_def i)
  show "slot_list example_opened = [Some 7]" using fr(1) by (simp add: e g0_def i)
  show "allocated example_opened = {7}" using fr(3) by (simp add: e g0_def i)
  show "module_initialized example_opened" using fr(4) by (simp add: e g0_def i)
  show "refcount (heap example_opened 7) = 2" using fr(2) by (simp add: e g0_def i)
  show "tokenid (heap example_opened 7) = ''T''" using fr(2) by (simp add: e g0_def i)
  show "lacontext (heap example_opened 7) = Some 1" using fr(2) by (simp add: e g0_def i)
  have "step example_inserted example_opened"
    unfolding e by (rule step_OpenSession[OF o])
  then show "reachable example_opened" using i(7) reachable_step by blast
qed

lemma example_removed_facts:
  "reachable example_removed" "sess_list example_removed = sess_list example_opened"
proof -
  have "step example_opened example_removed"
    unfolding example_removed_def
    by (rule step_remove_token) (rule example_opened_facts(5))
  then show "reachable example_removed" using example_opened_facts(7) reachable_step by blast
  show "sess_list example_removed = sess_list example_opened"
    by (simp add: example_removed_def)
qed

theorem refcount_counts_references_witness:
  "reachable example_opened \<and> length (sess_list example_opened) < 2 ^ 32 - 1 \<and>
   Some 7 \<in> set (slot_list example_opened) \<and> 7 \<in> allocated example_opened \<and>
   open_sessions (sess_list example_opened) 7 = 1 \<and>
   unat (refcount (heap example_opened 7)) = 1 + open_sessions (sess_list example_opened) 7 \<and>
   module_initialized example_opened \<and>
   CHECKSESSION 1 example_opened =
     Some (0, open_fields example_session 0 (Some 7) (obj_list (heap example_inserted 7))
                (obj_count (heap example_inserted 7))) \<and>
   lacontext (heap example_opened 7) = Some 1 \<and>
   fst (C_CloseSession 1 example_opened) = CKR_OK \<and>
   refcount (heap (snd (C_CloseSession 1 example_opened)) 7) = 1 \<and>
   logged_in (heap (snd (C_CloseSession 1 example_opened)) 7) = False \<and>
   lacontext (heap (snd (C_CloseSession 1 example_opened)) 7) = None \<and>
   slot_list example_opened ! 0 = Some 7 \<and> tokenid (heap example_opened 7) = ''T'' \<and>
   refcount (heap example_removed 7) = 1 \<and> slot_list example_removed = [None] \<and>
   reachable example_removed \<and> length (sess_list example_removed) < 2 ^ 32 - 1 \<and>
   7 \<in> allocated example_removed \<and>
   unat (refcount (heap example_removed 7)) = open_sessions (sess_list example_removed) 7 \<and>
   lacontext (heap (slot_entry_free 7 False example_opened) 7) = None"
proof -
  note f = example_opened_facts
  note r = example_removed_facts
  define sess where "sess = open_fields example_session 0 (Some 7)
      (obj_list (heap example_inserted 7)) (obj_count (heap example_inserted 7))"
  have l: "length (sess_list example_opened) < 2 ^ 32 - 1" by (simp add: f(1))
  have m: "Some 7 \<in> set (slot_list example_opened)" by (simp add: f(3))
  have o: "open_sessions (sess_list example_opened) 7 = 1"
    by (simp add: f(1) open_sessions_def bound_token_def open_fields_def)
  have c: "CHECKSESSION 1 example_opened = Some (0, sess)"
    by (simp add: CHECKSESSION_def dec_ulong_def f(1,2) sess_def)
  have t: "token sess = Some 7" by (simp add: sess_def open_fields_def)
  have s0: "(0::nat) < length (slot_list example_opened)" "slot_list example_opened ! 0 = Some 7"
    by (simp_all add: f(3))
  have first: "\<forall>k < (0::nat). \<forall>b. slot_list example_opened ! k = Some b \<longrightarrow>
      tokenid (heap example_opened b) \<noteq> ''T''"
    by simp
  note th = refcount_counts_references[where g = example_opened and a = 7 and session = 1
      and i = 0 and se = sess and lo = False and j = 0 and tid = "''T''"]
  from th f(7) l m have p1: "7 \<in> allocated example_opened \<and>
      unat (refcount (heap example_opened 7)) = 1 + open_sessions (sess_list example_opened) 7"
    by blast
  from th f(5) c t have "fst (C_CloseSession 1 example_opened) = CKR_OK \<and>
      refcount (heap (snd (C_CloseSession 1 example_opened)) 7) =
        refcount (heap example_opened 7) - 1 \<and>
      (refcount (heap example_opened 7) = 2 \<longrightarrow>
         logged_in (heap (snd (C_CloseSession 1 example_opened)) 7) = False \<and>
         lacontext (heap (snd (C_CloseSession 1 example_opened)) 7) = None)"
    by blast
  then have p2: "fst (C_CloseSession 1 example_opened) = CKR_OK \<and>
      refcount (heap (snd (C_CloseSession 1 example_opened)) 7) = 1 \<and>
      logged_in (heap (snd (C_CloseSession 1 example_opened)) 7) = False \<and>
      lacontext (heap (snd (C_CloseSession 1 example_opened)) 7) = None"
    using f(6) by simp
  from th s0 f(8) first have "refcount (heap (remove_token_id ''T'' example_opened) 7) =
        refcount (heap example_opened 7) - 1 \<and>
      slot_list (remove_token_id ''T'' example_opened) = (slot_list example_opened)[0 := None]"
    by blast
  then have p3: "refcount (heap example_removed 7) = 1 \<and> slot_list example_removed = [None]"
    using f(3,6) by (simp add: example_removed_def)
  from th f(6) have p4: "lacontext (heap (slot_entry_free 7 False example_opened) 7) = None"
    by blast
  have l2: "length (sess_list example_removed) < 2 ^ 32 - 1" by (simp add: r(2) f(1))
  have n0: "refcount (heap example_removed 7) \<noteq> 0" using p3 by simp
  note th2 = refcount_counts_references[where g = example_removed and a = 7]
  have al: "7 \<in> allocated example_removed"
  proof (rule ccontr)
    assume "7 \<notin> allocated example_removed"
    with th2 r(1) l2 have "open_sessions (sess_list example_removed) 7 = 0" by blast
    then show False using o by (simp add: r(2))
  qed
  with th2 r(1) l2 have "unat (refcount (heap example_removed 7)) =
      (if Some 7 \<in> set (slot_list example_removed) then 1 else 0) +
      open_sessions (sess_list example_removed) 7"
    by blast
  then have p5: "unat (refcount (heap example_removed 7)) =
      open_sessions (sess_list example_removed) 7"
    using p3 by simp
  show ?thesis using f(5,7,8,9) l m o c p1 p2 p3 p4 p5 r(1) l2 al s0(2) by (simp add: sess_def)
qed

end
